(* ===== verification/Go_Prelude.thy ===== *)
theory Go_Prelude
  imports Complex_Main "HOL-Library.Word"
begin

text \<open>
  Shared vocabulary of the development: Go's 64-bit integers (with the wrap-around written out),
  the few facts about \<open>float64\<close> comparisons the sources rely on, the outcomes of a call (it
  returns, it panics, or it blocks forever), slices, and the nondeterministic choice of a
  \<open>select\<close> statement. Every other theory imports this one.
\<close>

section \<open>Lemma collections\<close>

named_theorems pool_defs "definitions of the timer pool"
named_theorems registry_defs "definitions of the temporary-error registry"
named_theorems retrier_defs "definitions of the retrier"
named_theorems storage_defs "definitions of the in-memory jobs storage"
named_theorems sqlite_defs "definitions of the SQLite jobs storage"
named_theorems scheduler_defs "definitions of the scheduler"

section \<open>Sixty-four bit integers\<close>

text \<open>
  \<open>int\<close>, \<open>int64\<close> and \<open>time.Duration\<close> are 64-bit two's complement integers. The
  model keeps them as mathematical integers and applies \<open>wrap64\<close> to the results of the
  arithmetic that can leave the range.
\<close>

definition wrap64 :: "int \<Rightarrow> int" where
  "wrap64 x = (x + 2 ^ 63) mod 2 ^ 64 - 2 ^ 63"

definition is_int64 :: "int \<Rightarrow> bool" where
  "is_int64 x \<longleftrightarrow> - (2 ^ 63) \<le> x \<and> x < 2 ^ 63"

abbreviation maxInt64 :: int where
  "maxInt64 \<equiv> 9223372036854775807"

type_synonym duration = int
type_synonym instant = int

section \<open>Floating point values\<close>

text \<open>
  A \<open>float64\<close> is a rational, an infinity or not-a-number. Only comparisons are computed;
  rounding arithmetic is left to the runtime parameter of the retrier.
\<close>

datatype go_float = Fin rat | PInf | NInf | NaN

fun float_le :: "go_float \<Rightarrow> go_float \<Rightarrow> bool" where
  "float_le (Fin a) (Fin b) = (a \<le> b)"
| "float_le NaN y = False"
| "float_le x NaN = False"
| "float_le NInf y = True"
| "float_le x PInf = True"
| "float_le x y = False"

section \<open>Outcomes of a call\<close>

datatype 'a res = Ret 'a | Panic string | Block

fun res_bind :: "'a res \<Rightarrow> ('a \<Rightarrow> 'b res) \<Rightarrow> 'b res" where
  "res_bind (Ret x) f = f x"
| "res_bind (Panic m) f = Panic m"
| "res_bind Block f = Block"

abbreviation nil_deref :: "'a res" where
  "nil_deref \<equiv> Panic ''invalid memory address or nil pointer dereference''"

section \<open>Slices and select\<close>

definition go_slice :: "'a list \<Rightarrow> int \<Rightarrow> int \<Rightarrow> 'a list res" where
  "go_slice xs lo hi =
     (if 0 \<le> lo \<and> lo \<le> hi \<and> hi \<le> int (length xs)
      then Ret (take (nat (hi - lo)) (drop (nat lo) xs))
      else Panic ''slice bounds out of range'')"

definition last_n :: "nat \<Rightarrow> 'a list \<Rightarrow> 'a list" where
  "last_n n xs = drop (length xs - n) xs"

text \<open>
  A \<open>select\<close> without a default takes any one of the ready cases and blocks when there is none;
  \<open>pick\<close> resolves the choice.
\<close>

definition go_select :: "nat \<Rightarrow> 'a list \<Rightarrow> 'a option" where
  "go_select pick cs = (if cs = [] then None else Some (cs ! (pick mod length cs)))"

section \<open>Lemmas\<close>

lemma wrap64_is_int64 [simp]: "is_int64 (wrap64 x)"
  unfolding is_int64_def wrap64_def
  using pos_mod_bound [of "2 ^ 64" "x + 2 ^ 63"] pos_mod_sign [of "2 ^ 64" "x + 2 ^ 63"] by simp

lemma wrap64_id: "is_int64 x \<Longrightarrow> wrap64 x = x"
  by (simp add: is_int64_def wrap64_def)

lemma wrap64_turns: "\<exists>q. x = wrap64 x + q * 2 ^ 64 \<and> - (2 ^ 63) \<le> wrap64 x \<and> wrap64 x < 2 ^ 63"
proof -
  have "x + 2 ^ 63 = (x + 2 ^ 63) div 2 ^ 64 * 2 ^ 64 + (x + 2 ^ 63) mod 2 ^ 64"
    by (rule div_mult_mod_eq [symmetric])
  then have "x = wrap64 x + (x + 2 ^ 63) div 2 ^ 64 * 2 ^ 64" unfolding wrap64_def by linarith
  moreover have "- (2 ^ 63) \<le> wrap64 x \<and> wrap64 x < 2 ^ 63"
    using wrap64_is_int64 [of x] by (simp add: is_int64_def)
  ultimately show ?thesis by blast
qed

lemma wrap64_shift: "is_int64 x \<Longrightarrow> wrap64 (x + q * 2 ^ 64) = x"
proof -
  assume "is_int64 x"
  moreover have "(x + q * 2 ^ 64 + 2 ^ 63) mod 2 ^ 64 = (x + 2 ^ 63) mod 2 ^ 64"
    using mod_mult_self1 [of "x + 2 ^ 63" q "2 ^ 64"] by (simp add: algebra_simps)
  ultimately show ?thesis using wrap64_id [of x] by (simp add: wrap64_def)
qed

text \<open>A number at or above a threshold wraps to one below it exactly near a multiple of \<open>2^64\<close>.\<close>

lemma wrap64_window:
  assumes "0 < t" and "t \<le> maxInt64" and "t \<le> x"
  shows "wrap64 x < t \<longleftrightarrow> (\<exists>q\<ge>1. q * 2 ^ 64 - 2 ^ 63 \<le> x \<and> x < q * 2 ^ 64 + t)"
proof
  obtain q where q: "x = wrap64 x + q * 2 ^ 64" "- (2 ^ 63) \<le> wrap64 x" using wrap64_turns by blast
  assume "wrap64 x < t"
  with q assms(3) have "0 < q * 2 ^ 64" "q * 2 ^ 64 - 2 ^ 63 \<le> x" "x < q * 2 ^ 64 + t" by linarith+
  moreover from this(1) have "1 \<le> q" by simp
  ultimately show "\<exists>q\<ge>1. q * 2 ^ 64 - 2 ^ 63 \<le> x \<and> x < q * 2 ^ 64 + t" by blast
next
  assume "\<exists>q\<ge>1. q * 2 ^ 64 - 2 ^ 63 \<le> x \<and> x < q * 2 ^ 64 + t"
  then obtain q where q: "q * 2 ^ 64 - 2 ^ 63 \<le> x" "x < q * 2 ^ 64 + t" by blast
  then have "is_int64 (x - q * 2 ^ 64)" using assms(2) by (simp add: is_int64_def)
  from wrap64_shift [OF this, of q] q(2) show "wrap64 x < t" by simp
qed

text \<open>The written-out wrap-around is the two's complement reading of a 64-bit word.\<close>

lemma wrap64_sint: "wrap64 x = sint (word_of_int x :: 64 word)"
  by (simp add: wrap64_def sint_sbintrunc' signed_take_bit_eq_take_bit_shift take_bit_eq_mod)

lemma res_bind_cong [fundef_cong]:
  "m = m' \<Longrightarrow> (\<And>x. m' = Ret x \<Longrightarrow> f x = f' x) \<Longrightarrow> res_bind m f = res_bind m' f'"
  by (cases m') auto

lemma res_bind_case:
  "res_bind m f = (case m of Ret x \<Rightarrow> f x | Panic s \<Rightarrow> Panic s | Block \<Rightarrow> Block)"
  by (cases m) auto

lemma map_res_eq_Ret: "map_res f m = Ret y \<longleftrightarrow> (\<exists>x. m = Ret x \<and> y = f x)"
  by (cases m) auto

lemma res_bind_eq_Ret: "res_bind m f = Ret y \<longleftrightarrow> (\<exists>x. m = Ret x \<and> f x = Ret y)"
  by (cases m) auto

lemma go_select_eq_None [simp]: "go_select pick cs = None \<longleftrightarrow> cs = []"
  by (simp add: go_select_def)

lemma go_select_Nil [simp]: "go_select pick [] = None"
  by simp

lemma go_select_single [simp]: "go_select pick [c] = Some c"
  by (simp add: go_select_def)

lemma go_select_in: "go_select pick cs = Some c \<Longrightarrow> c \<in> set cs"
  by (auto simp: go_select_def split: if_splits)

lemma length_last_n [simp]: "length (last_n n xs) = min n (length xs)"
  by (simp add: last_n_def)

lemma last_n_all: "length xs \<le> n \<Longrightarrow> last_n n xs = xs"
  by (simp add: last_n_def)

lemma last_n_suffix: "\<exists>ys. xs = ys @ last_n n xs"
  unfolding last_n_def by (metis append_take_drop_id)

lemma set_last_n: "set (last_n n xs) \<subseteq> set xs"
  by (simp add: last_n_def set_drop_subset)

end
