(* ===== verification/Timer_Pool.thy ===== *)
theory Timer_Pool
  imports Go_Prelude
begin

text \<open>
  \<open>timer.go\<close>: the pool of timers a retrier draws its timeout timer and its backoff timers from.
  A timer is modelled with the semantics of \<open>time.Timer\<close> since Go 1.23 (the module requires a
  later release): its channel delivers once the deadline has passed, and \<open>Stop\<close> and \<open>Reset\<close>
  leave no stale value behind. The channel of the pool is the queue of its buffered timers, its
  capacity, and whether it was closed.
\<close>

section \<open>Timers of the standard library\<close>

record gotimer =
  tm_id :: nat
  tm_when :: "instant option"

text \<open>The runtime computes a deadline that saturates instead of wrapping around.\<close>

definition deadline :: "instant \<Rightarrow> duration \<Rightarrow> instant" where
  "deadline now d = (if d \<le> 0 then now else min (now + d) maxInt64)"

definition newTimer :: "nat \<Rightarrow> instant \<Rightarrow> duration \<Rightarrow> gotimer" where
  "newTimer i now d = \<lparr>tm_id = i, tm_when = Some (deadline now d)\<rparr>"

definition timer_Stop :: "gotimer \<Rightarrow> gotimer" where
  "timer_Stop t = t\<lparr>tm_when := None\<rparr>"

definition timer_Reset :: "instant \<Rightarrow> duration \<Rightarrow> gotimer \<Rightarrow> gotimer" where
  "timer_Reset now d t = t\<lparr>tm_when := Some (deadline now d)\<rparr>"

definition timer_ready :: "instant \<Rightarrow> gotimer \<Rightarrow> bool" where
  "timer_ready now t = (case tm_when t of None \<Rightarrow> False | Some w \<Rightarrow> w \<le> now)"

definition timer_recv :: "gotimer \<Rightarrow> gotimer" where
  "timer_recv t = t\<lparr>tm_when := None\<rparr>"

text \<open>\<^verbatim>\<open>select { case <-timer.C: default: }\<close>\<close>

definition timer_drain :: "instant \<Rightarrow> gotimer \<Rightarrow> gotimer" where
  "timer_drain now t = (if timer_ready now t then timer_recv t else t)"

section \<open>The pool\<close>

record timer_pool =
  tp_ch :: "gotimer list"
  tp_cap :: nat
  tp_duration :: duration
  tp_closed :: bool

text \<open>
  The loop of \<open>NewTimerPool\<close>: \<open>size\<close> times, create, stop, drain and send. The identities of
  the timers count down from the number still to create.
\<close>

fun fill_pool :: "nat \<Rightarrow> instant \<Rightarrow> duration \<Rightarrow> timer_pool \<Rightarrow> timer_pool res" where
  "fill_pool 0 now timeout p = Ret p"
| "fill_pool (Suc n) now timeout p =
     (let t = timer_drain now (timer_Stop (newTimer n now timeout)) in
      if length (tp_ch p) < tp_cap p
      then fill_pool n now timeout (p\<lparr>tp_ch := tp_ch p @ [t]\<rparr>)
      else Block)"

definition NewTimerPool :: "instant \<Rightarrow> int \<Rightarrow> duration \<Rightarrow> timer_pool res" where
  "NewTimerPool now sz timeout =
     (if sz < 0 then Panic ''makechan: size out of range''
      else fill_pool (nat sz) now timeout
             \<lparr>tp_ch = [], tp_cap = nat sz, tp_duration = timeout, tp_closed = False\<rparr>)"

text \<open>\<open>Get\<close> receives: it blocks on an open empty pool and yields nil on a closed empty one.\<close>

definition pool_Get :: "instant \<Rightarrow> timer_pool \<Rightarrow> (gotimer option \<times> timer_pool) res" where
  "pool_Get now p =
     (case tp_ch p of
        t # ts \<Rightarrow> Ret (Some (timer_Reset now (tp_duration p) t), p\<lparr>tp_ch := ts\<rparr>)
      | [] \<Rightarrow> if tp_closed p then Ret (None, p) else Block)"

definition pool_Put :: "instant \<Rightarrow> gotimer \<Rightarrow> timer_pool \<Rightarrow> timer_pool res" where
  "pool_Put now timer p =
     (let t = timer_drain now (timer_Stop timer) in
      if tp_closed p then Panic ''send on closed channel''
      else if length (tp_ch p) < tp_cap p then Ret (p\<lparr>tp_ch := tp_ch p @ [t]\<rparr>)
      else Ret p)"

definition pool_Close :: "timer_pool \<Rightarrow> timer_pool res" where
  "pool_Close p =
     (if tp_closed p then Panic ''close of closed channel'' else Ret (p\<lparr>tp_closed := True\<rparr>))"

text \<open>Ranging over the channel ends only when the channel is closed and empty.\<close>

fun drain_loop :: "gotimer list \<Rightarrow> timer_pool \<Rightarrow> timer_pool res" where
  "drain_loop [] p = (if tp_closed p then Ret (p\<lparr>tp_ch := []\<rparr>) else Block)"
| "drain_loop (t # ts) p = drain_loop ts p"

definition pool_Drain :: "timer_pool \<Rightarrow> timer_pool res" where
  "pool_Drain p = drain_loop (tp_ch p) p"

definition pool_Len :: "timer_pool \<Rightarrow> int" where
  "pool_Len p = int (length (tp_ch p))"

lemmas timer_defs =
  deadline_def newTimer_def timer_Stop_def timer_Reset_def timer_ready_def timer_recv_def
  timer_drain_def

declare NewTimerPool_def [pool_defs] pool_Get_def [pool_defs] pool_Put_def [pool_defs]
  pool_Close_def [pool_defs] pool_Drain_def [pool_defs] pool_Len_def [pool_defs]

section \<open>The pool invariant\<close>

text \<open>
  A pool never holds more timers than its channel has room for, and every pooled timer is
  stopped: it has no pending deadline, so taking it out can never deliver a stale tick.
\<close>

definition pool_wf :: "timer_pool \<Rightarrow> bool" where
  "pool_wf p \<longleftrightarrow> length (tp_ch p) \<le> tp_cap p \<and> (\<forall>t \<in> set (tp_ch p). tm_when t = None)"

lemma stopped_timer [simp]: "tm_when (timer_drain now (timer_Stop t)) = None"
  by (simp add: timer_defs)

lemma drained_id [simp]: "tm_id (timer_drain now (timer_Stop t)) = tm_id t"
  by (simp add: timer_defs)

lemma timer_Reset_id [simp]: "tm_id (timer_Reset now d t) = tm_id t"
  by (simp add: timer_defs)

lemma timer_recv_id [simp]: "tm_id (timer_recv t) = tm_id t"
  by (simp add: timer_defs)

lemma timer_ready_Reset [simp]: "timer_ready n (timer_Reset now d t) \<longleftrightarrow> deadline now d \<le> n"
  by (simp add: timer_defs)

lemma fill_pool_ok:
  assumes "pool_wf p" and "length (tp_ch p) + n \<le> tp_cap p"
  shows "\<exists>q. fill_pool n now timeout p = Ret q \<and> pool_wf q \<and>
           length (tp_ch q) = length (tp_ch p) + n \<and> tp_cap q = tp_cap p \<and>
           tp_duration q = tp_duration p \<and> tp_closed q = tp_closed p"
  using assms
proof (induction n arbitrary: p)
  case (Suc n)
  let ?p = "p\<lparr>tp_ch := tp_ch p @ [timer_drain now (timer_Stop (newTimer n now timeout))]\<rparr>"
  from Suc.prems have "pool_wf ?p" "length (tp_ch ?p) + n \<le> tp_cap ?p"
    by (auto simp: pool_wf_def)
  from Suc.IH [OF this] Suc.prems(2) show ?case
    by (auto simp: Let_def)
qed simp

lemma drain_loop_eq: "drain_loop ts p = (if tp_closed p then Ret (p\<lparr>tp_ch := []\<rparr>) else Block)"
  by (induction ts) auto

lemma NewTimerPool_Ret:
  assumes "0 \<le> sz"
  shows "\<exists>p. NewTimerPool now sz timeout = Ret p \<and> pool_wf p \<and> pool_Len p = sz \<and>
           int (tp_cap p) = sz \<and> tp_duration p = timeout \<and> \<not> tp_closed p"
  using fill_pool_ok
      [of "\<lparr>tp_ch = [], tp_cap = nat sz, tp_duration = timeout, tp_closed = False\<rparr>" "nat sz"
        now timeout] assms
  by (auto simp: pool_defs pool_wf_def)

lemma pool_Get_wf: "pool_wf p \<Longrightarrow> pool_Get now p = Ret (t, q) \<Longrightarrow> pool_wf q"
  by (auto simp: pool_defs pool_wf_def split: list.splits if_splits)

lemma pool_Put_wf: "pool_wf p \<Longrightarrow> pool_Put now t p = Ret q \<Longrightarrow> pool_wf q"
  by (auto simp: pool_defs pool_wf_def Let_def split: if_splits)

lemma pool_Get_frame:
  "pool_Get now p = Ret (t, q) \<Longrightarrow>
     tp_cap q = tp_cap p \<and> tp_duration q = tp_duration p \<and> tp_closed q = tp_closed p"
  by (auto simp: pool_defs split: list.splits if_splits)

lemma pool_Put_frame:
  "pool_Put now t p = Ret q \<Longrightarrow>
     tp_cap q = tp_cap p \<and> tp_duration q = tp_duration p \<and> tp_closed q = tp_closed p"
  by (auto simp: pool_defs Let_def split: if_splits)

section \<open>The interface clients use\<close>

text \<open>
  What a client of a pool relies on: while idle timers remain a timer can be taken, taking one
  uses up one, and giving it back restores the count. The retrier's bracketed uses are proved
  from these laws.
\<close>

locale timer_source =
  fixes get :: "instant \<Rightarrow> 'p \<Rightarrow> (gotimer option \<times> 'p) res"
    and put :: "instant \<Rightarrow> gotimer \<Rightarrow> 'p \<Rightarrow> 'p res"
    and idle :: "'p \<Rightarrow> nat"
    and room :: "'p \<Rightarrow> nat"
    and invar :: "'p \<Rightarrow> bool"
  assumes get_ready: "invar p \<Longrightarrow> 0 < idle p \<Longrightarrow> \<exists>t q. get now p = Ret (Some t, q)"
    and get_idle: "invar p \<Longrightarrow> get now p = Ret (Some t, q) \<Longrightarrow>
          invar q \<and> idle p = Suc (idle q) \<and> room q = Suc (room p)"
    and put_idle: "invar p \<Longrightarrow> 0 < room p \<Longrightarrow>
          \<exists>q. put now t p = Ret q \<and> invar q \<and> idle q = Suc (idle p) \<and> Suc (room q) = room p"
begin

text \<open>A bracketed use, get then put, succeeds and leaves the pool as full as it was.\<close>

lemma bracket:
  assumes "invar p" and "0 < idle p"
  shows "\<exists>t q. get now p = Ret (Some t, q) \<and> invar q \<and> idle p = Suc (idle q) \<and>
           (\<forall>now' t'. \<exists>p'. put now' t' q = Ret p' \<and> invar p' \<and> idle p' = idle p \<and>
              room p' = room p)"
proof -
  from get_ready [OF assms] obtain t q where g: "get now p = Ret (Some t, q)" by blast
  from get_idle [OF assms(1) g] have q: "invar q" "idle p = Suc (idle q)" "room q = Suc (room p)"
    by auto
  have "\<exists>p'. put now' t' q = Ret p' \<and> invar p' \<and> idle p' = idle p \<and> room p' = room p" for now' t'
    using put_idle [OF q(1), of now' t'] q(2,3) by auto
  with g q show ?thesis by blast
qed

end

definition pool_idle :: "timer_pool \<Rightarrow> nat" where
  "pool_idle p = length (tp_ch p)"

definition pool_room :: "timer_pool \<Rightarrow> nat" where
  "pool_room p = tp_cap p - length (tp_ch p)"

definition pool_open :: "timer_pool \<Rightarrow> bool" where
  "pool_open p \<longleftrightarrow> pool_wf p \<and> \<not> tp_closed p"

interpretation pool: timer_source pool_Get pool_Put pool_idle pool_room pool_open
proof (unfold_locales, goal_cases)
  case (1 p now)
  then show ?case by (cases "tp_ch p") (auto simp: pool_defs pool_idle_def)
next
  case (2 p now t q)
  then show ?case
    by (auto simp: pool_defs pool_idle_def pool_room_def pool_open_def pool_wf_def
        split: list.splits if_splits)
next
  case (3 p now t)
  then show ?case
    by (auto simp: pool_defs pool_idle_def pool_room_def pool_open_def pool_wf_def Let_def)
qed

section \<open>Histories of pool operations\<close>

datatype pool_op = OpGet instant | OpPut instant gotimer | OpClose | OpDrain

fun pool_step :: "timer_pool \<Rightarrow> pool_op \<Rightarrow> timer_pool res" where
  "pool_step p (OpGet now) = map_res snd (pool_Get now p)"
| "pool_step p (OpPut now t) = pool_Put now t p"
| "pool_step p OpClose = pool_Close p"
| "pool_step p OpDrain = pool_Drain p"

fun pool_run :: "timer_pool \<Rightarrow> pool_op list \<Rightarrow> timer_pool res" where
  "pool_run p [] = Ret p"
| "pool_run p (x # xs) = res_bind (pool_step p x) (\<lambda>q. pool_run q xs)"

lemma pool_step_wf: "pool_wf p \<Longrightarrow> pool_step p x = Ret q \<Longrightarrow> pool_wf q"
  by (cases x)
    (auto simp: pool_defs pool_wf_def Let_def drain_loop_eq split: list.splits if_splits)

lemma pool_run_wf: "pool_wf p \<Longrightarrow> pool_run p xs = Ret q \<Longrightarrow> pool_wf q"
  by (induction xs arbitrary: p) (auto simp: res_bind_eq_Ret dest: pool_step_wf)

end
