(* ===== verification/Go_Errors.thy ===== *)
theory Go_Errors
  imports Go_Prelude
begin

text \<open>
  Go error values as the sources build them, the package-level sentinels of
  \<open>errors.go\<close>, \<open>retrier.go\<close>, \<open>pkg/scheduler/errors.go\<close> and \<open>storage.go\<close>, and what the
  sources rely on of \<open>errors.Is\<close>. The package \<open>ewrap\<close> is not part of the repository: a
  wrapped error is a constructor over its cause, and \<open>errors.Is\<close> and \<open>Error()\<close> are
  fields of the runtime parameter.
\<close>

section \<open>Error values\<close>

text \<open>
  \<open>Sentinel name msg\<close> is a package variable made by \<open>ewrap.New(msg)\<close> (or by the standard
  library); \<open>Wrapf cause fmt args\<close> is the result of \<open>ewrap.Wrapf\<close> and, with no arguments, of
  \<open>ewrap.Wrap\<close>; \<open>Errorf\<close> is \<open>fmt.Errorf\<close> with the listed errors under \<open>%w\<close>; \<open>Joined\<close> is
  \<open>errors.Join\<close>.
\<close>

datatype goerr =
    Sentinel string string
  | Wrapf goerr string "farg list"
  | Errorf string "goerr list"
  | Joined "goerr list"
  | StatusError int
and farg =
    FInt int
  | FDur duration
  | FFloat go_float
  | FStr string
  | FErr goerr

abbreviation Wrap :: "goerr \<Rightarrow> string \<Rightarrow> goerr" where
  "Wrap e msg \<equiv> Wrapf e msg []"

definition ErrOperationFailed :: goerr where
  "ErrOperationFailed = Sentinel ''again.ErrOperationFailed'' ''failed''"

definition ErrInvalidRetrier :: goerr where
  "ErrInvalidRetrier = Sentinel ''again.ErrInvalidRetrier'' ''invalid retrier''"

definition ErrMaxRetriesReached :: goerr where
  "ErrMaxRetriesReached = Sentinel ''again.ErrMaxRetriesReached'' ''maximum number of retries reached''"

definition ErrTimeoutReached :: goerr where
  "ErrTimeoutReached = Sentinel ''again.ErrTimeoutReached'' ''operation timeout reached''"

definition ErrOperationStopped :: goerr where
  "ErrOperationStopped = Sentinel ''again.ErrOperationStopped'' ''operation stopped''"

definition ErrNilRetryableFunc :: goerr where
  "ErrNilRetryableFunc =
     Sentinel ''again.ErrNilRetryableFunc'' ''failed to invoke the function. It appears to be nil''"

definition ErrInvalidJob :: goerr where
  "ErrInvalidJob = Sentinel ''scheduler.ErrInvalidJob'' ''invalid job''"

definition ErrStorageOperation :: goerr where
  "ErrStorageOperation = Sentinel ''scheduler.ErrStorageOperation'' ''storage operation failed''"

definition ErrSchedulerStopped :: goerr where
  "ErrSchedulerStopped = Sentinel ''scheduler.ErrSchedulerStopped'' ''scheduler stopped''"

definition ErrURLValidatorInitialization :: goerr where
  "ErrURLValidatorInitialization =
     Sentinel ''scheduler.ErrURLValidatorInitialization'' ''url validator initialization failed''"

definition ErrUnsupportedMethod :: goerr where
  "ErrUnsupportedMethod = Sentinel ''scheduler.ErrUnsupportedMethod'' ''unsupported method''"

definition ErrRetryableStatus :: goerr where
  "ErrRetryableStatus = Sentinel ''scheduler.ErrRetryableStatus'' ''retryable status''"

definition errJobAlreadyExists :: goerr where
  "errJobAlreadyExists = Sentinel ''scheduler.errJobAlreadyExists'' ''job already exists''"

text \<open>Errors of the standard library that the sources name.\<close>

definition ctx_Canceled :: goerr where
  "ctx_Canceled = Sentinel ''context.Canceled'' ''context canceled''"

definition ctx_DeadlineExceeded :: goerr where
  "ctx_DeadlineExceeded = Sentinel ''context.DeadlineExceeded'' ''context deadline exceeded''"

definition http_ErrHandlerTimeout :: goerr where
  "http_ErrHandlerTimeout = Sentinel ''http.ErrHandlerTimeout'' ''http: Handler timeout''"

definition http_ErrServerClosed :: goerr where
  "http_ErrServerClosed = Sentinel ''http.ErrServerClosed'' ''http: Server closed''"

definition net_ErrClosed :: goerr where
  "net_ErrClosed = Sentinel ''net.ErrClosed'' ''use of closed network connection''"

definition net_ErrWriteToConnected :: goerr where
  "net_ErrWriteToConnected =
     Sentinel ''net.ErrWriteToConnected'' ''use of WriteTo with pre-connected connection''"

lemmas sentinel_defs =
  ErrOperationFailed_def ErrInvalidRetrier_def ErrMaxRetriesReached_def ErrTimeoutReached_def
  ErrOperationStopped_def ErrNilRetryableFunc_def ErrInvalidJob_def ErrStorageOperation_def
  ErrSchedulerStopped_def ErrURLValidatorInitialization_def ErrUnsupportedMethod_def
  ErrRetryableStatus_def errJobAlreadyExists_def ctx_Canceled_def ctx_DeadlineExceeded_def
  http_ErrHandlerTimeout_def http_ErrServerClosed_def net_ErrClosed_def net_ErrWriteToConnected_def

section \<open>The runtime parameter\<close>

text \<open>
  What the sources call and the repository does not contain, or what depends on the machine:
  \<open>errors_Is\<close> and \<open>err_Error\<close> (their results on wrapped errors come from \<open>ewrap\<close>),
  whether \<open>slog.Default()\<close> is enabled at debug level, and \<open>backoff\<close>, the value of
  \<open>time.Duration(float64(interval) * math.Pow(factor, float64(attempt)))\<close> with the rounding and
  the float-to-integer conversion of the target machine.
\<close>

record runtime =
  errors_Is :: "goerr \<Rightarrow> goerr \<Rightarrow> bool"
  err_Error :: "goerr \<Rightarrow> string"
  slog_Default :: bool
  backoff :: "duration \<Rightarrow> go_float \<Rightarrow> nat \<Rightarrow> duration"

text \<open>
  The contract of \<open>errors.Is\<close> the sources rely on: an error matches itself, and a wrapper, a
  \<open>%w\<close> format or a join matches whatever one of its causes matches.
\<close>

locale error_matching =
  fixes rt :: "runtime"
  assumes Is_refl: "errors_Is rt e e"
    and Is_Wrapf: "errors_Is rt e t \<Longrightarrow> errors_Is rt (Wrapf e f as) t"
    and Is_Errorf: "e \<in> set es \<Longrightarrow> errors_Is rt e t \<Longrightarrow> errors_Is rt (Errorf f es) t"
    and Is_Joined: "e \<in> set es \<Longrightarrow> errors_Is rt e t \<Longrightarrow> errors_Is rt (Joined es) t"
begin

lemma Is_Wrapf_self: "errors_Is rt (Wrapf e f as) e"
  by (simp add: Is_Wrapf Is_refl)

lemma Is_Joined_self: "e \<in> set es \<Longrightarrow> errors_Is rt (Joined es) e"
  by (rule Is_Joined [OF _ Is_refl])

lemma Is_Errorf_self: "e \<in> set es \<Longrightarrow> errors_Is rt (Errorf f es) e"
  by (rule Is_Errorf [OF _ Is_refl])

end

text \<open>
  The documented walk of \<open>errors.Is\<close>: compare, then unwrap. It instantiates the contract.
\<close>

fun chain_Is :: "goerr \<Rightarrow> goerr \<Rightarrow> bool" where
  "chain_Is (Wrapf c f as) t = (Wrapf c f as = t \<or> chain_Is c t)"
| "chain_Is (Errorf f es) t = (Errorf f es = t \<or> list_ex (\<lambda>e. chain_Is e t) es)"
| "chain_Is (Joined es) t = (Joined es = t \<or> list_ex (\<lambda>e. chain_Is e t) es)"
| "chain_Is (Sentinel n m) t = (Sentinel n m = t)"
| "chain_Is (StatusError c) t = (StatusError c = t)"

fun err_text :: "goerr \<Rightarrow> string" where
  "err_text (Sentinel n m) = m"
| "err_text (Wrapf c f as) = f @ '': '' @ err_text c"
| "err_text (Errorf f es) = f"
| "err_text (Joined es) = concat (map err_text es)"
| "err_text (StatusError c) = ''unexpected status''"

definition chain_runtime :: runtime where
  "chain_runtime = \<lparr>errors_Is = chain_Is, err_Error = err_text, slog_Default = False,
     backoff = (\<lambda>interval factor attempt.
        case factor of Fin q \<Rightarrow> \<lfloor>of_int interval * q ^ attempt\<rfloor> | _ \<Rightarrow> - (2 ^ 63))\<rparr>"

lemma chain_Is_refl: "chain_Is e e"
  by (cases e) simp_all

interpretation chain: error_matching chain_runtime
  by unfold_locales (auto simp: chain_runtime_def chain_Is_refl list_ex_iff)

end
