(* ===== verification/Error_Registry.thy ===== *)
theory Error_Registry
  imports Go_Errors
begin

text \<open>
  \<open>registry.go\<close>: the list of temporary errors a retrier consults. Each operation runs under the
  registry's mutex, so the operations are the atomic steps on the list.
\<close>

section \<open>Definitions\<close>

record registry =
  reg_storage :: "goerr list"

definition NewRegistry :: registry where
  "NewRegistry = \<lparr>reg_storage = []\<rparr>"

definition RegisterTemporaryErrors :: "goerr list \<Rightarrow> registry \<Rightarrow> registry" where
  "RegisterTemporaryErrors errs r = r\<lparr>reg_storage := reg_storage r @ errs\<rparr>"

definition RegisterTemporaryError :: "goerr \<Rightarrow> registry \<Rightarrow> registry" where
  "RegisterTemporaryError err r = RegisterTemporaryErrors [err] r"

definition LoadDefaults :: "registry \<Rightarrow> registry" where
  "LoadDefaults r = RegisterTemporaryErrors
     [ctx_DeadlineExceeded, http_ErrHandlerTimeout, http_ErrServerClosed, net_ErrClosed,
      net_ErrWriteToConnected] r"

text \<open>
  The inner loop of \<open>UnRegisterTemporaryErrors\<close> walks the slice by index and, at the first match,
  joins what is before the index with what is after it and leaves the loop.
\<close>

fun unregister_from :: "runtime \<Rightarrow> goerr \<Rightarrow> nat \<Rightarrow> goerr list \<Rightarrow> goerr list \<Rightarrow> goerr list" where
  "unregister_from rt target i [] storage = storage"
| "unregister_from rt target i (e # rest) storage =
     (if errors_Is rt e target then take i storage @ drop (Suc i) storage
      else unregister_from rt target (Suc i) rest storage)"

definition UnRegisterTemporaryErrors :: "runtime \<Rightarrow> goerr list \<Rightarrow> registry \<Rightarrow> registry" where
  "UnRegisterTemporaryErrors rt errs r =
     fold (\<lambda>target r. r\<lparr>reg_storage := unregister_from rt target 0 (reg_storage r) (reg_storage r)\<rparr>)
       errs r"

definition UnRegisterTemporaryError :: "runtime \<Rightarrow> goerr \<Rightarrow> registry \<Rightarrow> registry" where
  "UnRegisterTemporaryError rt err r = UnRegisterTemporaryErrors rt [err] r"

definition ListTemporaryErrors :: "registry \<Rightarrow> goerr list" where
  "ListTemporaryErrors r = reg_storage r"

definition reg_Len :: "registry \<Rightarrow> int" where
  "reg_Len r = int (length (reg_storage r))"

definition reg_Clean :: "registry \<Rightarrow> registry" where
  "reg_Clean r = r\<lparr>reg_storage := []\<rparr>"

text \<open>
  The variadic parameter is \<open>None\<close> when no argument is passed (a nil slice), in which case the
  registry's own list is searched.
\<close>

fun matches_any :: "runtime \<Rightarrow> goerr \<Rightarrow> goerr list \<Rightarrow> bool" where
  "matches_any rt err [] = False"
| "matches_any rt err (te # tes) = (if errors_Is rt err te then True else matches_any rt err tes)"

definition IsTemporaryError :: "runtime \<Rightarrow> registry \<Rightarrow> goerr \<Rightarrow> goerr list option \<Rightarrow> bool" where
  "IsTemporaryError rt r err errs =
     matches_any rt err (case errs of None \<Rightarrow> ListTemporaryErrors r | Some es \<Rightarrow> es)"

declare NewRegistry_def [registry_defs] RegisterTemporaryErrors_def [registry_defs]
  RegisterTemporaryError_def [registry_defs] LoadDefaults_def [registry_defs]
  UnRegisterTemporaryErrors_def [registry_defs] UnRegisterTemporaryError_def [registry_defs]
  ListTemporaryErrors_def [registry_defs] reg_Len_def [registry_defs] reg_Clean_def [registry_defs]
  IsTemporaryError_def [registry_defs]

section \<open>Reference definitions\<close>

text \<open>Remove the first element that satisfies a predicate.\<close>

fun remove_first :: "('a \<Rightarrow> bool) \<Rightarrow> 'a list \<Rightarrow> 'a list" where
  "remove_first P [] = []"
| "remove_first P (x # xs) = (if P x then xs else x # remove_first P xs)"

lemma unregister_from_remove_first:
  "unregister_from rt t (length pre) rest (pre @ rest) =
     pre @ remove_first (\<lambda>e. errors_Is rt e t) rest"
proof (induction rest arbitrary: pre)
  case (Cons e rest)
  from Cons.IH [of "pre @ [e]"] show ?case by simp
qed simp

lemma unregister_eq:
  "reg_storage (UnRegisterTemporaryErrors rt ts r) =
     fold (\<lambda>t. remove_first (\<lambda>e. errors_Is rt e t)) ts (reg_storage r)"
proof (induction ts arbitrary: r)
  case (Cons t ts)
  have "unregister_from rt t 0 (reg_storage r) (reg_storage r) =
          remove_first (\<lambda>e. errors_Is rt e t) (reg_storage r)"
    using unregister_from_remove_first [of rt t "[]" "reg_storage r"] by simp
  with Cons.IH show ?case by (simp add: UnRegisterTemporaryErrors_def)
qed (simp add: UnRegisterTemporaryErrors_def)

lemma matches_any_iff: "matches_any rt err es \<longleftrightarrow> (\<exists>te \<in> set es. errors_Is rt err te)"
  by (induction es) auto

lemma remove_first_id: "list_all (\<lambda>x. \<not> P x) xs \<Longrightarrow> remove_first P xs = xs"
  by (induction xs) auto

lemma remove_first_append:
  "remove_first P (xs @ ys) =
     (if list_ex P xs then remove_first P xs @ ys else xs @ remove_first P ys)"
  by (induction xs) auto

lemma length_remove_first:
  "length (remove_first P xs) = (if list_ex P xs then length xs - 1 else length xs)"
proof (induction xs)
  case (Cons x xs)
  then show ?case by (cases xs) auto
qed simp

lemma set_remove_first: "set (remove_first P xs) \<subseteq> set xs"
  by (induction xs) auto

lemma remove_first_keeps: "x \<in> set xs \<Longrightarrow> \<not> P x \<Longrightarrow> x \<in> set (remove_first P xs)"
  by (induction xs) auto

lemma fold_remove_first_set:
  "set (fold (\<lambda>t. remove_first (\<lambda>e. errors_Is rt e t)) ts xs) \<subseteq> set xs"
  by (induction ts arbitrary: xs) (use set_remove_first in \<open>fastforce+\<close>)

lemma fold_remove_first_keeps:
  "x \<in> set xs \<Longrightarrow> list_all (\<lambda>t. \<not> errors_Is rt x t) ts \<Longrightarrow>
     x \<in> set (fold (\<lambda>t. remove_first (\<lambda>e. errors_Is rt e t)) ts xs)"
proof (induction ts arbitrary: xs)
  case (Cons t ts)
  then have "x \<in> set (remove_first (\<lambda>e. errors_Is rt e t) xs)"
    by (intro remove_first_keeps) auto
  with Cons show ?case by simp
qed simp

lemma fold_remove_first_length:
  "length xs \<le> length (fold (\<lambda>t. remove_first (\<lambda>e. errors_Is rt e t)) ts xs) + length ts"
proof (induction ts arbitrary: xs)
  case (Cons t ts)
  from Cons.IH [of "remove_first (\<lambda>e. errors_Is rt e t) xs"] show ?case
    by (simp add: length_remove_first split: if_splits)
qed simp

section \<open>The interface of a registry\<close>

text \<open>
  What the retrier and the scheduler rely on: the registry behaves as a list of errors, and
  membership is decided by matching against that list or against the one passed in.
\<close>

locale temporary_errors =
  fixes rt :: runtime
    and listed :: "'r \<Rightarrow> goerr list"
    and register :: "goerr list \<Rightarrow> 'r \<Rightarrow> 'r"
    and clean :: "'r \<Rightarrow> 'r"
    and len :: "'r \<Rightarrow> int"
    and temporary :: "'r \<Rightarrow> goerr \<Rightarrow> goerr list option \<Rightarrow> bool"
  assumes listed_register: "listed (register es r) = listed r @ es"
    and listed_clean: "listed (clean r) = []"
    and len_listed: "len r = int (length (listed r))"
    and temporary_own: "temporary r e None \<longleftrightarrow> (\<exists>t \<in> set (listed r). errors_Is rt e t)"
    and temporary_given: "temporary r e (Some es) \<longleftrightarrow> (\<exists>t \<in> set es. errors_Is rt e t)"
begin

lemma clean_empty: "len (clean r) = 0 \<and> \<not> temporary (clean r) e None"
  by (simp add: len_listed listed_clean temporary_own)

lemma len_register: "len (register es r) = len r + int (length es)"
  by (simp add: len_listed listed_register)

lemma temporary_register:
  "temporary (register es r) e None \<longleftrightarrow> temporary r e None \<or> temporary r e (Some es)"
  by (auto simp: temporary_own temporary_given listed_register)

end

interpretation reg: temporary_errors rt ListTemporaryErrors RegisterTemporaryErrors reg_Clean
  reg_Len "IsTemporaryError rt" for rt
  by unfold_locales (simp_all add: registry_defs matches_any_iff)

section \<open>Properties\<close>

text \<open>
  Classification. An error is temporary exactly when it matches, in the sense of
  \<open>errors.Is\<close>, one of the errors passed in, or one of the registered errors when none is passed;
  registering adds exactly the given errors to what is temporary, whatever was registered before.
\<close>

lemma registry_classifies:
  "IsTemporaryError rt r e (Some es) = (\<exists>t \<in> set es. errors_Is rt e t) \<and>
   IsTemporaryError rt (RegisterTemporaryErrors es r) e None =
     (IsTemporaryError rt r e None \<or> (\<exists>t \<in> set es. errors_Is rt e t)) \<and>
   reg_Len (RegisterTemporaryErrors es r) = reg_Len r + int (length es) \<and>
   \<not> IsTemporaryError rt (reg_Clean r) e None"
  by (simp add: reg.temporary_register reg.temporary_given reg.len_register reg.clean_empty)

text \<open>
  (C32) Registering and unregistering. Take a registry none of whose entries matches \<open>err\<close>.
  Unregistering \<open>err\<close> from it changes nothing. Register \<open>err\<close> and then any further errors, so that
  the new entry has entries before and after it: \<open>err\<close> is temporary, and the index-based removal of
  \<open>UnRegisterTemporaryErrors\<close> drops that one entry and keeps all the others in their order. What
  is temporary afterwards is exactly what the old registry or the further errors make temporary.
\<close>

theorem unregister_roundtrip:
  assumes "error_matching rt"
    and "\<forall>e \<in> set (ListTemporaryErrors r). \<not> errors_Is rt e err"
    and "r1 = RegisterTemporaryErrors later (RegisterTemporaryError err r)"
  shows "UnRegisterTemporaryError rt err r = r \<and>
    IsTemporaryError rt r1 err None \<and>
    ListTemporaryErrors (UnRegisterTemporaryError rt err r1) = ListTemporaryErrors r @ later \<and>
    reg_Len (UnRegisterTemporaryError rt err r1) = reg_Len r1 - 1 \<and>
    (\<forall>x. IsTemporaryError rt (UnRegisterTemporaryError rt err r1) x None \<longleftrightarrow>
       IsTemporaryError rt r x None \<or> (\<exists>t \<in> set later. errors_Is rt x t))"
proof -
  let ?u = "UnRegisterTemporaryError rt err"
  have refl: "errors_Is rt err err"
    using assms(1) by (rule error_matching.Is_refl)
  have u: "ListTemporaryErrors (?u g) = remove_first (\<lambda>e. errors_Is rt e err) (ListTemporaryErrors g)" for g
    by (simp add: UnRegisterTemporaryError_def unregister_eq ListTemporaryErrors_def)
  have "reg_storage (?u r) = reg_storage r"
    using u [of r] assms(2) remove_first_id [of "\<lambda>e. errors_Is rt e err"]
    by (simp add: ListTemporaryErrors_def list_all_iff)
  then have same: "?u r = r" by simp
  have r1: "ListTemporaryErrors r1 = ListTemporaryErrors r @ err # later"
    by (simp add: assms(3) RegisterTemporaryError_def RegisterTemporaryErrors_def ListTemporaryErrors_def)
  have "\<not> list_ex (\<lambda>e. errors_Is rt e err) (ListTemporaryErrors r)" using assms(2) by (simp add: list_ex_iff)
  then have u1: "ListTemporaryErrors (?u r1) = ListTemporaryErrors r @ later"
    using refl by (simp add: u r1 remove_first_append)
  have "IsTemporaryError rt (?u r1) x None \<longleftrightarrow>
      IsTemporaryError rt r x None \<or> (\<exists>t \<in> set later. errors_Is rt x t)" for x
    by (auto simp: reg.temporary_own u1)
  with same u1 r1 refl show ?thesis by (auto simp: reg.temporary_own reg.len_listed)
qed

theorem unregister_roundtrip_witness:
  "ListTemporaryErrors (UnRegisterTemporaryError chain_runtime ErrOperationFailed
     (RegisterTemporaryErrors [ErrMaxRetriesReached, ErrTimeoutReached]
       (RegisterTemporaryError ErrOperationFailed (LoadDefaults NewRegistry)))) =
   ListTemporaryErrors (LoadDefaults NewRegistry) @ [ErrMaxRetriesReached, ErrTimeoutReached]"
proof -
  have "\<forall>e \<in> set (ListTemporaryErrors (LoadDefaults NewRegistry)).
      \<not> errors_Is chain_runtime e ErrOperationFailed"
    by (simp add: registry_defs chain_runtime_def sentinel_defs)
  from unregister_roundtrip [OF chain.error_matching_axioms this refl] show ?thesis by blast
qed

text \<open>
  Unregistering a list of targets removes, for each target in turn, the first registered
  error that matches it and nothing else: the result is the reference removal folded over the
  targets, no error is added, every error that matches none of the targets is kept, and at most
  one entry goes per target.
\<close>

lemma unregister_spec:
  "ListTemporaryErrors (UnRegisterTemporaryErrors rt ts r) =
     fold (\<lambda>t. remove_first (\<lambda>e. errors_Is rt e t)) ts (ListTemporaryErrors r) \<and>
   set (ListTemporaryErrors (UnRegisterTemporaryErrors rt ts r)) \<subseteq> set (ListTemporaryErrors r) \<and>
   {x \<in> set (ListTemporaryErrors r). list_all (\<lambda>t. \<not> errors_Is rt x t) ts} \<subseteq>
     set (ListTemporaryErrors (UnRegisterTemporaryErrors rt ts r)) \<and>
   reg_Len r \<le> reg_Len (UnRegisterTemporaryErrors rt ts r) + int (length ts)"
  using fold_remove_first_set [of rt ts "reg_storage r"]
    fold_remove_first_length [of "reg_storage r" rt ts]
  by (auto simp: ListTemporaryErrors_def unregister_eq reg_Len_def intro: fold_remove_first_keeps)

end
