(* ===== verification/Retrier.thy ===== *)
theory Retrier
  imports Timer_Pool Error_Registry
begin

text \<open>
  \<open>retrier.go\<close> and \<open>options.go\<close>: the retrier, its options and its validation, the retry loops
  \<open>Do\<close>, \<open>DoWithContext\<close> and \<open>DoWithResult\<close>, cancellation and the pool of error traces.
  A call observes its surroundings through an environment: what each invocation of the retried
  function returns, and, for each \<open>select\<close>, the clock, the state of the contexts and the choice
  among the ready cases. Theories \<open>Retrier_Facts\<close> and \<open>Pool_Sharing\<close> prove its properties.
\<close>

section \<open>Error traces\<close>

record Errors =
  Attempts :: "goerr list"
  Last :: "goerr option"

definition Errors_Reset :: "Errors \<Rightarrow> Errors" where
  "Errors_Reset e = e\<lparr>Attempts := [], Last := None\<rparr>"

text \<open>\<open>errors.Join\<close> of no errors is nil.\<close>

definition Errors_Join :: "Errors \<Rightarrow> goerr option" where
  "Errors_Join e = (if Attempts e = [] then None else Some (Joined (Attempts e)))"

section \<open>The retrier\<close>

text \<open>
  A cancellable context is the cause it was cancelled with, if it was. A \<open>sync.Once\<close> is the
  flag that it has run. A logger is whether it is enabled at debug level.
\<close>

record goctx =
  cx_cause :: "goerr option"

record retrier =
  MaxRetries :: int
  Jitter :: duration
  BackoffFactor :: go_float
  Interval :: duration
  Timeout :: duration
  Registry :: "registry option"
  registryOnce :: bool
  cancelOnce :: bool
  stopOnce :: bool
  initOnce :: bool
  ctxOnce :: bool
  timer :: "timer_pool option"
  errorsPool :: "Errors list"
  errorsPoolNew :: bool
  rctx :: "goctx option"
  Logger :: "bool option"
  OnRetry :: bool

text \<open>The value of a composite literal that names no field.\<close>

definition zero_retrier :: retrier where
  "zero_retrier = \<lparr>MaxRetries = 0, Jitter = 0, BackoffFactor = Fin 0, Interval = 0, Timeout = 0,
     Registry = None, registryOnce = False, cancelOnce = False, stopOnce = False, initOnce = False,
     ctxOnce = False, timer = None, errorsPool = [], errorsPoolNew = False, rctx = None,
     Logger = None, OnRetry = False\<rparr>"

definition defaultMaxRetries :: int where "defaultMaxRetries = 5"
definition defaultJitter :: duration where "defaultJitter = 1000000000"
definition defaultBackoffFactor :: go_float where "defaultBackoffFactor = Fin 2"
definition defaultInterval :: duration where "defaultInterval = 500000000"
definition defaultTimeout :: duration where "defaultTimeout = 20000000000"

type_synonym retrier_option = "retrier \<Rightarrow> retrier"

definition WithMaxRetries :: "int \<Rightarrow> retrier_option" where
  "WithMaxRetries num r = r\<lparr>MaxRetries := num\<rparr>"

definition WithJitter :: "duration \<Rightarrow> retrier_option" where
  "WithJitter jitter r = r\<lparr>Jitter := jitter\<rparr>"

definition WithBackoffFactor :: "go_float \<Rightarrow> retrier_option" where
  "WithBackoffFactor factor r = r\<lparr>BackoffFactor := factor\<rparr>"

definition WithInterval :: "duration \<Rightarrow> retrier_option" where
  "WithInterval interval r = r\<lparr>Interval := interval\<rparr>"

definition WithTimeout :: "duration \<Rightarrow> retrier_option" where
  "WithTimeout timeout r = r\<lparr>Timeout := timeout\<rparr>"

definition WithLogger :: "bool option \<Rightarrow> retrier_option" where
  "WithLogger logger r = r\<lparr>Logger := logger\<rparr>"

definition WithHooks :: "bool \<Rightarrow> retrier_option" where
  "WithHooks h r = r\<lparr>OnRetry := h\<rparr>"

definition applyOptions :: "retrier_option list \<Rightarrow> retrier \<Rightarrow> retrier" where
  "applyOptions opts r = fold (\<lambda>opt r. opt r) opts r"

section \<open>Validation and construction\<close>

definition Validate :: "retrier \<Rightarrow> goerr option" where
  "Validate r =
     (if MaxRetries r < 0 then
        Some (Wrapf ErrInvalidRetrier
          ''invalid max retries: %d, the value should be greater than or equal to zero''
          [FInt (MaxRetries r)])
      else if Interval r \<le> 0 then
        Some (Wrapf ErrInvalidRetrier ''invalid interval: %s, the value should be greater than zero''
          [FDur (Interval r)])
      else if Jitter r \<le> 0 then
        Some (Wrapf ErrInvalidRetrier ''invalid jitter: %s, the value should be greater than zero''
          [FDur (Jitter r)])
      else if Timeout r \<le> 0 then
        Some (Wrapf ErrInvalidRetrier ''invalid timeout: %s, the value should be greater than zero''
          [FDur (Timeout r)])
      else if Timeout r \<le> Interval r then
        Some (Wrapf ErrInvalidRetrier ''the interval %s should be less than timeout %s''
          [FDur (Interval r), FDur (Timeout r)])
      else if Timeout r \<le> wrap64 (Interval r * MaxRetries r) then
        Some (Wrapf ErrInvalidRetrier
          ''the interval %s multiplied by max retries %d should be less than timeout %s''
          [FDur (Interval r), FInt (MaxRetries r), FDur (Timeout r)])
      else if float_le (BackoffFactor r) (Fin 1) then
        Some (Wrapf ErrInvalidRetrier ''invalid backoff factor: %f, the value should be greater than 1''
          [FFloat (BackoffFactor r)])
      else None)"

text \<open>
  \<open>NewRetrier\<close>: the retrier is returned with the validation error, if there is one. The last
  parameter is the cause of the parent context, if it is already done.
\<close>

definition NewRetrier ::
  "runtime \<Rightarrow> instant \<Rightarrow> goerr option \<Rightarrow> retrier_option list \<Rightarrow> (retrier \<times> goerr option) res" where
  "NewRetrier rt now parent opts =
     (let r0 = zero_retrier\<lparr>MaxRetries := defaultMaxRetries, Jitter := defaultJitter,
                 BackoffFactor := defaultBackoffFactor, Interval := defaultInterval,
                 Timeout := defaultTimeout, Registry := Some NewRegistry,
                 Logger := Some (slog_Default rt)\<rparr>;
          r1 = applyOptions opts r0;
          r2 = r1\<lparr>errorsPool := [], errorsPoolNew := True\<rparr>
      in case Validate r2 of
           Some err \<Rightarrow> Ret (r2, Some err)
         | None \<Rightarrow> res_bind (NewTimerPool now (wrap64 (MaxRetries r2 + 1)) (Timeout r2))
             (\<lambda>pool. Ret (r2\<lparr>timer := Some pool, rctx := Some \<lparr>cx_cause = parent\<rparr>\<rparr>, None)))"

definition SetRegistry :: "registry option \<Rightarrow> retrier \<Rightarrow> goerr option \<times> retrier" where
  "SetRegistry reg r =
     (case reg of
        None \<Rightarrow> (Some (Sentinel ''again.SetRegistry'' ''registry cannot be nil''), r)
      | Some g \<Rightarrow> (None, if registryOnce r then r else r\<lparr>Registry := Some g, registryOnce := True\<rparr>))"

section \<open>Cancellation\<close>

definition ensureContext :: "retrier \<Rightarrow> retrier" where
  "ensureContext r =
     (if ctxOnce r then r
      else let r1 = r\<lparr>ctxOnce := True\<rparr> in
           case rctx r1 of None \<Rightarrow> r1\<lparr>rctx := Some \<lparr>cx_cause = None\<rparr>\<rparr> | Some c \<Rightarrow> r1)"

text \<open>A cancel function records its cause unless the context is already done.\<close>

definition cancel_cause :: "goerr \<Rightarrow> goctx \<Rightarrow> goctx" where
  "cancel_cause e c = (case cx_cause c of None \<Rightarrow> c\<lparr>cx_cause := Some e\<rparr> | Some x \<Rightarrow> c)"

definition Cancel :: "retrier \<Rightarrow> retrier res" where
  "Cancel r =
     (let r1 = ensureContext r in
      if cancelOnce r1 then Ret r1
      else case rctx r1 of
             None \<Rightarrow> nil_deref
           | Some c \<Rightarrow> Ret (r1\<lparr>rctx := Some (cancel_cause ErrOperationStopped c), cancelOnce := True\<rparr>))"

definition Stop :: "retrier \<Rightarrow> retrier res" where
  "Stop r =
     (let r1 = ensureContext r in
      if stopOnce r1 then Ret r1
      else case rctx r1 of
             None \<Rightarrow> nil_deref
           | Some c \<Rightarrow> Ret (r1\<lparr>rctx := Some (cancel_cause ErrOperationStopped c), stopOnce := True\<rparr>))"

definition ensureInitialized :: "runtime \<Rightarrow> instant \<Rightarrow> retrier \<Rightarrow> retrier res" where
  "ensureInitialized rt now r =
     (if initOnce r then Ret r
      else
        let r1 = r\<lparr>initOnce := True\<rparr>;
            r2 = (case Registry r1 of None \<Rightarrow> r1\<lparr>Registry := Some NewRegistry\<rparr> | Some g \<Rightarrow> r1);
            r3 = (case Logger r2 of None \<Rightarrow> r2\<lparr>Logger := Some (slog_Default rt)\<rparr> | Some l \<Rightarrow> r2);
            r4 = r3\<lparr>errorsPoolNew := True\<rparr>
        in res_bind
             (case timer r4 of
                None \<Rightarrow> map_res (\<lambda>pool. r4\<lparr>timer := Some pool\<rparr>)
                          (NewTimerPool now (wrap64 (MaxRetries r4 + 1)) (Timeout r4))
              | Some p \<Rightarrow> Ret r4)
             (\<lambda>r5. Ret (ensureContext r5)))"

section \<open>The pool of error traces\<close>

text \<open>
  \<open>sync.Pool.Get\<close> hands out one of the pooled objects (\<open>choice\<close>), or a fresh one from \<open>New\<close>,
  or nil when \<open>New\<close> is not set. In the last case the call allocates a slice with capacity
  \<open>MaxRetries+1\<close>.
\<close>

definition getErrors :: "nat option \<Rightarrow> retrier \<Rightarrow> (Errors \<times> retrier) res" where
  "getErrors choice r =
     (case choice of
        Some i \<Rightarrow>
          if i < length (errorsPool r)
          then Ret (Errors_Reset (errorsPool r ! i),
                    r\<lparr>errorsPool := take i (errorsPool r) @ drop (Suc i) (errorsPool r)\<rparr>)
          else if errorsPoolNew r then Ret (Errors_Reset \<lparr>Attempts = [], Last = None\<rparr>, r)
          else if wrap64 (MaxRetries r + 1) < 0 then Panic ''makeslice: cap out of range''
          else Ret (\<lparr>Attempts = [], Last = None\<rparr>, r)
      | None \<Rightarrow>
          if errorsPoolNew r then Ret (Errors_Reset \<lparr>Attempts = [], Last = None\<rparr>, r)
          else if wrap64 (MaxRetries r + 1) < 0 then Panic ''makeslice: cap out of range''
          else Ret (\<lparr>Attempts = [], Last = None\<rparr>, r))"

definition PutErrors :: "Errors \<Rightarrow> retrier \<Rightarrow> retrier" where
  "PutErrors errs r = r\<lparr>errorsPool := Errors_Reset errs # errorsPool r\<rparr>"

section \<open>One wait between attempts\<close>

text \<open>
  \<open>Len\<close> and \<open>ListTemporaryErrors\<close> dereference the registry; \<open>IsTemporaryError\<close> called with errors
  searches those and never looks at its receiver, which may then be nil.
\<close>

definition shouldRetry :: "runtime \<Rightarrow> retrier \<Rightarrow> goerr \<Rightarrow> goerr list \<Rightarrow> bool res" where
  "shouldRetry rt r err temporaryErrors =
     (if temporaryErrors = [] then
        (case Registry r of
           None \<Rightarrow> nil_deref
         | Some g \<Rightarrow> if reg_Len g = 0 then Ret True else Ret (IsTemporaryError rt g err None))
      else Ret (matches_any rt err temporaryErrors))"

text \<open>
  What one call of \<open>waitRetry\<close> observes: the clock when it starts, the random jitter, and at the
  moment its \<open>select\<close> proceeds the clock, the errors of the caller's context and of the retrier's
  context, and the choice among the ready cases.
\<close>

record wait_obs =
  w_enter :: instant
  w_jitter :: duration
  w_now :: instant
  w_ctx :: "goerr option"
  w_rctx :: "goerr option"
  w_pick :: nat

datatype wake = CtxDone | RetrierDone | TimeoutFired | TimerFired

text \<open>A cancellation that happened meanwhile becomes part of the retrier's state.\<close>

definition absorb_cancel :: "goerr option \<Rightarrow> retrier \<Rightarrow> retrier" where
  "absorb_cancel c r =
     (case c of
        None \<Rightarrow> r
      | Some e \<Rightarrow> r\<lparr>rctx := map_option (cancel_cause e) (rctx r)\<rparr>)"

definition wait_cases :: "wait_obs \<Rightarrow> goctx \<Rightarrow> gotimer \<Rightarrow> gotimer \<Rightarrow> wake list" where
  "wait_cases w c timeoutTimer t =
     (if w_ctx w \<noteq> None then [CtxDone] else []) @
     (if cx_cause c \<noteq> None then [RetrierDone] else []) @
     (if timer_ready (w_now w) timeoutTimer then [TimeoutFired] else []) @
     (if timer_ready (w_now w) t then [TimerFired] else [])"

definition retryInterval :: "runtime \<Rightarrow> retrier \<Rightarrow> wait_obs \<Rightarrow> nat \<Rightarrow> duration" where
  "retryInterval rt r w attempt =
     wrap64 (backoff rt (Interval r) (BackoffFactor r) attempt + w_jitter w)"

text \<open>
  The body of each case of the \<open>select\<close>: the error returned, and the two timers after the receive.
\<close>

definition wait_result ::
  "wait_obs \<Rightarrow> goctx \<Rightarrow> gotimer \<Rightarrow> gotimer \<Rightarrow> nat \<Rightarrow> goerr \<Rightarrow> wake \<Rightarrow>
     goerr option \<times> gotimer \<times> gotimer" where
  "wait_result w c timeoutTimer t attempt err wk =
     (case wk of
        CtxDone \<Rightarrow> (Some (Wrap (the (w_ctx w)) ''context done''), timeoutTimer, t)
      | RetrierDone \<Rightarrow> (Some (Wrap (the (cx_cause c)) ''retrier context done''), timeoutTimer, t)
      | TimeoutFired \<Rightarrow>
          (Some (Wrapf ErrTimeoutReached ''attempt %v: %v'' [FInt (int attempt), FErr err]),
           timer_recv timeoutTimer, t)
      | TimerFired \<Rightarrow> (None, timeoutTimer, timer_recv t))"

definition waitRetry ::
  "runtime \<Rightarrow> retrier \<Rightarrow> wait_obs \<Rightarrow> gotimer \<Rightarrow> nat \<Rightarrow> goerr \<Rightarrow>
     (goerr option \<times> retrier \<times> gotimer) res" where
  "waitRetry rt r w timeoutTimer attempt err =
     (if Jitter r \<le> 0 then Panic ''invalid argument to Int64N''
      else case timer r of None \<Rightarrow> nil_deref | Some p \<Rightarrow>
      res_bind (pool_Get (w_enter w) p) (\<lambda>(ot, p1).
      case ot of None \<Rightarrow> nil_deref | Some t0 \<Rightarrow>
      let t = timer_Reset (w_enter w) (retryInterval rt r w attempt) t0;
          r1 = absorb_cancel (w_rctx w) (r\<lparr>timer := Some p1\<rparr>)
      in case rctx r1 of None \<Rightarrow> nil_deref | Some c \<Rightarrow>
         case go_select (w_pick w) (wait_cases w c timeoutTimer t) of
           None \<Rightarrow> Block
         | Some wk \<Rightarrow>
             let (ret, tt, t1) = wait_result w c timeoutTimer t attempt err wk
             in res_bind (pool_Put (w_now w) t1 p1)
                  (\<lambda>p2. Ret (ret, r1\<lparr>timer := Some p2\<rparr>, tt))))"

section \<open>Do\<close>

text \<open>What a call does to the outside, in order.\<close>

datatype event =
    Called nat
  | OnRetryCalled nat goerr
  | Logged nat goerr
  | AttemptCanceled nat "goerr option"

definition retry_events :: "retrier \<Rightarrow> nat \<Rightarrow> goerr \<Rightarrow> event list" where
  "retry_events r attempt err =
     (if OnRetry r then [OnRetryCalled attempt err] else []) @
     (if Logger r = Some True then [Logged attempt err] else [])"

text \<open>
  After the loop the last error is recorded once more, wrapped. The loop body runs at least once
  for a validated retrier, so \<open>Last\<close> is set here.
\<close>

definition append_max_retries :: "Errors \<Rightarrow> Errors" where
  "append_max_retries errs =
     (case Last errs of
        None \<Rightarrow> errs
      | Some e \<Rightarrow> errs\<lparr>Attempts := Attempts errs @ [Wrapf e ''%v'' [FErr ErrMaxRetriesReached]]\<rparr>)"

lemma absorb_cancel_frame [simp]:
  "MaxRetries (absorb_cancel c r) = MaxRetries r" "Jitter (absorb_cancel c r) = Jitter r"
  "BackoffFactor (absorb_cancel c r) = BackoffFactor r" "Interval (absorb_cancel c r) = Interval r"
  "Timeout (absorb_cancel c r) = Timeout r" "Registry (absorb_cancel c r) = Registry r"
  "timer (absorb_cancel c r) = timer r" "Logger (absorb_cancel c r) = Logger r"
  "OnRetry (absorb_cancel c r) = OnRetry r" "initOnce (absorb_cancel c r) = initOnce r"
  "ctxOnce (absorb_cancel c r) = ctxOnce r" "errorsPoolNew (absorb_cancel c r) = errorsPoolNew r"
  by (auto simp: absorb_cancel_def split: option.splits)

lemma waitRetry_frame:
  assumes "waitRetry rt r w tt attempt err = Ret (ret, r', tt')"
  shows "MaxRetries r' = MaxRetries r \<and> Registry r' = Registry r \<and> Jitter r' = Jitter r \<and>
         Interval r' = Interval r \<and> BackoffFactor r' = BackoffFactor r \<and> Timeout r' = Timeout r \<and>
         Logger r' = Logger r \<and> OnRetry r' = OnRetry r"
  using assms
  by (auto simp: waitRetry_def Let_def res_bind_case
      split: if_split_asm option.split_asm prod.split_asm res.split_asm)

function do_loop ::
  "runtime \<Rightarrow> goerr list \<Rightarrow> (nat \<Rightarrow> goerr option) \<Rightarrow> (nat \<Rightarrow> wait_obs) \<Rightarrow>
     retrier \<Rightarrow> gotimer \<Rightarrow> Errors \<Rightarrow> event list \<Rightarrow> nat \<Rightarrow>
     (Errors \<times> retrier \<times> gotimer \<times> event list) res" where
  "do_loop rt temporaryErrors fn ws r tt errs tr attempt =
     (if int attempt \<le> MaxRetries r then
        case fn attempt of
          None \<Rightarrow> Ret (errs\<lparr>Last := None\<rparr>, r, tt, tr @ [Called attempt])
        | Some err \<Rightarrow>
            (let errs1 = errs\<lparr>Attempts := Attempts errs @ [err]\<rparr>;
                 tr1 = tr @ [Called attempt]
             in case shouldRetry rt r err temporaryErrors of
                  Panic m \<Rightarrow> Panic m
                | Block \<Rightarrow> Block
                | Ret False \<Rightarrow> Ret (errs1\<lparr>Last := Some err\<rparr>, r, tt, tr1)
                | Ret True \<Rightarrow>
                    if int attempt = MaxRetries r
                    then Ret (append_max_retries (errs1\<lparr>Last := Some err\<rparr>), r, tt, tr1)
                    else
                      let tr2 = tr1 @ retry_events r attempt err in
                      (case waitRetry rt r (ws attempt) tt attempt err of
                         Panic m \<Rightarrow> Panic m
                       | Block \<Rightarrow> Block
                       | Ret (Some waitErr, r1, tt1) \<Rightarrow>
                           Ret (errs1\<lparr>Last := Some waitErr\<rparr>, r1, tt1, tr2)
                       | Ret (None, r1, tt1) \<Rightarrow>
                           do_loop rt temporaryErrors fn ws r1 tt1 (errs1\<lparr>Last := Some err\<rparr>) tr2
                             (Suc attempt)))
      else Ret (append_max_retries errs, r, tt, tr))"
  by pat_completeness auto
termination
  by (relation "measure (\<lambda>(rt, te, fn, ws, r, tt, errs, tr, attempt).
        nat (MaxRetries r + 1 - int attempt))")
    (auto dest: waitRetry_frame)

declare do_loop.simps [simp del]

record do_env =
  d_start :: instant
  d_end :: instant
  d_pool :: "nat option"
  d_wait :: "nat \<Rightarrow> wait_obs"

text \<open>
  \<open>Do\<close>: \<open>fn\<close> is \<open>None\<close> for a nil function, otherwise the results of its successive
  invocations.
\<close>

definition Do ::
  "runtime \<Rightarrow> do_env \<Rightarrow> retrier \<Rightarrow> (nat \<Rightarrow> goerr option) option \<Rightarrow> goerr list \<Rightarrow>
     (Errors \<times> retrier \<times> event list) res" where
  "Do rt env r fn temporaryErrors =
     res_bind (getErrors (d_pool env) r) (\<lambda>(errs, r1).
     case Validate r1 of Some err \<Rightarrow> Ret (errs\<lparr>Last := Some err\<rparr>, r1, [])
     | None \<Rightarrow>
     (case fn of None \<Rightarrow> Ret (errs\<lparr>Last := Some ErrNilRetryableFunc\<rparr>, r1, [])
      | Some f \<Rightarrow>
      res_bind (ensureInitialized rt (d_start env) r1) (\<lambda>r2.
      case timer r2 of None \<Rightarrow> nil_deref | Some p \<Rightarrow>
      res_bind (pool_Get (d_start env) p) (\<lambda>(ot, p1).
      case ot of None \<Rightarrow> nil_deref | Some t \<Rightarrow>
      res_bind (do_loop rt temporaryErrors f (d_wait env) (r2\<lparr>timer := Some p1\<rparr>)
                  (timer_Reset (d_start env) (Timeout r2) t) errs [] 0)
        (\<lambda>(errs', r3, tt, tr).
      case timer r3 of None \<Rightarrow> nil_deref | Some p2 \<Rightarrow>
      res_bind (pool_Put (d_end env) tt p2) (\<lambda>p3.
      Ret (errs', r3\<lparr>timer := Some p3\<rparr>, tr)))))))"

text \<open>
  \<open>DoWithResult\<close>: the closure stores the result of each invocation, so the value returned is that
  of the last invocation, or the zero value when the function was never called.
\<close>

definition DoWithResult ::
  "runtime \<Rightarrow> do_env \<Rightarrow> retrier \<Rightarrow> 't \<Rightarrow> (nat \<Rightarrow> 't \<times> goerr option) \<Rightarrow> goerr list \<Rightarrow>
     ('t \<times> Errors \<times> retrier \<times> event list) res" where
  "DoWithResult rt env r zero fn temporaryErrors =
     map_res (\<lambda>(errs, r', tr).
         (fold (\<lambda>ev result. case ev of Called i \<Rightarrow> fst (fn i) | _ \<Rightarrow> result) tr zero, errs, r', tr))
       (Do rt env r (Some (\<lambda>i. snd (fn i))) temporaryErrors)"

section \<open>DoWithContext\<close>

text \<open>
  What one attempt of \<open>DoWithContext\<close> observes when its \<open>select\<close> proceeds: the clock, the
  result of the function if its goroutine has delivered it, and the two contexts.
\<close>

record attempt_obs =
  a_now :: instant
  a_result :: "goerr option option"
  a_ctx :: "goerr option"
  a_ctx_cause :: "goerr option"
  a_rctx :: "goerr option"
  a_pick :: nat

datatype attempt_case = ResultReady | ACtxDone | ARetrierDone | ATimeoutFired

definition attempt_cases :: "attempt_obs \<Rightarrow> goctx \<Rightarrow> gotimer \<Rightarrow> attempt_case list" where
  "attempt_cases a c timeoutTimer =
     (if a_result a \<noteq> None then [ResultReady] else []) @
     (if a_ctx a \<noteq> None then [ACtxDone] else []) @
     (if cx_cause c \<noteq> None then [ARetrierDone] else []) @
     (if timer_ready (a_now a) timeoutTimer then [ATimeoutFired] else [])"

text \<open>Returns the attempt's error, the terminal error, the retrier, the timer and the events.\<close>

definition runAttemptWithContext ::
  "retrier \<Rightarrow> attempt_obs \<Rightarrow> gotimer \<Rightarrow> nat \<Rightarrow>
     (goerr option \<times> goerr option \<times> retrier \<times> gotimer \<times> event list) res" where
  "runAttemptWithContext r a timeoutTimer attempt =
     (let r1 = absorb_cancel (a_rctx a) r in
      case rctx r1 of None \<Rightarrow> nil_deref | Some c \<Rightarrow>
      case go_select (a_pick a) (attempt_cases a c timeoutTimer) of
        None \<Rightarrow> Block
      | Some ResultReady \<Rightarrow>
          Ret (the (a_result a), None, r1, timeoutTimer,
               [Called attempt, AttemptCanceled attempt None])
      | Some ACtxDone \<Rightarrow>
          Ret (None, Some (Wrap (the (a_ctx a)) ''context done''), r1, timeoutTimer,
               [Called attempt, AttemptCanceled attempt (a_ctx_cause a)])
      | Some ARetrierDone \<Rightarrow>
          Ret (None, Some (Wrap (the (cx_cause c)) ''retrier context done''), r1, timeoutTimer,
               [Called attempt, AttemptCanceled attempt (Some ErrOperationStopped)])
      | Some ATimeoutFired \<Rightarrow>
          Ret (None, Some ErrTimeoutReached, r1, timer_recv timeoutTimer,
               [Called attempt, AttemptCanceled attempt (Some ErrTimeoutReached)]))"

datatype attemptOutcome = attemptContinue | attemptStop | attemptMaxRetries

definition handleAttemptError ::
  "runtime \<Rightarrow> retrier \<Rightarrow> wait_obs \<Rightarrow> gotimer \<Rightarrow> nat \<Rightarrow> goerr \<Rightarrow> Errors \<Rightarrow> goerr list \<Rightarrow>
     (attemptOutcome \<times> Errors \<times> retrier \<times> gotimer \<times> event list) res" where
  "handleAttemptError rt r w tt attempt err errs temporaryErrors =
     (let errs1 = errs\<lparr>Attempts := Attempts errs @ [err]\<rparr> in
      case shouldRetry rt r err temporaryErrors of
        Panic m \<Rightarrow> Panic m
      | Block \<Rightarrow> Block
      | Ret False \<Rightarrow> Ret (attemptStop, errs1\<lparr>Last := Some err\<rparr>, r, tt, [])
      | Ret True \<Rightarrow>
          if int attempt = MaxRetries r
          then Ret (attemptMaxRetries, errs1\<lparr>Last := Some err\<rparr>, r, tt, [])
          else
            (case waitRetry rt r w tt attempt err of
               Panic m \<Rightarrow> Panic m
             | Block \<Rightarrow> Block
             | Ret (Some waitErr, r1, tt1) \<Rightarrow>
                 Ret (attemptStop, errs1\<lparr>Last := Some waitErr\<rparr>, r1, tt1, retry_events r attempt err)
             | Ret (None, r1, tt1) \<Rightarrow>
                 Ret (attemptContinue, errs1\<lparr>Last := Some err\<rparr>, r1, tt1, retry_events r attempt err)))"

lemma runAttemptWithContext_frame:
  assumes "runAttemptWithContext r a tt attempt = Ret (ae, te, r', tt', evs)"
  shows "MaxRetries r' = MaxRetries r"
  using assms
  by (auto simp: runAttemptWithContext_def Let_def split: option.split_asm attempt_case.split_asm)

lemma handleAttemptError_frame:
  assumes "handleAttemptError rt r w tt attempt err errs te = Ret (oc, errs', r', tt', evs)"
  shows "MaxRetries r' = MaxRetries r"
  using assms
  by (auto simp: handleAttemptError_def Let_def dest: waitRetry_frame
      split: option.split_asm res.split_asm prod.split_asm if_split_asm bool.split_asm)

function dwc_loop ::
  "runtime \<Rightarrow> goerr list \<Rightarrow> (nat \<Rightarrow> attempt_obs) \<Rightarrow> (nat \<Rightarrow> wait_obs) \<Rightarrow>
     retrier \<Rightarrow> gotimer \<Rightarrow> Errors \<Rightarrow> event list \<Rightarrow> nat \<Rightarrow>
     (Errors \<times> retrier \<times> gotimer \<times> event list) res" where
  "dwc_loop rt temporaryErrors as ws r tt errs tr attempt =
     (if int attempt \<le> MaxRetries r then
        case runAttemptWithContext r (as attempt) tt attempt of
          Panic m \<Rightarrow> Panic m
        | Block \<Rightarrow> Block
        | Ret (attemptErr, Some terminalErr, r1, tt1, evs) \<Rightarrow>
            Ret (errs\<lparr>Last := Some (if errors_Is rt terminalErr ErrTimeoutReached
                                     then Wrapf ErrTimeoutReached ''attempt %v'' [FInt (int attempt)]
                                     else terminalErr)\<rparr>, r1, tt1, tr @ evs)
        | Ret (None, None, r1, tt1, evs) \<Rightarrow> Ret (errs\<lparr>Last := None\<rparr>, r1, tt1, tr @ evs)
        | Ret (Some attemptErr, None, r1, tt1, evs) \<Rightarrow>
            (case handleAttemptError rt r1 (ws attempt) tt1 attempt attemptErr errs temporaryErrors of
               Panic m \<Rightarrow> Panic m
             | Block \<Rightarrow> Block
             | Ret (attemptStop, errs1, r2, tt2, evs') \<Rightarrow> Ret (errs1, r2, tt2, tr @ evs @ evs')
             | Ret (attemptMaxRetries, errs1, r2, tt2, evs') \<Rightarrow>
                 Ret (append_max_retries errs1, r2, tt2, tr @ evs @ evs')
             | Ret (attemptContinue, errs1, r2, tt2, evs') \<Rightarrow>
                 dwc_loop rt temporaryErrors as ws r2 tt2 errs1 (tr @ evs @ evs') (Suc attempt))
      else Ret (append_max_retries errs, r, tt, tr))"
  by pat_completeness auto
termination
  by (relation "measure (\<lambda>(rt, te, as, ws, r, tt, errs, tr, attempt).
        nat (MaxRetries r + 1 - int attempt))")
    (auto dest!: runAttemptWithContext_frame handleAttemptError_frame)

declare dwc_loop.simps [simp del]

definition DoWithContext ::
  "runtime \<Rightarrow> do_env \<Rightarrow> retrier \<Rightarrow> (nat \<Rightarrow> attempt_obs) option \<Rightarrow> goerr list \<Rightarrow>
     (Errors \<times> retrier \<times> event list) res" where
  "DoWithContext rt env r fn temporaryErrors =
     res_bind (getErrors (d_pool env) r) (\<lambda>(errs, r1).
     case Validate r1 of Some err \<Rightarrow> Ret (errs\<lparr>Last := Some err\<rparr>, r1, [])
     | None \<Rightarrow>
     (case fn of None \<Rightarrow> Ret (errs\<lparr>Last := Some ErrNilRetryableFunc\<rparr>, r1, [])
      | Some as \<Rightarrow>
      res_bind (ensureInitialized rt (d_start env) r1) (\<lambda>r2.
      case timer r2 of None \<Rightarrow> nil_deref | Some p \<Rightarrow>
      res_bind (pool_Get (d_start env) p) (\<lambda>(ot, p1).
      case ot of None \<Rightarrow> nil_deref | Some t \<Rightarrow>
      res_bind (dwc_loop rt temporaryErrors as (d_wait env) (r2\<lparr>timer := Some p1\<rparr>)
                  (timer_Reset (d_start env) (Timeout r2) t) errs [] 0)
        (\<lambda>(errs', r3, tt, tr).
      case timer r3 of None \<Rightarrow> nil_deref | Some p2 \<Rightarrow>
      res_bind (pool_Put (d_end env) tt p2) (\<lambda>p3.
      Ret (errs', r3\<lparr>timer := Some p3\<rparr>, tr)))))))"

declare Errors_Reset_def [retrier_defs] Errors_Join_def [retrier_defs] Validate_def [retrier_defs]
  NewRetrier_def [retrier_defs] SetRegistry_def [retrier_defs] ensureContext_def [retrier_defs]
  cancel_cause_def [retrier_defs] Cancel_def [retrier_defs] Stop_def [retrier_defs]
  ensureInitialized_def [retrier_defs] getErrors_def [retrier_defs] PutErrors_def [retrier_defs]
  WithMaxRetries_def [retrier_defs] WithJitter_def [retrier_defs]
  WithBackoffFactor_def [retrier_defs] WithInterval_def [retrier_defs]
  WithTimeout_def [retrier_defs] WithLogger_def [retrier_defs] WithHooks_def [retrier_defs]
  applyOptions_def [retrier_defs] zero_retrier_def [retrier_defs]
  defaultMaxRetries_def [retrier_defs] defaultJitter_def [retrier_defs]
  defaultBackoffFactor_def [retrier_defs] defaultInterval_def [retrier_defs]
  defaultTimeout_def [retrier_defs]

end
