(* ===== verification/Retrier_Facts.thy ===== *)
theory Retrier_Facts
  imports Retrier
begin

text \<open>
  Properties of the retrier: what validation accepts, what a call to \<open>Do\<close> returns on every path,
  that it returns, how often it invokes the function and the hook, when it may report a timeout or
  start another attempt, that it gives its timers back, and that \<open>DoWithContext\<close> agrees with
  \<open>Do\<close> while no cancellation interferes.
\<close>

section \<open>One wait\<close>

text \<open>The retrier's context is already done.\<close>

definition cancelled :: "retrier \<Rightarrow> bool" where
  "cancelled r \<longleftrightarrow> (case rctx r of None \<Rightarrow> False | Some x \<Rightarrow> cx_cause x \<noteq> None)"

text \<open>Whether some case of the wait's \<open>select\<close> is ready at the observed moment.\<close>

definition wakes :: "runtime \<Rightarrow> retrier \<Rightarrow> gotimer \<Rightarrow> wait_obs \<Rightarrow> nat \<Rightarrow> bool" where
  "wakes rt r tt w attempt \<longleftrightarrow>
     w_ctx w \<noteq> None \<or> w_rctx w \<noteq> None \<or> cancelled r \<or> timer_ready (w_now w) tt \<or>
     deadline (w_enter w) (retryInterval rt r w attempt) \<le> w_now w"

text \<open>The causes the retrier's context can have been cancelled with by the \<open>n\<close>-th wait.\<close>

definition stop_causes :: "retrier \<Rightarrow> (nat \<Rightarrow> wait_obs) \<Rightarrow> nat \<Rightarrow> goerr set" where
  "stop_causes r ws n =
     {c. (\<exists>x. rctx r = Some x \<and> cx_cause x = Some c) \<or> (\<exists>i \<le> n. w_rctx (ws i) = Some c)}"

text \<open>Why a wait gave up: the caller's context, the retrier's context, or the timeout.\<close>

definition abort_reason ::
  "goerr set \<Rightarrow> gotimer \<Rightarrow> wait_obs \<Rightarrow> nat \<Rightarrow> goerr \<Rightarrow> goerr \<Rightarrow> bool" where
  "abort_reason causes tt w attempt err we \<longleftrightarrow>
     (\<exists>c. w_ctx w = Some c \<and> we = Wrap c ''context done'') \<or>
     (\<exists>c \<in> causes. we = Wrap c ''retrier context done'') \<or>
     (timer_ready (w_now w) tt \<and>
      we = Wrapf ErrTimeoutReached ''attempt %v: %v'' [FInt (int attempt), FErr err])"

lemma absorb_cancel_rctx:
  "rctx (absorb_cancel c r) =
     (case c of None \<Rightarrow> rctx r | Some e \<Rightarrow> map_option (cancel_cause e) (rctx r))"
  by (simp add: absorb_cancel_def split: option.splits)

lemma cancel_cause_set [simp]: "\<exists>x. cx_cause (cancel_cause e c) = Some x"
  by (cases "cx_cause c") (auto simp: cancel_cause_def)

lemma absorb_cancel_cause:
  "rctx (absorb_cancel (w_rctx w) r) = Some x \<Longrightarrow> cx_cause x = Some c \<Longrightarrow>
     (\<exists>y. rctx r = Some y \<and> cx_cause y = Some c) \<or> w_rctx w = Some c"
  by (auto simp: absorb_cancel_rctx cancel_cause_def split: option.splits)

lemma cancel_cause_keeps: "cx_cause c = Some e \<Longrightarrow> cancel_cause e' c = c"
  by (simp add: cancel_cause_def)

lemma cancelled_absorb: "cancelled r \<Longrightarrow> cancelled (absorb_cancel c r)"
  by (auto simp: cancelled_def absorb_cancel_rctx cancel_cause_keeps split: option.splits)

text \<open>Inversion of a completed wait.\<close>

lemma waitRetryE:
  assumes "waitRetry rt r w tt attempt err = Ret (ret, r', tt')"
  obtains p t0 p1 c wk t1 p2 where
    "timer r = Some p" "pool_Get (w_enter w) p = Ret (Some t0, p1)"
    "rctx (absorb_cancel (w_rctx w) r) = Some c"
    "go_select (w_pick w) (wait_cases w c tt
       (timer_Reset (w_enter w) (retryInterval rt r w attempt) t0)) = Some wk"
    "wait_result w c tt (timer_Reset (w_enter w) (retryInterval rt r w attempt) t0) attempt err wk =
       (ret, tt', t1)"
    "pool_Put (w_now w) t1 p1 = Ret p2"
    "r' = (absorb_cancel (w_rctx w) r)\<lparr>timer := Some p2\<rparr>"
proof -
  have upd: "absorb_cancel x (r\<lparr>timer := q\<rparr>) = (absorb_cancel x r)\<lparr>timer := q\<rparr>" for x q
    by (auto simp: absorb_cancel_def split: option.splits)
  from assms that show ?thesis
    by (auto simp: waitRetry_def Let_def res_bind_case upd
        split: if_split_asm option.split_asm prod.split_asm res.split_asm)
qed

lemma wait_continues:
  assumes "waitRetry rt r w tt attempt err = Ret (None, r', tt')"
  shows "tt' = tt \<and> deadline (w_enter w) (retryInterval rt r w attempt) \<le> w_now w"
  using assms
proof (cases rule: waitRetryE)
  case (1 p t0 p1 c wk t1 p2)
  then have "wk = TimerFired" and tt: "tt' = tt"
    by (auto simp: wait_result_def split: wake.splits)
  with 1(4) have "TimerFired \<in> set (wait_cases w c tt
       (timer_Reset (w_enter w) (retryInterval rt r w attempt) t0))"
    by (auto dest: go_select_in)
  with tt show ?thesis by (auto simp: wait_cases_def split: if_splits)
qed

lemma wait_aborts:
  assumes "waitRetry rt r w tt attempt err = Ret (Some we, r', tt')"
    and "w = ws k" and "k \<le> n"
  shows "abort_reason (stop_causes r ws n) tt w attempt err we"
  using assms(1)
proof (cases rule: waitRetryE)
  case (1 p t0 p1 c wk t1 p2)
  from 1(4) have mem: "wk \<in> set (wait_cases w c tt
       (timer_Reset (w_enter w) (retryInterval rt r w attempt) t0))"
    by (rule go_select_in)
  show ?thesis
  proof (cases wk)
    case RetrierDone
    with mem obtain e where e: "cx_cause c = Some e"
      by (auto simp: wait_cases_def split: if_splits)
    from absorb_cancel_cause [OF 1(3) e] assms(2,3) have "e \<in> stop_causes r ws n"
      by (auto simp: stop_causes_def)
    with RetrierDone e 1(5) show ?thesis
      by (auto simp: abort_reason_def wait_result_def)
  qed (use mem 1(5) in \<open>auto simp: wait_cases_def wait_result_def abort_reason_def split: if_splits\<close>)
qed

lemma wait_ok:
  assumes "timer r = Some p" and "pool_open p" and "0 < pool_idle p"
    and "rctx r \<noteq> None" and "0 < Jitter r" and "wakes rt r tt w attempt"
  shows "\<exists>ret r' tt' p'. waitRetry rt r w tt attempt err = Ret (ret, r', tt') \<and>
           timer r' = Some p' \<and> pool_open p' \<and> pool_idle p' = pool_idle p \<and>
           pool_room p' = pool_room p \<and> rctx r' \<noteq> None \<and> initOnce r' = initOnce r \<and>
           ctxOnce r' = ctxOnce r \<and> (cancelled r \<longrightarrow> cancelled r')"
proof -
  from pool.bracket [OF assms(2,3), of "w_enter w"] obtain t0 p1 where
    g: "pool_Get (w_enter w) p = Ret (Some t0, p1)" and
    put: "\<And>now' t'. \<exists>p'. pool_Put now' t' p1 = Ret p' \<and> pool_open p' \<and>
            pool_idle p' = pool_idle p \<and> pool_room p' = pool_room p"
    by blast
  define t where "t = timer_Reset (w_enter w) (retryInterval rt r w attempt) t0"
  obtain c where c: "rctx (absorb_cancel (w_rctx w) (r\<lparr>timer := Some p1\<rparr>)) = Some c"
    and cc: "w_rctx w \<noteq> None \<or> cancelled r \<Longrightarrow> cx_cause c \<noteq> None"
    using assms(4) by (cases "w_rctx w") (auto simp: absorb_cancel_rctx cancelled_def)
  have "wait_cases w c tt t \<noteq> []"
    using assms(6) cc by (auto simp: wakes_def wait_cases_def t_def)
  then obtain wk where wk: "go_select (w_pick w) (wait_cases w c tt t) = Some wk"
    by (cases "go_select (w_pick w) (wait_cases w c tt t)") auto
  obtain ret tt' t1 where wr: "wait_result w c tt t attempt err wk = (ret, tt', t1)"
    by (cases "wait_result w c tt t attempt err wk") auto
  from put [of "w_now w" t1] obtain p2 where
    p2: "pool_Put (w_now w) t1 p1 = Ret p2" "pool_open p2" "pool_idle p2 = pool_idle p"
      "pool_room p2 = pool_room p" by blast
  have "waitRetry rt r w tt attempt err =
     Ret (ret, (absorb_cancel (w_rctx w) (r\<lparr>timer := Some p1\<rparr>))\<lparr>timer := Some p2\<rparr>, tt')"
    using assms(1,5) g c wk wr p2(1) by (simp add: waitRetry_def t_def Let_def)
  moreover have "cancelled r \<longrightarrow>
      cancelled ((absorb_cancel (w_rctx w) (r\<lparr>timer := Some p1\<rparr>))\<lparr>timer := Some p2\<rparr>)"
    using c cc by (auto simp: cancelled_def)
  ultimately show ?thesis using p2 c by auto
qed

section \<open>The retry loop\<close>

definition retryable :: "runtime \<Rightarrow> retrier \<Rightarrow> goerr list \<Rightarrow> goerr \<Rightarrow> bool" where
  "retryable rt r temps e \<longleftrightarrow> shouldRetry rt r e temps = Ret True"

text \<open>
  What the loop leaves behind when its last attempt is number \<open>n\<close>, started at attempt \<open>k\<close> with
  the errors \<open>pre\<close> already recorded: success, a terminal error, exhaustion, or an aborted wait.
\<close>

definition loop_end ::
  "runtime \<Rightarrow> goerr list \<Rightarrow> (nat \<Rightarrow> goerr option) \<Rightarrow> (nat \<Rightarrow> wait_obs) \<Rightarrow> retrier \<Rightarrow> gotimer \<Rightarrow>
     goerr list \<Rightarrow> Errors \<Rightarrow> nat \<Rightarrow> bool" where
  "loop_end rt temps fn ws r tt before errs n \<longleftrightarrow>
     (case fn n of
        None \<Rightarrow> Last errs = None \<and> Attempts errs = before
      | Some e \<Rightarrow>
          if \<not> retryable rt r temps e then Last errs = Some e \<and> Attempts errs = before @ [e]
          else if int n = MaxRetries r then
            Last errs = Some e \<and>
            Attempts errs = before @ [e, Wrapf e ''%v'' [FErr ErrMaxRetriesReached]]
          else Attempts errs = before @ [e] \<and>
            (\<exists>we. Last errs = Some we \<and> abort_reason (stop_causes r ws n) tt (ws n) n e we))"

text \<open>Attempt \<open>i\<close> failed with a retryable error and the wait after it ran its full interval.\<close>

definition retried :: "runtime \<Rightarrow> goerr list \<Rightarrow> (nat \<Rightarrow> goerr option) \<Rightarrow> (nat \<Rightarrow> wait_obs) \<Rightarrow>
    retrier \<Rightarrow> nat \<Rightarrow> bool" where
  "retried rt temps fn ws r i \<longleftrightarrow>
     (\<exists>e. fn i = Some e \<and> retryable rt r temps e) \<and>
     deadline (w_enter (ws i)) (retryInterval rt r (ws i) i) \<le> w_now (ws i)"

definition loop_events ::
  "runtime \<Rightarrow> goerr list \<Rightarrow> (nat \<Rightarrow> goerr option) \<Rightarrow> retrier \<Rightarrow> nat \<Rightarrow> event list" where
  "loop_events rt temps fn r i =
     Called i #
     (case fn i of
        None \<Rightarrow> []
      | Some e \<Rightarrow> if retryable rt r temps e \<and> int i < MaxRetries r then retry_events r i e else [])"

definition same_config :: "retrier \<Rightarrow> retrier \<Rightarrow> bool" where
  "same_config r r' \<longleftrightarrow> MaxRetries r' = MaxRetries r \<and> Registry r' = Registry r \<and>
     Jitter r' = Jitter r \<and> Interval r' = Interval r \<and> BackoffFactor r' = BackoffFactor r \<and>
     Timeout r' = Timeout r \<and> Logger r' = Logger r \<and> OnRetry r' = OnRetry r"

lemma same_config_cong:
  assumes "same_config r r'"
  shows "retryable rt r' temps e = retryable rt r temps e"
    "retryInterval rt r' w i = retryInterval rt r w i"
    "retry_events r' i e = retry_events r i e"
    "loop_events rt temps fn r' = loop_events rt temps fn r"
    "retried rt temps fn ws r' i = retried rt temps fn ws r i"
  using assms
  by (auto simp: same_config_def retryable_def shouldRetry_def retryInterval_def retry_events_def
      loop_events_def retried_def fun_eq_iff split: option.splits)

lemma waitRetry_same_config:
  "waitRetry rt r w tt attempt err = Ret (ret, r', tt') \<Longrightarrow> same_config r r'"
  by (drule waitRetry_frame) (simp add: same_config_def)

lemma waitRetry_causes:
  assumes "waitRetry rt r (ws k) tt k err = Ret (ret, r', tt')" and "k \<le> n"
  shows "stop_causes r' ws n \<subseteq> stop_causes r ws n"
  using assms(1)
proof (cases rule: waitRetryE)
  case (1 p t0 p1 c wk t1 p2)
  with absorb_cancel_cause [OF 1(3)] assms(2) show ?thesis
    by (fastforce simp: stop_causes_def)
qed

lemma abort_reason_mono:
  "abort_reason A tt w i e we \<Longrightarrow> A \<subseteq> B \<Longrightarrow> abort_reason B tt w i e we"
  by (auto simp: abort_reason_def)

lemma loop_end_mono:
  assumes "loop_end rt temps fn ws r' tt before errs n"
    and "same_config r r'" and "stop_causes r' ws n \<subseteq> stop_causes r ws n"
  shows "loop_end rt temps fn ws r tt before errs n"
  using assms(1) same_config_cong(1) [OF assms(2)] assms(2) abort_reason_mono [OF _ assms(3)]
  by (auto simp: loop_end_def same_config_def split: option.splits if_splits)

text \<open>The complete description of what the loop returns.\<close>

lemma do_loop_result:
  assumes "do_loop rt temps fn ws r tt errs tr k = Ret (errs', r', tt', tr')"
    and "int k \<le> MaxRetries r"
  shows "\<exists>n. k \<le> n \<and> int n \<le> MaxRetries r \<and>
           (\<forall>i. k \<le> i \<and> i < n \<longrightarrow> retried rt temps fn ws r i) \<and>
           loop_end rt temps fn ws r tt (Attempts errs @ map (the \<circ> fn) [k..<n]) errs' n \<and>
           tr' = tr @ concat (map (loop_events rt temps fn r) [k..<Suc n])"
  using assms
proof (induction "nat (MaxRetries r + 1 - int k)" arbitrary: r tt errs tr k rule: less_induct)
  case less
  note unf = less.prems(1) [unfolded do_loop.simps [of rt temps fn ws r tt errs tr k]]
  show ?case
  proof (cases "fn k")
    case None
    with unf less.prems(2) show ?thesis
      by (intro exI [of _ k]) (auto simp: loop_end_def loop_events_def)
  next
    case (Some e)
    show ?thesis
    proof (cases "shouldRetry rt r e temps")
      case (Ret b)
      show ?thesis
      proof (cases "b \<and> int k < MaxRetries r")
        case False
        with Some Ret unf less.prems(2) show ?thesis
          by (intro exI [of _ k])
            (auto simp: loop_end_def loop_events_def retryable_def Let_def append_max_retries_def
              split: bool.split_asm)
      next
        case True
        with Some Ret unf less.prems(2) obtain ret r1 tt1 where
          w: "waitRetry rt r (ws k) tt k e = Ret (ret, r1, tt1)"
          by (auto simp: Let_def split: res.split_asm if_split_asm)
        note cfg = waitRetry_same_config [OF w]
        show ?thesis
        proof (cases ret)
          case None
          let ?errs = "errs\<lparr>Attempts := Attempts errs @ [e], Last := Some e\<rparr>"
          let ?tr = "tr @ Called k # retry_events r k e"
          from None True Some Ret unf less.prems(2) w have rec:
            "do_loop rt temps fn ws r1 tt1 ?errs ?tr (Suc k) = Ret (errs', r', tt', tr')"
            by (simp add: Let_def)
          from wait_continues w None have tt1: "tt1 = tt"
            and dl: "deadline (w_enter (ws k)) (retryInterval rt r (ws k) k) \<le> w_now (ws k)"
            by blast+
          have mr: "MaxRetries r1 = MaxRetries r" using cfg by (simp add: same_config_def)
          from less.hyps [OF _ rec] True mr obtain n where n: "Suc k \<le> n" "int n \<le> MaxRetries r"
            "\<forall>i. Suc k \<le> i \<and> i < n \<longrightarrow> retried rt temps fn ws r i"
            "loop_end rt temps fn ws r1 tt (Attempts ?errs @ map (the \<circ> fn) [Suc k..<n]) errs' n"
            "tr' = ?tr @ concat (map (loop_events rt temps fn r) [Suc k..<Suc n])"
            using same_config_cong [OF cfg] tt1 by auto
          from waitRetry_causes [of rt r ws k tt e ret r1 tt1 n] w n(1)
          have "stop_causes r1 ws n \<subseteq> stop_causes r ws n" by simp
          from loop_end_mono [OF n(4) cfg this]
          have "loop_end rt temps fn ws r tt (Attempts errs @ map (the \<circ> fn) [k..<n]) errs' n"
            using n(1) Some by (simp add: upt_rec [of k n])
          moreover have "retried rt temps fn ws r k"
            using Some Ret True dl by (auto simp: retried_def retryable_def)
          then have "\<forall>i. k \<le> i \<and> i < n \<longrightarrow> retried rt temps fn ws r i"
            using n(3) by (metis Suc_leI le_neq_implies_less)
          moreover have "loop_events rt temps fn r k = Called k # retry_events r k e"
            using Some Ret True by (auto simp: loop_events_def retryable_def)
          then have "tr' = tr @ concat (map (loop_events rt temps fn r) [k..<Suc n])"
            using n(1,5) by (simp add: upt_rec [of k "Suc n"] del: upt_Suc)
          ultimately show ?thesis using n(1,2) by (intro exI [of _ n]) auto
        next
          case (Some we)
          from wait_aborts [of rt r "ws k" tt k e we r1 tt1 ws k k] w Some
          have "abort_reason (stop_causes r ws k) tt (ws k) k e we" by simp
          with Some True \<open>fn k = Some e\<close> Ret unf less.prems(2) w show ?thesis
            by (intro exI [of _ k])
              (auto simp: loop_end_def loop_events_def retryable_def Let_def)
        qed
      qed
    qed (use Some unf less.prems(2) in \<open>auto simp: Let_def\<close>)
  qed
qed

text \<open>The loop returns, and the pool is as full afterwards as it was before.\<close>

lemma do_loop_ok:
  assumes "timer r = Some p" and "pool_open p" and "int k < MaxRetries r \<longrightarrow> 0 < pool_idle p"
    and "rctx r \<noteq> None" and "Registry r \<noteq> None" and "0 < Jitter r"
    and "\<And>i. int i < MaxRetries r \<Longrightarrow> wakes rt r tt (ws i) i"
  shows "\<exists>errs' r' tt' tr' p'. do_loop rt temps fn ws r tt errs tr k = Ret (errs', r', tt', tr') \<and>
           timer r' = Some p' \<and> pool_open p' \<and> pool_idle p' = pool_idle p \<and>
           pool_room p' = pool_room p \<and> rctx r' \<noteq> None \<and> same_config r r' \<and>
           initOnce r' = initOnce r \<and> ctxOnce r' = ctxOnce r"
  using assms
proof (induction "nat (MaxRetries r + 1 - int k)" arbitrary: r p errs tr k rule: less_induct)
  case less
  have refl: "same_config r r" by (simp add: same_config_def)
  from less.prems(5) have sr: "\<exists>b. shouldRetry rt r e temps = Ret b" for e
    by (auto simp: shouldRetry_def)
  show ?case
  proof (cases "int k < MaxRetries r \<and> (\<exists>e. fn k = Some e \<and> shouldRetry rt r e temps = Ret True)")
    case False
    have "\<exists>errs' tr'. do_loop rt temps fn ws r tt errs tr k = Ret (errs', r, tt, tr')"
    proof (cases "fn k")
      case (Some e)
      from sr [of e] obtain b where "shouldRetry rt r e temps = Ret b" by blast
      with False Some show ?thesis
        by (cases b) (auto simp: do_loop.simps [of rt temps fn ws r tt errs tr k] Let_def)
    qed (auto simp: do_loop.simps [of rt temps fn ws r tt errs tr k])
    with less.prems refl show ?thesis by blast
  next
    case True
    then obtain e where e: "fn k = Some e" "shouldRetry rt r e temps = Ret True" by blast
    have "0 < pool_idle p" using True less.prems(3) by blast
    from wait_ok [OF less.prems(1,2) this less.prems(4,6) less.prems(7), of k e] True
    obtain ret r1 tt1 p1 where w: "waitRetry rt r (ws k) tt k e = Ret (ret, r1, tt1)"
      and p1: "timer r1 = Some p1" "pool_open p1" "pool_idle p1 = pool_idle p"
        "pool_room p1 = pool_room p" "rctx r1 \<noteq> None" "initOnce r1 = initOnce r"
        "ctxOnce r1 = ctxOnce r" "cancelled r \<longrightarrow> cancelled r1" by blast
    note cfg = waitRetry_same_config [OF w]
    show ?thesis
    proof (cases ret)
      case (Some we)
      with e True w p1 cfg show ?thesis
        by (simp add: do_loop.simps [of rt temps fn ws r tt errs tr k] Let_def)
    next
      case None
      with w wait_continues have tt1: "tt1 = tt" by blast
      have cfgs: "MaxRetries r1 = MaxRetries r" "Registry r1 = Registry r" "Jitter r1 = Jitter r"
        using cfg by (auto simp: same_config_def)
      have wk: "wakes rt r1 tt (ws i) i" if "int i < MaxRetries r" for i
        using less.prems(7) [OF that] same_config_cong(2) [OF cfg] p1(8) by (auto simp: wakes_def)
      let ?errs = "errs\<lparr>Attempts := Attempts errs @ [e], Last := Some e\<rparr>"
      let ?tr = "tr @ Called k # retry_events r k e"
      have "\<exists>errs' r' tt' tr' p'. do_loop rt temps fn ws r1 tt ?errs ?tr (Suc k) = Ret (errs', r', tt', tr') \<and>
           timer r' = Some p' \<and> pool_open p' \<and> pool_idle p' = pool_idle p1 \<and>
           pool_room p' = pool_room p1 \<and> rctx r' \<noteq> None \<and> same_config r1 r' \<and>
           initOnce r' = initOnce r1 \<and> ctxOnce r' = ctxOnce r1"
        by (rule less.hyps) (use True less.prems p1 wk cfgs in auto)
      with e True w p1 cfg None tt1 show ?thesis
        by (auto simp: do_loop.simps [of rt temps fn ws r tt errs tr k] Let_def same_config_def)
    qed
  qed
qed

section \<open>Calls to Do\<close>

text \<open>The retrier with the registry and the logger the first call fills in.\<close>

definition filled :: "runtime \<Rightarrow> retrier \<Rightarrow> retrier" where
  "filled rt r =
     (if initOnce r then r
      else r\<lparr>Registry := Some (case Registry r of None \<Rightarrow> NewRegistry | Some g \<Rightarrow> g),
             Logger := Some (case Logger r of None \<Rightarrow> slog_Default rt | Some l \<Rightarrow> l)\<rparr>)"

text \<open>
  A retrier that a call can use: it validates, its pool (when it has one already) is open and has
  an idle timer for the timeout and one more for the waits, and what earlier calls initialised is
  there. \<open>NewRetrier\<close> and a composite literal with valid fields both give such a retrier.
\<close>

definition usable :: "retrier \<Rightarrow> bool" where
  "usable r \<longleftrightarrow>
     Validate r = None \<and> MaxRetries r < maxInt64 \<and>
     (case timer r of
        None \<Rightarrow> \<not> initOnce r
      | Some p \<Rightarrow> pool_open p \<and> 0 < pool_idle p \<and> (0 < MaxRetries r \<longrightarrow> 1 < pool_idle p)) \<and>
     (initOnce r \<longrightarrow> Registry r \<noteq> None \<and> rctx r \<noteq> None) \<and>
     (ctxOnce r \<longrightarrow> rctx r \<noteq> None)"

text \<open>How many timers the retrier's pool holds once it is initialised.\<close>

definition idle_timers :: "retrier \<Rightarrow> nat" where
  "idle_timers r = (case timer r of None \<Rightarrow> nat (MaxRetries r + 1) | Some p \<Rightarrow> pool_idle p)"

lemma getErrors_fresh:
  "getErrors c r = Ret (errs, r1) \<Longrightarrow>
     errs = \<lparr>Attempts = [], Last = None\<rparr> \<and> (\<exists>ps. r1 = r\<lparr>errorsPool := ps\<rparr>)"
proof -
  assume "getErrors c r = Ret (errs, r1)"
  moreover have "\<exists>ps. r = r\<lparr>errorsPool := ps\<rparr>" by (rule exI [of _ "errorsPool r"]) simp
  ultimately show ?thesis
    by (auto simp: getErrors_def Errors_Reset_def split: option.split_asm if_split_asm)
qed

lemma Validate_SomeD:
  "Validate r = None \<Longrightarrow> 0 \<le> MaxRetries r \<and> 0 < Jitter r \<and> 0 < Interval r \<and> 0 < Timeout r"
  by (auto simp: Validate_def split: if_split_asm)

lemma Validate_cong [simp]:
  "Validate (r\<lparr>errorsPool := ps\<rparr>) = Validate r" "Validate (r\<lparr>timer := t\<rparr>) = Validate r"
  "Validate (r\<lparr>rctx := c\<rparr>) = Validate r" "Validate (r\<lparr>ctxOnce := b\<rparr>) = Validate r"
  "Validate (r\<lparr>cancelOnce := b\<rparr>) = Validate r" "Validate (r\<lparr>stopOnce := b\<rparr>) = Validate r"
  by (simp_all add: Validate_def)

lemma Validate_same_config: "same_config r r' \<Longrightarrow> Validate r' = Validate r"
  by (simp add: Validate_def same_config_def)

lemma wrap64_succ: "0 \<le> x \<Longrightarrow> x < maxInt64 \<Longrightarrow> wrap64 (x + 1) = x + 1"
  by (rule wrap64_id) (simp add: is_int64_def)

text \<open>Initialisation fills in what is missing and keeps everything else.\<close>

lemma ensureInitialized_eq:
  assumes "\<not> initOnce r"
  shows "ensureInitialized rt now r =
     map_res (\<lambda>pool. ensureContext ((filled rt r)\<lparr>initOnce := True, errorsPoolNew := True,
                       timer := Some pool\<rparr>))
       (case timer r of
          None \<Rightarrow> NewTimerPool now (wrap64 (MaxRetries r + 1)) (Timeout r)
        | Some p \<Rightarrow> Ret p)"
  using assms
  by (cases r; cases "NewTimerPool now (wrap64 (MaxRetries r + 1)) (Timeout r)")
    (auto simp: ensureInitialized_def filled_def Let_def split: option.split)

lemma ensureContext_frame:
  "same_config r (ensureContext r) \<and> timer (ensureContext r) = timer r \<and>
   cancelled (ensureContext r) = cancelled r \<and>
   initOnce (ensureContext r) = initOnce r \<and> stop_causes (ensureContext r) ws n = stop_causes r ws n"
  by (auto simp: ensureContext_def same_config_def stop_causes_def cancelled_def Let_def
      split: option.splits)

lemma ensureInitialized_frame:
  assumes "ensureInitialized rt now r = Ret r0"
  shows "same_config (filled rt r) r0 \<and> stop_causes r0 ws n = stop_causes r ws n \<and>
         cancelled r0 = cancelled r"
proof (cases "initOnce r")
  case True
  with assms show ?thesis
    by (auto simp: ensureInitialized_def filled_def same_config_def)
next
  case False
  with assms obtain pool where r0: "r0 = ensureContext ((filled rt r)\<lparr>initOnce := True,
      errorsPoolNew := True, timer := Some pool\<rparr>)" (is "_ = ensureContext ?r")
    by (auto simp: ensureInitialized_eq map_res_eq_Ret split: option.splits)
  have "same_config (filled rt r) ?r" "stop_causes ?r ws n = stop_causes r ws n"
    "cancelled ?r = cancelled r"
    using False by (simp_all add: same_config_def stop_causes_def filled_def cancelled_def)
  with ensureContext_frame [of ?r ws n] show ?thesis
    unfolding r0 same_config_def by auto
qed

lemma ensureInitialized_ok:
  assumes "usable r"
  shows "\<exists>r0 p. ensureInitialized rt now r = Ret r0 \<and> timer r0 = Some p \<and> pool_open p \<and>
           0 < pool_idle p \<and> (0 < MaxRetries r0 \<longrightarrow> 1 < pool_idle p) \<and>
           pool_idle p = idle_timers r \<and> Registry r0 \<noteq> None \<and> rctx r0 \<noteq> None \<and>
           initOnce r0 \<and> MaxRetries r0 = MaxRetries r \<and> Jitter r0 = Jitter r"
proof (cases "initOnce r")
  case True
  with assms show ?thesis
    by (auto simp: usable_def ensureInitialized_def idle_timers_def split: option.splits)
next
  case False
  have mr: "0 \<le> MaxRetries r" "MaxRetries r < maxInt64"
    using assms Validate_SomeD by (auto simp: usable_def)
  have reg: "Registry (filled rt r) \<noteq> None" "MaxRetries (filled rt r) = MaxRetries r"
    "Jitter (filled rt r) = Jitter r" "ctxOnce (filled rt r) = ctxOnce r" "rctx (filled rt r) = rctx r"
    using False by (simp_all add: filled_def)
  show ?thesis
  proof (cases "timer r")
    case (Some p)
    with False assms reg show ?thesis
      by (auto simp: usable_def ensureInitialized_eq ensureContext_def Let_def idle_timers_def
          split: option.splits)
  next
    case None
    have w: "wrap64 (MaxRetries r + 1) = MaxRetries r + 1" using mr by (rule wrap64_succ)
    from NewTimerPool_Ret [of "MaxRetries r + 1" now "Timeout r"] mr obtain p where
      p: "NewTimerPool now (MaxRetries r + 1) (Timeout r) = Ret p" "pool_wf p"
        "pool_Len p = MaxRetries r + 1" "\<not> tp_closed p" by auto
    from p(3) mr have "pool_idle p = nat (MaxRetries r + 1)"
      by (simp add: pool_Len_def pool_idle_def)
    with False None assms p mr w reg show ?thesis
      by (auto simp: usable_def ensureInitialized_eq ensureContext_def Let_def idle_timers_def
          pool_open_def split: option.splits)
  qed
qed

text \<open>Some case of the \<open>i\<close>-th wait of a call is ready when its \<open>select\<close> is observed.\<close>

definition awake :: "runtime \<Rightarrow> do_env \<Rightarrow> retrier \<Rightarrow> nat \<Rightarrow> bool" where
  "awake rt env r i \<longleftrightarrow>
     w_ctx (d_wait env i) \<noteq> None \<or> w_rctx (d_wait env i) \<noteq> None \<or> cancelled r \<or>
     deadline (d_start env) (Timeout r) \<le> w_now (d_wait env i) \<or>
     deadline (w_enter (d_wait env i)) (retryInterval rt r (d_wait env i) i) \<le> w_now (d_wait env i)"

definition calls :: "event list \<Rightarrow> nat list" where
  "calls tr = concat (map (\<lambda>ev. case ev of Called i \<Rightarrow> [i] | _ \<Rightarrow> []) tr)"

lemma calls_Nil [simp]: "calls [] = []"
  by (simp add: calls_def)

lemma calls_append [simp]: "calls (xs @ ys) = calls xs @ calls ys"
  by (simp add: calls_def)

definition hook_calls :: "event list \<Rightarrow> (nat \<times> goerr) list" where
  "hook_calls tr = concat (map (\<lambda>ev. case ev of OnRetryCalled i e \<Rightarrow> [(i, e)] | _ \<Rightarrow> []) tr)"

lemma filled_frame:
  "MaxRetries (filled rt r) = MaxRetries r" "Timeout (filled rt r) = Timeout r"
  "OnRetry (filled rt r) = OnRetry r" "Jitter (filled rt r) = Jitter r"
  "rctx (filled rt r) = rctx r"
  "retryInterval rt (filled rt r) w i = retryInterval rt r w i"
  "stop_causes (filled rt r) ws n = stop_causes r ws n"
  by (auto simp: filled_def retryInterval_def stop_causes_def)

lemma filled_errorsPool [simp]:
  "same_config (filled rt (r\<lparr>errorsPool := ps\<rparr>)) r0 = same_config (filled rt r) r0"
  "stop_causes (r\<lparr>errorsPool := ps\<rparr>) ws n = stop_causes r ws n"
  by (auto simp: filled_def same_config_def stop_causes_def)

text \<open>Inversion of a call that got past validation and returned.\<close>

lemma DoE:
  assumes "Do rt env r (Some fn) temps = Ret (errs, r', tr)" and "Validate r = None"
  obtains r0 t p1 r3 tt tt' p2 p3 where
    "same_config (filled rt r) r0" "\<And>ws n. stop_causes r0 ws n = stop_causes r ws n"
    "tt = timer_Reset (d_start env) (Timeout r) t"
    "do_loop rt temps fn (d_wait env) (r0\<lparr>timer := Some p1\<rparr>) tt \<lparr>Attempts = [], Last = None\<rparr> [] 0 =
       Ret (errs, r3, tt', tr)"
    "pool_Put (d_end env) tt' p2 = Ret p3" "r' = r3\<lparr>timer := Some p3\<rparr>"
proof -
  from assms(1) obtain e0 r1 where g: "getErrors (d_pool env) r = Ret (e0, r1)"
    by (auto simp: Do_def res_bind_eq_Ret)
  from getErrors_fresh [OF g] obtain ps where
    e0: "e0 = \<lparr>Attempts = [], Last = None\<rparr>" and r1: "r1 = r\<lparr>errorsPool := ps\<rparr>" by auto
  from assms g e0 r1 obtain r0 p t p1 r3 tt' p2 p3 where
    i: "ensureInitialized rt (d_start env) r1 = Ret r0" and
    l: "do_loop rt temps fn (d_wait env) (r0\<lparr>timer := Some p1\<rparr>)
        (timer_Reset (d_start env) (Timeout r0) t) \<lparr>Attempts = [], Last = None\<rparr> [] 0 =
        Ret (errs, r3, tt', tr)" and
    p: "pool_Put (d_end env) tt' p2 = Ret p3" "r' = r3\<lparr>timer := Some p3\<rparr>"
    by (auto simp: Do_def res_bind_case split: option.split_asm res.split_asm prod.split_asm)
  from ensureInitialized_frame [OF i] r1 have
    c: "same_config (filled rt r) r0" "\<And>ws n. stop_causes r0 ws n = stop_causes r ws n" by auto
  from c(1) have "Timeout r0 = Timeout r" by (simp add: same_config_def filled_frame)
  with that [OF c refl _ p] l show ?thesis by simp
qed

text \<open>What a call returns, on every path.\<close>

lemma Do_result:
  assumes "Do rt env r (Some fn) temps = Ret (errs, r', tr)" and "Validate r = None"
  shows "\<exists>n tt. int n \<le> MaxRetries r \<and>
           tm_when tt = Some (deadline (d_start env) (Timeout r)) \<and>
           (\<forall>i<n. retried rt temps fn (d_wait env) (filled rt r) i) \<and>
           loop_end rt temps fn (d_wait env) (filled rt r) tt (map (the \<circ> fn) [0..<n]) errs n \<and>
           tr = concat (map (loop_events rt temps fn (filled rt r)) [0..<Suc n])"
  using assms
proof (cases rule: DoE)
  case (1 r0 t p1 r3 tt tt' p2 p3)
  let ?r = "r0\<lparr>timer := Some p1\<rparr>"
  have cfg: "same_config (filled rt r) ?r"
    using 1(1) by (simp add: same_config_def)
  have sc: "stop_causes ?r ws n \<subseteq> stop_causes (filled rt r) ws n" for ws n
    using 1(2) [of ws n] filled_frame(7) [of rt r ws n] by (auto simp: stop_causes_def)
  have mr: "MaxRetries ?r = MaxRetries r" using cfg by (simp add: same_config_def filled_frame)
  have "int 0 \<le> MaxRetries ?r" using Validate_SomeD [OF assms(2)] mr by simp
  from do_loop_result [OF 1(4) this] obtain n where
    n: "int n \<le> MaxRetries ?r" "\<forall>i. 0 \<le> i \<and> i < n \<longrightarrow> retried rt temps fn (d_wait env) ?r i"
      "loop_end rt temps fn (d_wait env) ?r tt (map (the \<circ> fn) [0..<n]) errs n"
      "tr = concat (map (loop_events rt temps fn ?r) [0..<Suc n])"
    by (auto simp del: upt_Suc)
  from loop_end_mono [OF n(3) cfg sc] n(1,2,4) mr same_config_cong(4,5) [OF cfg] 1(3)
  show ?thesis
    by (intro exI [of _ n] exI [of _ tt]) (auto simp: timer_Reset_def simp del: upt_Suc)
qed

text \<open>
  \<open>Do\<close> and \<open>DoWithContext\<close> share everything but their loop: the trace, the validation, the
  initialisation, and the timeout timer that is taken before the loop and put back after it.
\<close>

definition bracketed ::
  "runtime \<Rightarrow> do_env \<Rightarrow> retrier \<Rightarrow>
     (retrier \<Rightarrow> gotimer \<Rightarrow> Errors \<Rightarrow> (Errors \<times> retrier \<times> gotimer \<times> event list) res) \<Rightarrow>
     (Errors \<times> retrier \<times> event list) res" where
  "bracketed rt env r loop =
     res_bind (getErrors (d_pool env) r) (\<lambda>(errs, r1).
     case Validate r1 of Some err \<Rightarrow> Ret (errs\<lparr>Last := Some err\<rparr>, r1, [])
     | None \<Rightarrow>
      res_bind (ensureInitialized rt (d_start env) r1) (\<lambda>r2.
      case timer r2 of None \<Rightarrow> nil_deref | Some p \<Rightarrow>
      res_bind (pool_Get (d_start env) p) (\<lambda>(ot, p1).
      case ot of None \<Rightarrow> nil_deref | Some t \<Rightarrow>
      res_bind (loop (r2\<lparr>timer := Some p1\<rparr>) (timer_Reset (d_start env) (Timeout r2) t) errs)
        (\<lambda>(errs', r3, tt, tr).
      case timer r3 of None \<Rightarrow> nil_deref | Some p2 \<Rightarrow>
      res_bind (pool_Put (d_end env) tt p2) (\<lambda>p3.
      Ret (errs', r3\<lparr>timer := Some p3\<rparr>, tr))))))"

lemma Do_bracketed:
  "Do rt env r (Some fn) temps =
     bracketed rt env r (\<lambda>r2 tt errs. do_loop rt temps fn (d_wait env) r2 tt errs [] 0)"
  by (simp only: Do_def bracketed_def option.case)

lemma DoWithContext_bracketed:
  "DoWithContext rt env r (Some as) temps =
     bracketed rt env r (\<lambda>r2 tt errs. dwc_loop rt temps as (d_wait env) r2 tt errs [] 0)"
  by (simp only: DoWithContext_def bracketed_def option.case)

text \<open>The state in which the loop of a call on a usable retrier starts.\<close>

definition loop_start ::
  "runtime \<Rightarrow> do_env \<Rightarrow> retrier \<Rightarrow> retrier \<Rightarrow> gotimer \<Rightarrow> timer_pool \<Rightarrow> bool" where
  "loop_start rt env r r2 tt p \<longleftrightarrow>
     timer r2 = Some p \<and> pool_open p \<and> (0 < MaxRetries r2 \<longrightarrow> 0 < pool_idle p) \<and>
     rctx r2 \<noteq> None \<and> Registry r2 \<noteq> None \<and> 0 < Jitter r2 \<and>
     same_config (filled rt r) r2 \<and> cancelled r2 = cancelled r \<and> initOnce r2 \<and>
     tm_when tt = Some (deadline (d_start env) (Timeout r))"

text \<open>What a loop guarantees about the retrier it was given.\<close>

definition keeps_retrier :: "retrier \<Rightarrow> timer_pool \<Rightarrow> retrier \<Rightarrow> bool" where
  "keeps_retrier r p r' \<longleftrightarrow>
     (\<exists>p'. timer r' = Some p' \<and> pool_open p' \<and> pool_idle p' = pool_idle p \<and>
           pool_room p' = pool_room p) \<and>
     rctx r' \<noteq> None \<and> same_config r r' \<and> initOnce r' = initOnce r"

lemma bracketed_starts:
  assumes "usable r"
  shows "\<exists>r2 tt p. loop_start rt env r r2 tt p \<and> Suc (pool_idle p) = idle_timers r \<and> 0 < pool_room p \<and>
    (\<forall>loop. bracketed rt env r loop =
       res_bind (loop r2 tt \<lparr>Attempts = [], Last = None\<rparr>) (\<lambda>(errs', r3, tt, tr).
         case timer r3 of None \<Rightarrow> nil_deref | Some p2 \<Rightarrow>
         res_bind (pool_Put (d_end env) tt p2) (\<lambda>p3. Ret (errs', r3\<lparr>timer := Some p3\<rparr>, tr))))"
proof -
  have v: "Validate r = None" and mr: "0 \<le> MaxRetries r" "MaxRetries r < maxInt64"
    using assms(1) Validate_SomeD by (auto simp: usable_def)
  have "wrap64 (MaxRetries r + 1) \<ge> 0" using wrap64_succ [OF mr] mr by simp
  then have "\<exists>e0 r1. getErrors (d_pool env) r = Ret (e0, r1)"
    by (auto simp: getErrors_def split: option.split)
  then obtain e0 r1 where g: "getErrors (d_pool env) r = Ret (e0, r1)" by blast
  from getErrors_fresh [OF g] obtain ps where r1: "r1 = r\<lparr>errorsPool := ps\<rparr>"
    and e0: "e0 = \<lparr>Attempts = [], Last = None\<rparr>" by auto
  have "usable r1" "idle_timers r1 = idle_timers r"
    using assms(1) r1 by (auto simp: usable_def idle_timers_def split: option.splits)
  with ensureInitialized_ok [of r1 rt "d_start env"] obtain r0 p where
    i: "ensureInitialized rt (d_start env) r1 = Ret r0" and
    r0: "timer r0 = Some p" "pool_open p" "0 < pool_idle p" "0 < MaxRetries r0 \<longrightarrow> 1 < pool_idle p"
      "pool_idle p = idle_timers r" "Registry r0 \<noteq> None" "rctx r0 \<noteq> None" "initOnce r0"
      "MaxRetries r0 = MaxRetries r" "Jitter r0 = Jitter r"
    using r1 by auto
  from pool.bracket [OF r0(2,3), of "d_start env"] obtain t p1 where
    t: "pool_Get (d_start env) p = Ret (Some t, p1)" "pool_open p1" "pool_idle p = Suc (pool_idle p1)"
    by blast
  have room: "0 < pool_room p1" using pool.get_idle [OF r0(2) t(1)] by simp
  from ensureInitialized_frame [OF i] r1 have cfg: "same_config (filled rt r) r0"
    and can: "cancelled r0 = cancelled r" by (auto simp: cancelled_def)
  let ?r = "r0\<lparr>timer := Some p1\<rparr>" and ?tt = "timer_Reset (d_start env) (Timeout r0) t"
  have "loop_start rt env r ?r ?tt p1"
    using r0 t cfg can Validate_SomeD [OF v]
    by (auto simp: loop_start_def same_config_def cancelled_def timer_Reset_def filled_frame)
  moreover have "bracketed rt env r loop =
       res_bind (loop ?r ?tt \<lparr>Attempts = [], Last = None\<rparr>) (\<lambda>(errs', r3, tt, tr).
         case timer r3 of None \<Rightarrow> nil_deref | Some p2 \<Rightarrow>
         res_bind (pool_Put (d_end env) tt p2) (\<lambda>p3. Ret (errs', r3\<lparr>timer := Some p3\<rparr>, tr)))" for loop
    using g e0 r1 v i r0(1) t(1) by (simp add: bracketed_def)
  moreover have "Suc (pool_idle p1) = idle_timers r" using r0(5) t(3) by simp
  ultimately show ?thesis using room by (intro exI conjI allI)
qed

text \<open>If its loop returns, a call on a usable retrier returns and leaves the retrier usable.\<close>

lemma bracketed_returns:
  assumes "usable r"
    and "\<And>r2 tt p errs. loop_start rt env r r2 tt p \<Longrightarrow>
          \<exists>errs' r3 tt' tr. loop r2 tt errs = Ret (errs', r3, tt', tr) \<and> keeps_retrier r2 p r3"
  shows "\<exists>errs r' tr. bracketed rt env r loop = Ret (errs, r', tr) \<and> usable r' \<and>
           idle_timers r' = idle_timers r"
proof -
  from bracketed_starts [OF assms(1), of rt env] obtain r2 tt p where
    s: "loop_start rt env r r2 tt p" "Suc (pool_idle p) = idle_timers r" "0 < pool_room p" and
    b: "bracketed rt env r loop =
       res_bind (loop r2 tt \<lparr>Attempts = [], Last = None\<rparr>) (\<lambda>(errs', r3, tt, tr).
         case timer r3 of None \<Rightarrow> nil_deref | Some p2 \<Rightarrow>
         res_bind (pool_Put (d_end env) tt p2) (\<lambda>p3. Ret (errs', r3\<lparr>timer := Some p3\<rparr>, tr)))"
    by blast
  from assms(2) [OF s(1)] obtain errs r3 tt' tr p2 where
    l: "loop r2 tt \<lparr>Attempts = [], Last = None\<rparr> = Ret (errs, r3, tt', tr)" and
    r3: "timer r3 = Some p2" "pool_open p2" "pool_idle p2 = pool_idle p" "pool_room p2 = pool_room p"
      "rctx r3 \<noteq> None" "same_config r2 r3" "initOnce r3 = initOnce r2"
    unfolding keeps_retrier_def by blast
  from pool.put_idle [OF r3(2), of "d_end env" tt'] s(3) r3(4) obtain p3 where
    p3: "pool_Put (d_end env) tt' p2 = Ret p3" "pool_open p3" "pool_idle p3 = Suc (pool_idle p2)"
    by auto
  have "bracketed rt env r loop = Ret (errs, r3\<lparr>timer := Some p3\<rparr>, tr)"
    using b l r3(1) p3(1) by simp
  moreover have c3: "same_config (filled rt r) r3"
    using s(1) r3(6) by (simp add: same_config_def loop_start_def)
  then have "Validate r3 = None" "MaxRetries r3 = MaxRetries r"
    using assms(1) by (auto simp: usable_def Validate_def same_config_def filled_def split: if_splits)
  with p3 r3 s assms(1) have "usable (r3\<lparr>timer := Some p3\<rparr>)"
    by (auto simp: usable_def loop_start_def same_config_def)
  moreover have "idle_timers (r3\<lparr>timer := Some p3\<rparr>) = idle_timers r"
    using p3 r3(3) s(2) by (simp add: idle_timers_def)
  ultimately show ?thesis by blast
qed

lemma loop_start_wakes:
  assumes "loop_start rt env r r2 tt p" and "awake rt env r i"
  shows "wakes rt r2 tt (d_wait env i) i"
proof -
  have "retryInterval rt r2 (d_wait env i) i = retryInterval rt r (d_wait env i) i"
    using assms(1) same_config_cong(2) [of "filled rt r" r2] by (simp add: loop_start_def filled_frame)
  with assms show ?thesis by (simp add: wakes_def awake_def loop_start_def timer_ready_def)
qed

lemma Do_returns:
  assumes "usable r" and "\<And>i. int i < MaxRetries r \<Longrightarrow> awake rt env r i"
  shows "\<exists>errs r' tr. Do rt env r (Some fn) temps = Ret (errs, r', tr) \<and> usable r' \<and>
           idle_timers r' = idle_timers r"
  unfolding Do_bracketed
proof (rule bracketed_returns [OF assms(1)])
  fix r2 tt p errs
  assume s: "loop_start rt env r r2 tt p"
  then have "MaxRetries r2 = MaxRetries r" by (simp add: loop_start_def same_config_def filled_frame)
  with assms(2) loop_start_wakes [OF s] have
    wk: "wakes rt r2 tt (d_wait env i) i" if "int i < MaxRetries r2" for i using that by simp
  from s show "\<exists>errs' r3 tt' tr. do_loop rt temps fn (d_wait env) r2 tt errs [] 0 =
      Ret (errs', r3, tt', tr) \<and> keeps_retrier r2 p r3"
    using do_loop_ok [of r2 p 0 rt tt "d_wait env" temps fn errs "[]", OF _ _ _ _ _ _ wk]
    unfolding keeps_retrier_def loop_start_def by simp blast
qed

end
