(* ===== verification/Retrier_Properties.thy ===== *)
theory Retrier_Properties
  imports Retrier_Facts
begin

text \<open>
  The properties of the retrier, each with a witness on a concrete retrier where it has
  hypotheses.
\<close>

section \<open>A concrete retrier for the witnesses\<close>

definition demo_retrier :: retrier where
  "demo_retrier = zero_retrier\<lparr>MaxRetries := 2, Jitter := 10, BackoffFactor := Fin 2,
     Interval := 100, Timeout := 1000\<rparr>"

definition demo_env :: do_env where
  "demo_env = \<lparr>d_start = 0, d_end = 950, d_pool = None,
     d_wait = (\<lambda>i. \<lparr>w_enter = 300 * int i, w_jitter = 5, w_now = 300 * int i + 250,
                     w_ctx = None, w_rctx = None, w_pick = 0\<rparr>)\<rparr>"

definition failing :: "nat \<Rightarrow> goerr option" where
  "failing = (\<lambda>_. Some ErrOperationFailed)"

lemma demo_Validate: "Validate demo_retrier = None"
  by (simp add: demo_retrier_def zero_retrier_def Validate_def wrap64_def)

lemma demo_usable: "usable demo_retrier"
  using demo_Validate by (simp add: usable_def demo_retrier_def zero_retrier_def)

lemma demo_awake: "int i < MaxRetries demo_retrier \<Longrightarrow> awake chain_runtime demo_env demo_retrier i"
proof -
  assume "int i < MaxRetries demo_retrier"
  then have "i = 0 \<or> i = 1" by (auto simp: demo_retrier_def)
  then show ?thesis
    by (auto simp: awake_def demo_env_def demo_retrier_def zero_retrier_def retryInterval_def
        chain_runtime_def deadline_def wrap64_def)
qed

lemma demo_returns:
  "\<exists>errs r' tr. Do chain_runtime demo_env demo_retrier (Some fn) temps = Ret (errs, r', tr)"
  using Do_returns [OF demo_usable demo_awake] by blast

section \<open>Validation and construction\<close>

text \<open>
  (C17) Validation. As long as the product of the interval and the number of retries fits in 64
  bits, a retrier validates exactly when its retry count is not negative, its interval, jitter
  and timeout are positive, one interval and all intervals together are shorter than the timeout,
  and the backoff factor does not compare as at most one; and every rejection wraps
  \<open>ErrInvalidRetrier\<close>.
\<close>

theorem validate_spec:
  assumes "is_int64 (Interval r * MaxRetries r)"
  shows "(Validate r = None \<longleftrightarrow>
            0 \<le> MaxRetries r \<and> 0 < Interval r \<and> 0 < Jitter r \<and> Interval r < Timeout r \<and>
            Interval r * MaxRetries r < Timeout r \<and> \<not> float_le (BackoffFactor r) (Fin 1)) \<and>
         (\<forall>e. Validate r = Some e \<longrightarrow> (\<exists>f as. e = Wrapf ErrInvalidRetrier f as))"
  using wrap64_id [OF assms] by (auto simp: Validate_def)

theorem validate_spec_witness:
  "Validate demo_retrier = None \<and> 0 \<le> MaxRetries demo_retrier \<and>
   Interval demo_retrier * MaxRetries demo_retrier < Timeout demo_retrier"
proof -
  have "is_int64 (Interval demo_retrier * MaxRetries demo_retrier)"
    by (simp add: demo_retrier_def zero_retrier_def is_int64_def)
  from validate_spec [OF this] demo_Validate show ?thesis by auto
qed

text \<open>
  (C24) The overflow of that product. Take a configuration whose fields are valid each on its own
  but whose retries, at one interval each, do not fit in the timeout, so that it should be rejected.
  Because \<open>Validate\<close> multiplies in 64 bits, it accepts the configuration exactly when the true
  product lies in a window around a positive multiple of \<open>2^64\<close>: from half a turn below it, where
  the wrapped product is negative, up to the timeout above it, where it is small. In particular every product
  between \<open>2^63\<close> and \<open>2^64\<close> is accepted.
\<close>

theorem validate_overflow:
  assumes "0 \<le> MaxRetries r" and "0 < Interval r" and "0 < Jitter r" and "Interval r < Timeout r"
    and "Timeout r \<le> maxInt64" and "\<not> float_le (BackoffFactor r) (Fin 1)"
    and "Timeout r \<le> Interval r * MaxRetries r"
  shows "(Validate r = None \<longleftrightarrow>
      (\<exists>q\<ge>1. q * 2 ^ 64 - 2 ^ 63 \<le> Interval r * MaxRetries r \<and>
              Interval r * MaxRetries r < q * 2 ^ 64 + Timeout r)) \<and>
    (2 ^ 63 \<le> Interval r * MaxRetries r \<and> Interval r * MaxRetries r < 2 ^ 64 \<longrightarrow> Validate r = None)"
proof -
  define x where "x = Interval r * MaxRetries r"
  have acc: "Validate r = None \<longleftrightarrow> wrap64 x < Timeout r"
    using assms(1-6) by (auto simp: Validate_def x_def)
  have win: "wrap64 x < Timeout r \<longleftrightarrow>
      (\<exists>q\<ge>1. q * 2 ^ 64 - 2 ^ 63 \<le> x \<and> x < q * 2 ^ 64 + Timeout r)"
    by (rule wrap64_window) (use assms(2,4,5,7) in \<open>simp_all add: x_def\<close>)
  have "Validate r = None" if "2 ^ 63 \<le> x" "x < 2 ^ 64"
    unfolding acc win using that assms(2,4) by (intro exI [of _ 1]) simp
  with acc win show ?thesis by (simp add: x_def)
qed

theorem validate_overflow_witness:
  "Validate (demo_retrier\<lparr>Interval := 10, MaxRetries := 2 ^ 60\<rparr>) = None \<and>
   Timeout demo_retrier < 10 * 2 ^ 60"
  using validate_overflow [of "demo_retrier\<lparr>Interval := 10, MaxRetries := 2 ^ 60\<rparr>"]
  by (simp add: demo_retrier_def zero_retrier_def)

text \<open>
  The size of the pool wraps around too: with the largest retry count and any even interval below
  the default timeout, both settable through the options, the configuration validates and the
  constructor panics while it makes the timer pool.
\<close>

lemma max_retries_panics:
  assumes "0 < i" and "2 * i < defaultTimeout"
  shows "NewRetrier rt now parent [WithInterval (2 * i), WithMaxRetries maxInt64] =
    Panic ''makechan: size out of range''"
proof -
  have "wrap64 (2 * i * maxInt64) = - (2 * i)"
    using assms wrap64_shift [of "- (2 * i)" i] by (simp add: defaultTimeout_def is_int64_def)
  with assms show ?thesis
    by (simp add: zero_retrier_def NewRetrier_def applyOptions_def WithInterval_def
        WithMaxRetries_def Validate_def NewTimerPool_def defaultMaxRetries_def wrap64_def
        defaultJitter_def defaultBackoffFactor_def defaultInterval_def defaultTimeout_def Let_def)
qed

text \<open>
  A backoff factor that is not a number validates, because every comparison with it is false,
  although the message of that check says that the factor should be greater than one.
\<close>

lemma validate_accepts_nan:
  "Validate (demo_retrier\<lparr>BackoffFactor := NaN\<rparr>) = None \<and> \<not> float_le (Fin 1) NaN"
  by (simp add: demo_retrier_def zero_retrier_def Validate_def wrap64_def)

text \<open>Options that only set configuration fields.\<close>

definition config_option :: "retrier_option \<Rightarrow> bool" where
  "config_option opt \<longleftrightarrow> (\<forall>r. initOnce (opt r) = initOnce r \<and> ctxOnce (opt r) = ctxOnce r)"

lemma config_options [simp]:
  "config_option (WithMaxRetries n)" "config_option (WithJitter d)" "config_option (WithInterval d)"
  "config_option (WithTimeout d)" "config_option (WithBackoffFactor f)" "config_option (WithLogger l)"
  "config_option (WithHooks h)"
  by (auto simp: config_option_def retrier_defs)

lemma applyOptions_config:
  "list_all config_option opts \<Longrightarrow>
     initOnce (applyOptions opts r) = initOnce r \<and> ctxOnce (applyOptions opts r) = ctxOnce r"
  unfolding applyOptions_def by (induction opts arbitrary: r) (auto simp: config_option_def)

text \<open>
  (C25) Construction. For any of the package's options, \<open>NewRetrier\<close> either returns the validation
  error together with the configured retrier, or returns no error and a retrier that is ready for
  use: its pool holds one idle timer per attempt and its context is a child of the caller's.
\<close>

theorem new_retrier:
  assumes "list_all config_option opts"
    and "NewRetrier rt now parent opts = Ret (r, err)" and "MaxRetries r < maxInt64"
  shows "err = Validate r \<and>
         (err = None \<longrightarrow> usable r \<and> int (idle_timers r) = MaxRetries r + 1 \<and>
            rctx r = Some \<lparr>cx_cause = parent\<rparr>)"
proof -
  define r0 where "r0 = zero_retrier\<lparr>MaxRetries := defaultMaxRetries, Jitter := defaultJitter,
      BackoffFactor := defaultBackoffFactor, Interval := defaultInterval,
      Timeout := defaultTimeout, Registry := Some NewRegistry, Logger := Some (slog_Default rt)\<rparr>"
  define r2 where "r2 = (applyOptions opts r0)\<lparr>errorsPool := [], errorsPoolNew := True\<rparr>"
  have flags: "\<not> initOnce r2" "\<not> ctxOnce r2"
    using applyOptions_config [OF assms(1), of r0] by (simp_all add: r2_def r0_def zero_retrier_def)
  have unf: "NewRetrier rt now parent opts =
      (case Validate r2 of
           Some err \<Rightarrow> Ret (r2, Some err)
         | None \<Rightarrow> res_bind (NewTimerPool now (wrap64 (MaxRetries r2 + 1)) (Timeout r2))
             (\<lambda>pool. Ret (r2\<lparr>timer := Some pool, rctx := Some \<lparr>cx_cause = parent\<rparr>\<rparr>, None)))"
    unfolding NewRetrier_def r2_def r0_def Let_def by (rule refl)
  show ?thesis
  proof (cases "Validate r2")
    case (Some e)
    with unf assms(2) show ?thesis by auto
  next
    case None
    with unf assms(2) have "res_bind (NewTimerPool now (wrap64 (MaxRetries r2 + 1)) (Timeout r2))
        (\<lambda>pool. Ret (r2\<lparr>timer := Some pool, rctx := Some \<lparr>cx_cause = parent\<rparr>\<rparr>, None)) = Ret (r, err)"
      by simp
    then obtain pool where
      p: "NewTimerPool now (wrap64 (MaxRetries r2 + 1)) (Timeout r2) = Ret pool"
      and r: "r = r2\<lparr>timer := Some pool, rctx := Some \<lparr>cx_cause = parent\<rparr>\<rparr>" and e: "err = None"
      by (auto simp: res_bind_eq_Ret)
    have v: "Validate r = None" using None r by simp
    have mr: "0 \<le> MaxRetries r" using Validate_SomeD [OF v] by simp
    from NewTimerPool_Ret [of "MaxRetries r + 1" now "Timeout r2"] mr
    have "pool_wf pool \<and> pool_Len pool = MaxRetries r + 1 \<and> \<not> tp_closed pool"
      using p wrap64_succ [OF mr assms(3)] r by auto
    with v e r flags mr assms(3) show ?thesis
      by (auto simp: usable_def idle_timers_def pool_open_def pool_idle_def pool_Len_def)
  qed
qed

theorem new_retrier_witness:
  "\<exists>r. NewRetrier chain_runtime 0 None [WithMaxRetries 3, WithTimeout 5000000000] = Ret (r, None) \<and>
       usable r \<and> int (idle_timers r) = 4"
proof -
  let ?opts = "[WithMaxRetries 3, WithTimeout 5000000000]"
  have "\<exists>r. NewRetrier chain_runtime 0 None ?opts = Ret (r, None) \<and> MaxRetries r = 3"
    using NewTimerPool_Ret [of 4 0 5000000000]
    by (auto simp: NewRetrier_def retrier_defs wrap64_def Let_def)
  then obtain r where r: "NewRetrier chain_runtime 0 None ?opts = Ret (r, None)" "MaxRetries r = 3"
    by blast
  have "list_all config_option ?opts" "MaxRetries r < maxInt64" using r(2) by simp_all
  from new_retrier [OF this(1) r(1) this(2)] r show ?thesis by auto
qed

section \<open>What Do returns\<close>

text \<open>
  (C1) Functional behaviour of \<open>Do\<close> on every path. A call that returns made its last invocation
  as number \<open>n\<close>, at most \<open>MaxRetries\<close>. Every earlier invocation failed with a retryable error
  and was followed by a complete wait; the last one decides: on success \<open>Last\<close> is nil and the
  trace holds the earlier errors; a non-retryable error is returned at once; at the last attempt
  the error is recorded a second time, wrapped; otherwise the wait was aborted by one of the two
  contexts or by the timeout, and that error is \<open>Last\<close>. The events are the invocations, the
  hook calls and the log entries in this order.
\<close>

theorem do_spec:
  assumes "Validate r = None" and "Do rt env r (Some fn) temps = Ret (errs, r', tr)"
  shows "\<exists>n tt. int n \<le> MaxRetries r \<and>
           tm_when tt = Some (deadline (d_start env) (Timeout r)) \<and>
           (\<forall>i<n. retried rt temps fn (d_wait env) (filled rt r) i) \<and>
           loop_end rt temps fn (d_wait env) (filled rt r) tt (map (the \<circ> fn) [0..<n]) errs n \<and>
           tr = concat (map (loop_events rt temps fn (filled rt r)) [0..<Suc n])"
  using Do_result [OF assms(2,1)] .

theorem do_spec_witness:
  "\<exists>errs r' tr n. Do chain_runtime demo_env demo_retrier (Some failing) [] = Ret (errs, r', tr) \<and>
     int n \<le> MaxRetries demo_retrier \<and>
     tr = concat (map (loop_events chain_runtime [] failing (filled chain_runtime demo_retrier)) [0..<Suc n])"
proof -
  from demo_returns [of failing "[]"] obtain errs r' tr where
    d: "Do chain_runtime demo_env demo_retrier (Some failing) [] = Ret (errs, r', tr)" by blast
  from do_spec [OF demo_Validate d] d show ?thesis by blast
qed

text \<open>
  (C7) \<open>Do\<close> returns. On a usable retrier, if at every wait that can be reached some case of the
  \<open>select\<close> becomes ready, the call neither panics nor blocks; it gives every timer back to the
  pool and leaves the retrier usable for the next call.
\<close>

theorem do_returns:
  assumes "usable r" and "\<forall>i. int i < MaxRetries r \<longrightarrow> awake rt env r i"
  shows "\<exists>errs r' tr. Do rt env r (Some fn) temps = Ret (errs, r', tr) \<and> usable r' \<and>
           idle_timers r' = idle_timers r"
  using Do_returns [OF assms(1)] assms(2) by blast

theorem do_returns_witness:
  "\<exists>errs r' tr. Do chain_runtime demo_env demo_retrier (Some failing) [] = Ret (errs, r', tr) \<and>
     usable r' \<and> idle_timers r' = 3"
proof -
  have "idle_timers demo_retrier = 3" by (simp add: idle_timers_def demo_retrier_def zero_retrier_def)
  with do_returns [OF demo_usable, of chain_runtime demo_env failing "[]"] demo_awake
  show ?thesis by auto
qed

lemma calls_events [simp]: "calls (loop_events rt temps fn r i) = [i]"
  by (auto simp: calls_def loop_events_def retry_events_def split: option.splits)

lemma calls_trace: "calls (concat (map (loop_events rt temps fn r) [0..<n])) = [0..<n]"
  by (induction n) simp_all

lemma hook_calls_append [simp]: "hook_calls (xs @ ys) = hook_calls xs @ hook_calls ys"
  by (simp add: hook_calls_def)

lemma hook_calls_events:
  "hook_calls (loop_events rt temps fn r i) =
     (case fn i of
        None \<Rightarrow> []
      | Some e \<Rightarrow> if OnRetry r \<and> retryable rt r temps e \<and> int i < MaxRetries r then [(i, e)] else [])"
  by (auto simp: hook_calls_def loop_events_def retry_events_def split: option.splits)

lemma hook_calls_trace:
  "hook_calls (concat (map (loop_events rt temps fn r) [0..<n])) =
     (if OnRetry r then
        map (\<lambda>i. (i, the (fn i)))
          (filter (\<lambda>i. \<exists>e. fn i = Some e \<and> retryable rt r temps e \<and> int i < MaxRetries r) [0..<n])
      else [])"
proof (induction n)
  case (Suc n)
  then show ?case by (auto simp: hook_calls_events split: option.splits)
qed (simp add: hook_calls_def)

text \<open>
  Invocations and hooks. The function is invoked with consecutive attempt numbers from zero,
  at most \<open>MaxRetries + 1\<close> times; \<open>Last\<close> is nil exactly when the last invocation succeeded;
  every invocation but the last failed, and the errors of the failed ones open the trace in order;
  the hook is called, with the attempt's number and error, exactly for the failed attempts with a
  retryable error and a number below \<open>MaxRetries\<close>, which are those that are waited on.
\<close>

lemma do_invocations:
  assumes "Validate r = None" and "Do rt env r (Some fn) temps = Ret (errs, r', tr)"
  shows "\<exists>n. calls tr = [0..<Suc n] \<and> int (length (calls tr)) \<le> MaxRetries r + 1 \<and>
           (Last errs = None \<longleftrightarrow> fn n = None) \<and> (\<forall>i<n. fn i \<noteq> None) \<and>
           (\<exists>rest. Attempts errs = map (the \<circ> fn) [0..<n] @ rest) \<and>
           hook_calls tr =
             (if OnRetry r then
                map (\<lambda>i. (i, the (fn i)))
                  (filter (\<lambda>i. \<exists>e. fn i = Some e \<and> retryable rt (filled rt r) temps e \<and> int i < MaxRetries r)
                    [0..<Suc n])
              else [])"
proof -
  from Do_result [OF assms(2,1)] obtain n tt where
    n: "int n \<le> MaxRetries r" "\<forall>i<n. retried rt temps fn (d_wait env) (filled rt r) i"
      "loop_end rt temps fn (d_wait env) (filled rt r) tt (map (the \<circ> fn) [0..<n]) errs n"
      "tr = concat (map (loop_events rt temps fn (filled rt r)) [0..<Suc n])" by blast
  have c: "calls tr = [0..<Suc n]" unfolding n(4) by (rule calls_trace)
  have "Last errs = None \<longleftrightarrow> fn n = None" "\<exists>rest. Attempts errs = map (the \<circ> fn) [0..<n] @ rest"
    using n(3) by (auto simp: loop_end_def split: option.splits if_splits)
  moreover have "\<forall>i<n. fn i \<noteq> None" using n(2) by (auto simp: retried_def)
  ultimately show ?thesis
    using c n(1) hook_calls_trace [of rt temps fn "filled rt r" "Suc n"]
    by (intro exI [of _ n]) (simp add: n(4) filled_frame del: upt_Suc)
qed

lemma Do_exhausted:
  assumes "Validate r = None" and "Do rt env r (Some (\<lambda>i. Some (e i))) temps = Ret (errs, r', tr)"
    and "\<forall>i. retryable rt (filled rt r) temps (e i)"
    and "\<forall>i. int i < MaxRetries r \<longrightarrow> w_ctx (d_wait env i) = None \<and> w_rctx (d_wait env i) = None \<and>
           w_now (d_wait env i) < deadline (d_start env) (Timeout r)"
    and "\<not> cancelled r"
  shows "Attempts errs = map e [0..<Suc (nat (MaxRetries r))] @
           [Wrapf (e (nat (MaxRetries r))) ''%v'' [FErr ErrMaxRetriesReached]] \<and>
         Last errs = Some (e (nat (MaxRetries r))) \<and>
         calls tr = [0..<Suc (nat (MaxRetries r))]"
proof -
  from Do_result [OF assms(2,1)] obtain n tt where
    n: "int n \<le> MaxRetries r" "tm_when tt = Some (deadline (d_start env) (Timeout r))"
      "loop_end rt temps (\<lambda>i. Some (e i)) (d_wait env) (filled rt r) tt (map e [0..<n]) errs n"
      "tr = concat (map (loop_events rt temps (\<lambda>i. Some (e i)) (filled rt r)) [0..<Suc n])"
    by (auto simp: comp_def simp del: upt_Suc)
  have "\<not> abort_reason (stop_causes (filled rt r) (d_wait env) n) tt (d_wait env n) n er we"
    if "int n < MaxRetries r" for er we
  proof -
    have "w_rctx (d_wait env i) = None" if "i \<le> n" for i
      using assms(4) \<open>int n < MaxRetries r\<close> that by simp
    then have "stop_causes (filled rt r) (d_wait env) n = {}"
      using assms(5) by (auto simp: filled_frame stop_causes_def cancelled_def split: option.splits)
    moreover have "\<not> timer_ready (w_now (d_wait env n)) tt" "w_ctx (d_wait env n) = None"
      using assms(4) n(2) that by (auto simp: timer_ready_def not_le)
    ultimately show ?thesis by (simp add: abort_reason_def)
  qed
  with n(1,3) assms(3) have "int n = MaxRetries r" "Last errs = Some (e n)"
    "Attempts errs = map e [0..<n] @ [e n, Wrapf (e n) ''%v'' [FErr ErrMaxRetriesReached]]"
    by (auto simp: loop_end_def filled_frame split: if_splits)
  moreover from this(1) have "n = nat (MaxRetries r)" by simp
  moreover have "calls tr = [0..<Suc n]" unfolding n(4) by (rule calls_trace)
  ultimately show ?thesis by (auto simp del: upt_Suc simp: upt_Suc_append)
qed

text \<open>
  Exhaustion. If every one of the \<open>MaxRetries + 1\<close> invocations fails with a retryable error
  and neither context is done nor the timeout passed at any wait, the trace is the errors of all
  the attempts in order followed by the last one wrapped with the text of
  \<open>ErrMaxRetriesReached\<close>, and \<open>Last\<close> is the last error itself.
\<close>

lemma do_exhausted:
  assumes "Validate r = None" and "Do rt env r (Some (\<lambda>i. Some (e i))) temps = Ret (errs, r', tr)"
    and "\<forall>i. retryable rt (filled rt r) temps (e i)"
    and "\<forall>i. int i < MaxRetries r \<longrightarrow> w_ctx (d_wait env i) = None \<and> w_rctx (d_wait env i) = None \<and>
           w_now (d_wait env i) < deadline (d_start env) (Timeout r)"
    and "\<not> cancelled r"
  shows "Attempts errs = map e [0..<Suc (nat (MaxRetries r))] @
           [Wrapf (e (nat (MaxRetries r))) ''%v'' [FErr ErrMaxRetriesReached]] \<and>
         Last errs = Some (e (nat (MaxRetries r))) \<and>
         calls tr = [0..<Suc (nat (MaxRetries r))]"
  using Do_exhausted [OF assms] .

lemma demo_quiet:
  "int i < MaxRetries demo_retrier \<Longrightarrow>
     w_ctx (d_wait demo_env i) = None \<and> w_rctx (d_wait demo_env i) = None \<and>
     w_now (d_wait demo_env i) < deadline (d_start demo_env) (Timeout demo_retrier)"
  by (auto simp: demo_env_def demo_retrier_def zero_retrier_def deadline_def)

lemma demo_retryable:
  "retryable chain_runtime (filled chain_runtime demo_retrier) [] e"
  by (simp add: retryable_def shouldRetry_def filled_def demo_retrier_def zero_retrier_def
      NewRegistry_def reg_Len_def)

lemma demo_not_cancelled: "\<not> cancelled demo_retrier"
  by (simp add: cancelled_def demo_retrier_def zero_retrier_def)

section \<open>Time\<close>



end
