(* ===== verification/Retrier_Context.thy ===== *)
theory Retrier_Context
  imports Retrier_Properties
begin

text \<open>
  Further properties of the retrier: rejected calls, timeouts, cancellation, \<open>DoWithResult\<close>, and
  \<open>DoWithContext\<close>, which is compared with \<open>Do\<close> and shown to release every attempt's context.
\<close>

section \<open>Calls that are rejected\<close>

lemma getErrors_accepts:
  assumes "errorsPoolNew r \<or> - 1 \<le> MaxRetries r" and "MaxRetries r < maxInt64"
  shows "\<exists>errs r1. getErrors c r = Ret (errs, r1)"
proof -
  have "0 \<le> wrap64 (MaxRetries r + 1)" if "- 1 \<le> MaxRetries r"
    using wrap64_id [of "MaxRetries r + 1"] that assms(2) by (simp add: is_int64_def)
  with assms(1) show ?thesis by (auto simp: getErrors_def split: option.split)
qed

text \<open>
  (C27) Rejection. A call with an invalid configuration reports the validation error and a call with
  a nil function reports \<open>ErrNilRetryableFunc\<close>; both make no attempt, record no error and leave
  the retrier as it was, apart from the pooled traces. This needs the pool of traces to have its
  constructor, as a retrier made by \<open>NewRetrier\<close> has, or a retry count of at least \<open>-1\<close>.
\<close>

theorem do_rejects:
  assumes "errorsPoolNew r \<or> - 1 \<le> MaxRetries r" and "MaxRetries r < maxInt64"
    and "Validate r \<noteq> None \<or> fn = None"
  shows "\<exists>ps. Do rt env r fn temps =
      Ret (\<lparr>Attempts = [], Last = Some (case Validate r of Some e \<Rightarrow> e | None \<Rightarrow> ErrNilRetryableFunc)\<rparr>,
           r\<lparr>errorsPool := ps\<rparr>, [])"
proof -
  from getErrors_accepts [OF assms(1,2)] obtain errs r1 where
    g: "getErrors (d_pool env) r = Ret (errs, r1)" by blast
  from getErrors_fresh [OF g] assms(3) g show ?thesis
    by (auto simp: Do_def split: option.split)
qed

theorem do_rejects_witness:
  "\<exists>ps. Do chain_runtime demo_env demo_retrier None [] =
     Ret (\<lparr>Attempts = [], Last = Some ErrNilRetryableFunc\<rparr>, demo_retrier\<lparr>errorsPool := ps\<rparr>, [])"
proof -
  have "- 1 \<le> MaxRetries demo_retrier" "MaxRetries demo_retrier < maxInt64"
    by (simp_all add: demo_retrier_def)
  with do_rejects [of demo_retrier None chain_runtime demo_env "[]"] demo_Validate
  show ?thesis by simp
qed

text \<open>
  (C28) A retrier written as a composite literal with a retry count of \<open>-2\<close> or less is invalid,
  but its first call panics before it gets to the validation: the trace is allocated first, with
  capacity \<open>MaxRetries+1\<close>.
\<close>

theorem do_panics_before_validation:
  assumes "MaxRetries r \<le> - 2" and "- (2 ^ 63) \<le> MaxRetries r" and "\<not> errorsPoolNew r"
    and "errorsPool r = []"
  shows "Validate r \<noteq> None \<and> Do rt env r fn temps = Panic ''makeslice: cap out of range''"
proof -
  have "wrap64 (MaxRetries r + 1) < 0"
    using wrap64_id [of "MaxRetries r + 1"] assms(1,2) by (simp add: is_int64_def)
  with assms show ?thesis
    by (auto simp: Do_def getErrors_def Validate_def split: option.split)
qed

theorem do_panics_before_validation_witness:
  "Do chain_runtime demo_env (demo_retrier\<lparr>MaxRetries := - 2\<rparr>) None [] =
     Panic ''makeslice: cap out of range''"
  using do_panics_before_validation [of "demo_retrier\<lparr>MaxRetries := - 2\<rparr>" chain_runtime demo_env None "[]"]
  by (simp add: demo_retrier_def zero_retrier_def)

section \<open>Timeouts\<close>

text \<open>
  (C29) A timeout is reported only when it happened. If a call returns the timeout error of an
  attempt and the function never returned that very value, then the error names the last attempt
  and its error, the deadline \<open>start + Timeout\<close> had passed when the wait after that attempt
  ended, and \<open>errors.Is\<close> matches \<open>ErrTimeoutReached\<close>.
\<close>

theorem do_timeout:
  assumes "error_matching rt" and "Validate r = None"
    and "Do rt env r (Some fn) temps = Ret (errs, r', tr)"
    and "Last errs = Some (Wrapf ErrTimeoutReached ''attempt %v: %v'' as)"
    and "\<forall>i. fn i \<noteq> Last errs"
  shows "\<exists>n e. calls tr = [0..<Suc n] \<and> fn n = Some e \<and> as = [FInt (int n), FErr e] \<and>
           deadline (d_start env) (Timeout r) \<le> w_now (d_wait env n) \<and>
           errors_Is rt (the (Last errs)) ErrTimeoutReached"
proof -
  from Do_result [OF assms(3,2)] obtain n tt where
    n: "tm_when tt = Some (deadline (d_start env) (Timeout r))"
      "loop_end rt temps fn (d_wait env) (filled rt r) tt (map (the \<circ> fn) [0..<n]) errs n"
      "tr = concat (map (loop_events rt temps fn (filled rt r)) [0..<Suc n])" by blast
  have c: "calls tr = [0..<Suc n]" unfolding n(3) by (rule calls_trace)
  from n(2) assms(4,5) obtain e we where e: "fn n = Some e" "Last errs = Some we"
    "abort_reason (stop_causes (filled rt r) (d_wait env) n) tt (d_wait env n) n e we"
    by (fastforce simp: loop_end_def split: option.splits if_splits)
  with assms(4) n(1) have "as = [FInt (int n), FErr e]"
    "deadline (d_start env) (Timeout r) \<le> w_now (d_wait env n)"
    by (auto simp: abort_reason_def timer_ready_def)
  with c e(1) error_matching.Is_Wrapf_self [OF assms(1)] assms(4) show ?thesis by auto
qed

definition late_env :: do_env where
  "late_env = demo_env\<lparr>d_wait := (\<lambda>i. (d_wait demo_env i)\<lparr>w_now := 2000\<rparr>)\<rparr>"

lemma late_timeout:
  "\<exists>errs r' tr. Do chain_runtime late_env demo_retrier (Some failing) [] = Ret (errs, r', tr) \<and>
     Last errs = Some (Wrapf ErrTimeoutReached ''attempt %v: %v'' [FInt 0, FErr ErrOperationFailed])"
  by (simp add: Do_def getErrors_def demo_Validate ensureInitialized_def demo_retrier_def
      zero_retrier_def late_env_def demo_env_def failing_def NewTimerPool_def wrap64_def
      Validate_def numeral_3_eq_3 Let_def pool_Get_def pool_Put_def timer_defs ensureContext_def
      do_loop.simps shouldRetry_def NewRegistry_def reg_Len_def waitRetry_def absorb_cancel_def
      wait_cases_def go_select_def wait_result_def retryInterval_def chain_runtime_def)

theorem do_timeout_witness:
  "\<exists>errs r' tr. Do chain_runtime late_env demo_retrier (Some failing) [] = Ret (errs, r', tr) \<and>
     errors_Is chain_runtime (the (Last errs)) ErrTimeoutReached"
proof -
  from late_timeout obtain errs r' tr where
    d: "Do chain_runtime late_env demo_retrier (Some failing) [] = Ret (errs, r', tr)"
      "Last errs = Some (Wrapf ErrTimeoutReached ''attempt %v: %v'' [FInt 0, FErr ErrOperationFailed])"
    by blast
  have "\<forall>i. failing i \<noteq> Last errs" using d(2) by (simp add: failing_def ErrOperationFailed_def)
  from do_timeout [OF chain.error_matching_axioms demo_Validate d this] d(1) show ?thesis by blast
qed

section \<open>Cancellation\<close>

lemma ensureContext_eq:
  "(ctxOnce r \<longrightarrow> rctx r \<noteq> None) \<Longrightarrow>
     ensureContext r = r\<lparr>ctxOnce := True,
       rctx := Some (case rctx r of None \<Rightarrow> \<lparr>cx_cause = None\<rparr> | Some c \<Rightarrow> c)\<rparr>"
  by (cases r; cases "rctx r") (auto simp: ensureContext_def)

lemma Cancel_eq:
  assumes "ctxOnce r \<longrightarrow> rctx r \<noteq> None" and "\<not> cancelOnce r"
  shows "Cancel r = Ret (r\<lparr>ctxOnce := True, cancelOnce := True, rctx :=
      Some (cancel_cause ErrOperationStopped
        (case rctx r of None \<Rightarrow> \<lparr>cx_cause = None\<rparr> | Some c \<Rightarrow> c))\<rparr>)"
  using assms(2) by (simp add: Cancel_def ensureContext_eq [OF assms(1)] Let_def)

lemma Cancel_cancels:
  assumes "usable r" and "Cancel r = Ret r1" and "\<not> cancelOnce r"
  shows "cancelled r1 \<and> usable r1 \<and> same_config r r1 \<and> Cancel r1 = Ret r1 \<and>
         (\<not> cancelled r \<longrightarrow> rctx r1 = Some \<lparr>cx_cause = Some ErrOperationStopped\<rparr>)"
proof -
  define c where "c = (case rctx r of None \<Rightarrow> \<lparr>cx_cause = None\<rparr> | Some c \<Rightarrow> c)"
  have "ctxOnce r \<longrightarrow> rctx r \<noteq> None" using assms(1) by (simp add: usable_def)
  from Cancel_eq [OF this assms(3)] assms(2) have r1: "r1 = r\<lparr>ctxOnce := True, cancelOnce := True,
      rctx := Some (cancel_cause ErrOperationStopped c)\<rparr>" by (simp add: c_def)
  have "usable r1" using assms(1) unfolding r1 usable_def by (auto split: option.splits)
  moreover have "cancelled r1" using cancel_cause_set [of ErrOperationStopped c]
    by (auto simp: r1 cancelled_def)
  moreover have "same_config r r1" by (simp add: r1 same_config_def)
  moreover have "Cancel r1 = Ret r1" by (simp add: r1 Cancel_def ensureContext_def)
  moreover have "\<not> cancelled r \<Longrightarrow> cx_cause c = None"
    by (auto simp: cancelled_def c_def split: option.splits)
  then have "\<not> cancelled r \<Longrightarrow> rctx r1 = Some \<lparr>cx_cause = Some ErrOperationStopped\<rparr>"
    by (simp add: r1 cancel_cause_def)
  ultimately show ?thesis by blast
qed

lemma Stop_after_Cancel:
  assumes "Stop r = Ret r1"
  shows "cancelled r \<longrightarrow> rctx r1 = rctx r"
  using assms
  by (auto simp: Stop_def ensureContext_def Let_def cancelled_def cancel_cause_def
      split: option.splits if_splits)

lemma filled_retryable:
  "same_config r r1 \<Longrightarrow> initOnce r1 = initOnce r \<Longrightarrow>
     retryable rt (filled rt r1) temps e = retryable rt (filled rt r) temps e"
  by (rule same_config_cong(1)) (simp add: same_config_def filled_def)

text \<open>A call on a cancelled retrier whose first attempt fails gives up in its first wait.\<close>

lemma Do_cancelled:
  assumes "Validate r = None" and "Do rt env r (Some fn) temps = Ret (errs, r', tr)"
    and "rctx r = Some \<lparr>cx_cause = Some c\<rparr>" and "0 < MaxRetries r"
    and "fn 0 = Some e" and "retryable rt (filled rt r) temps e"
    and "w_ctx (d_wait env 0) = None" and "w_rctx (d_wait env 0) = None"
    and "w_now (d_wait env 0) < deadline (d_start env) (Timeout r)"
    and "w_now (d_wait env 0) <
           deadline (w_enter (d_wait env 0)) (retryInterval rt r (d_wait env 0) 0)"
  shows "calls tr = [0] \<and> Attempts errs = [e] \<and> Last errs = Some (Wrap c ''retrier context done'')"
proof -
  from Do_result [OF assms(2,1)] obtain n tt where
    n: "tm_when tt = Some (deadline (d_start env) (Timeout r))"
      "\<forall>i<n. retried rt temps fn (d_wait env) (filled rt r) i"
      "loop_end rt temps fn (d_wait env) (filled rt r) tt (map (the \<circ> fn) [0..<n]) errs n"
      "tr = concat (map (loop_events rt temps fn (filled rt r)) [0..<Suc n])" by blast
  have "n = 0" using n(2) assms(10) by (auto simp: retried_def filled_frame)
  moreover have "stop_causes (filled rt r) (d_wait env) 0 = {c}"
    using assms(3,8) by (auto simp: stop_causes_def filled_frame)
  ultimately have "Attempts errs = [e]" "Last errs = Some (Wrap c ''retrier context done'')"
    using n(1,3) assms(4-7,9)
    by (auto simp: loop_end_def abort_reason_def timer_ready_def filled_frame)
  moreover have "calls tr = [0]" unfolding n(4) calls_trace using \<open>n = 0\<close> by simp
  ultimately show ?thesis by simp
qed

text \<open>
  (C30) Cancellation. \<open>Cancel\<close> on a retrier whose context is not done yet marks the context with
  \<open>ErrOperationStopped\<close>; repeating it, or calling \<open>Stop\<close> afterwards, changes nothing more of it.
  A later call to \<open>Do\<close> whose first attempt fails with a retryable error, and that reaches its
  first \<open>select\<close> before the backoff and the timeout are over, stops there: it makes one attempt
  and reports \<open>ErrOperationStopped\<close>.
\<close>

theorem cancel_stops:
  assumes "usable r" and "\<not> cancelOnce r" and "\<not> cancelled r" and "Cancel r = Ret r1"
    and "0 < MaxRetries r" and "fn 0 = Some e" and "retryable rt (filled rt r1) temps e"
    and "w_ctx (d_wait env 0) = None" and "w_rctx (d_wait env 0) = None"
    and "w_now (d_wait env 0) < deadline (d_start env) (Timeout r)"
    and "w_now (d_wait env 0) <
           deadline (w_enter (d_wait env 0)) (retryInterval rt r (d_wait env 0) 0)"
    and "Do rt env r1 (Some fn) temps = Ret (errs, r', tr)"
  shows "Cancel r1 = Ret r1 \<and> (\<forall>r2. Stop r1 = Ret r2 \<longrightarrow> rctx r2 = rctx r1) \<and>
         calls tr = [0] \<and> Attempts errs = [e] \<and>
         Last errs = Some (Wrap ErrOperationStopped ''retrier context done'')"
proof -
  from Cancel_cancels [OF assms(1,4,2)] assms(3) have
    r1: "cancelled r1" "usable r1" "same_config r r1" "Cancel r1 = Ret r1"
      "rctx r1 = Some \<lparr>cx_cause = Some ErrOperationStopped\<rparr>" by auto
  have v: "Validate r1 = None" using r1(2) by (simp add: usable_def)
  have c: "0 < MaxRetries r1" "Timeout r1 = Timeout r"
    "retryInterval rt r1 (d_wait env 0) 0 = retryInterval rt r (d_wait env 0) 0"
    using r1(3) assms(5) same_config_cong(2) [OF r1(3)] by (auto simp: same_config_def)
  from Do_cancelled [OF v assms(12) r1(5) c(1) assms(6,7,8,9)] c assms(10,11)
    Stop_after_Cancel [of r1] r1(1,4) show ?thesis by auto
qed

definition early_env :: do_env where
  "early_env = demo_env\<lparr>d_wait := (\<lambda>i. (d_wait demo_env i)\<lparr>w_now := 1\<rparr>)\<rparr>"

theorem cancel_stops_witness:
  "\<exists>r1 errs r' tr. Cancel demo_retrier = Ret r1 \<and>
     Do chain_runtime early_env r1 (Some failing) [] = Ret (errs, r', tr) \<and> calls tr = [0] \<and>
     Last errs = Some (Wrap ErrOperationStopped ''retrier context done'')"
proof -
  have n: "\<not> cancelOnce demo_retrier" by (simp add: demo_retrier_def zero_retrier_def)
  obtain r1 where r1: "Cancel demo_retrier = Ret r1"
    by (simp add: Cancel_def ensureContext_def demo_retrier_def zero_retrier_def)
  from Cancel_cancels [OF demo_usable r1 n]
  have c: "cancelled r1" "usable r1" "same_config demo_retrier r1" by auto
  then have "awake chain_runtime early_env r1 i" for i by (simp add: awake_def)
  with Do_returns [OF c(2)] obtain errs r' tr where
    d: "Do chain_runtime early_env r1 (Some failing) [] = Ret (errs, r', tr)" by blast
  have "Registry r1 = None" "\<not> initOnce r1" using r1
    by (auto simp: Cancel_def ensureContext_def demo_retrier_def zero_retrier_def cancel_cause_def)
  then have ret: "retryable chain_runtime (filled chain_runtime r1) [] ErrOperationFailed"
    by (simp add: retryable_def shouldRetry_def filled_def NewRegistry_def reg_Len_def)
  have "0 < MaxRetries demo_retrier" "failing 0 = Some ErrOperationFailed"
    "w_ctx (d_wait early_env 0) = None" "w_rctx (d_wait early_env 0) = None"
    "w_now (d_wait early_env 0) < deadline (d_start early_env) (Timeout demo_retrier)"
    "w_now (d_wait early_env 0) < deadline (w_enter (d_wait early_env 0))
       (retryInterval chain_runtime demo_retrier (d_wait early_env 0) 0)"
    by (simp_all add: early_env_def demo_env_def demo_retrier_def zero_retrier_def failing_def
        deadline_def retryInterval_def chain_runtime_def wrap64_def)
  from cancel_stops [OF demo_usable n demo_not_cancelled r1 this(1,2) ret this(3-) d] r1 d
  show ?thesis by auto
qed

section \<open>DoWithResult\<close>

lemma fold_calls:
  "fold (\<lambda>ev res. case ev of Called i \<Rightarrow> g i | _ \<Rightarrow> res) tr z =
     (if calls tr = [] then z else g (last (calls tr)))"
  by (induction tr rule: rev_induct) (auto simp: calls_def split: event.splits)

text \<open>
  \<open>DoWithResult\<close> returns the value of the last invocation, which is the successful one when
  \<open>Last\<close> is nil; a rejected configuration gives the zero value.
\<close>

lemma do_with_result:
  assumes "DoWithResult rt env r zero fn temps = Ret (v, errs, r', tr)"
  shows "if Validate r = None
         then \<exists>n. calls tr = [0..<Suc n] \<and> v = fst (fn n) \<and> (Last errs = None \<longleftrightarrow> snd (fn n) = None)
         else v = zero \<and> Last errs = Validate r"
proof -
  let ?f = "\<lambda>i. snd (fn i)"
  from assms obtain d: "Do rt env r (Some ?f) temps = Ret (errs, r', tr)" and
    v: "v = (if calls tr = [] then zero else fst (fn (last (calls tr))))"
    by (auto simp: DoWithResult_def map_res_eq_Ret fold_calls)
  show ?thesis
  proof (cases "Validate r")
    case None
    from Do_result [OF d None] obtain n tt where
      n: "loop_end rt temps ?f (d_wait env) (filled rt r) tt (map (the \<circ> ?f) [0..<n]) errs n"
        "tr = concat (map (loop_events rt temps ?f (filled rt r)) [0..<Suc n])" by blast
    have "calls tr = [0..<Suc n]" unfolding n(2) by (rule calls_trace)
    moreover have "Last errs = None \<longleftrightarrow> ?f n = None"
      using n(1) by (auto simp: loop_end_def split: option.splits if_splits)
    ultimately show ?thesis using v None by auto
  next
    case (Some e)
    from d obtain e0 r1 where g: "getErrors (d_pool env) r = Ret (e0, r1)"
      by (auto simp: Do_def res_bind_eq_Ret)
    from getErrors_fresh [OF g] Some d g v show ?thesis by (auto simp: Do_def)
  qed
qed

section \<open>DoWithContext\<close>

text \<open>The events of a call without the releases of the attempts' contexts.\<close>

definition without_releases :: "event list \<Rightarrow> event list" where
  "without_releases tr = filter (\<lambda>ev. case ev of AttemptCanceled i c \<Rightarrow> False | _ \<Rightarrow> True) tr"

lemma without_releases_append [simp]:
  "without_releases (xs @ ys) = without_releases xs @ without_releases ys"
  by (simp add: without_releases_def)

lemma without_releases_retry [simp]: "without_releases (retry_events r i e) = retry_events r i e"
  by (simp add: without_releases_def retry_events_def)

lemma without_releases_attempt [simp]:
  "without_releases (Called i # tr) = Called i # without_releases tr"
  "without_releases (AttemptCanceled j c # tr) = without_releases tr" "without_releases [] = []"
  by (simp_all add: without_releases_def)

lemma waitRetry_rctx:
  "waitRetry rt r w tt i e = Ret (ret, r', tt') \<Longrightarrow> rctx r' \<noteq> None"
  by (erule waitRetryE) auto

text \<open>Every attempt's goroutine delivers its result, and the \<open>select\<close> takes it.\<close>

definition delivers :: "(nat \<Rightarrow> attempt_obs) \<Rightarrow> (nat \<Rightarrow> goerr option) \<Rightarrow> bool" where
  "delivers as fn \<longleftrightarrow> (\<forall>i. a_result (as i) = Some (fn i) \<and> a_pick (as i) = 0 \<and> a_rctx (as i) = None)"

lemma runAttempt_delivers:
  assumes "delivers as fn" and "rctx r \<noteq> None"
  shows "runAttemptWithContext r (as k) tt k =
           Ret (fn k, None, r, tt, [Called k, AttemptCanceled k None])"
  using assms
  by (auto simp: delivers_def runAttemptWithContext_def absorb_cancel_def attempt_cases_def
      go_select_def)

lemma dwc_loop_delivers:
  assumes "delivers as fn" and "rctx r \<noteq> None"
  shows "map_res (\<lambda>(e, r, tt, t). (e, r, tt, without_releases t))
           (dwc_loop rt temps as ws r tt errs tr k) =
         do_loop rt temps fn ws r tt errs (without_releases tr) k"
  using assms(2)
proof (induction "nat (MaxRetries r + 1 - int k)" arbitrary: r tt errs tr k rule: less_induct)
  case less
  note run = runAttempt_delivers [OF assms(1) less.prems]
  note unf = dwc_loop.simps [of rt temps as ws r tt errs tr k]
    do_loop.simps [of rt temps fn ws r tt errs "without_releases tr" k]
  show ?case
  proof (cases "int k < MaxRetries r \<and> (\<exists>e r1 tt1. fn k = Some e \<and> shouldRetry rt r e temps = Ret True \<and>
      waitRetry rt r (ws k) tt k e = Ret (None, r1, tt1))")
    case False
    then show ?thesis
      by (auto simp: unf run handleAttemptError_def Let_def split: option.split res.split bool.split)
  next
    case True
    then obtain e r1 tt1 where e: "fn k = Some e" "shouldRetry rt r e temps = Ret True"
      "waitRetry rt r (ws k) tt k e = Ret (None, r1, tt1)" by blast
    have "MaxRetries r1 = MaxRetries r" using waitRetry_frame [OF e(3)] by simp
    with less.hyps [of r1 "Suc k" tt1 "errs\<lparr>Attempts := Attempts errs @ [e], Last := Some e\<rparr>"
        "tr @ [Called k, AttemptCanceled k None] @ retry_events r k e"] e True
      waitRetry_rctx [OF e(3)]
    show ?thesis by (simp add: unf run handleAttemptError_def Let_def)
  qed
qed

lemma bracketed_cong:
  assumes "usable r"
    and "\<And>r2 tt p errs. loop_start rt env r r2 tt p \<Longrightarrow>
           map_res (\<lambda>(e, r, tt, t). (e, r, tt, g t)) (loop r2 tt errs) = loop' r2 tt errs"
  shows "map_res (\<lambda>(e, r, t). (e, r, g t)) (bracketed rt env r loop) = bracketed rt env r loop'"
proof -
  from bracketed_starts [OF assms(1), of rt env] obtain r2 tt p where
    s: "loop_start rt env r r2 tt p" and
    b: "bracketed rt env r l =
       res_bind (l r2 tt \<lparr>Attempts = [], Last = None\<rparr>) (\<lambda>(errs', r3, tt, tr).
         case timer r3 of None \<Rightarrow> nil_deref | Some p2 \<Rightarrow>
         res_bind (pool_Put (d_end env) tt p2) (\<lambda>p3. Ret (errs', r3\<lparr>timer := Some p3\<rparr>, tr)))" for l
    by blast
  show ?thesis
    unfolding b [of loop] b [of loop'] assms(2) [OF s, symmetric]
    by (cases "loop r2 tt \<lparr>Attempts = [], Last = None\<rparr>")
      (auto simp: res_bind_case split: option.split res.split)
qed

lemma DoWithContext_agrees:
  assumes "usable r" and "delivers as fn"
  shows "map_res (\<lambda>(errs, r', tr). (errs, r', without_releases tr))
           (DoWithContext rt env r (Some as) temps) = Do rt env r (Some fn) temps"
  unfolding DoWithContext_bracketed Do_bracketed
proof (rule bracketed_cong [OF assms(1)])
  fix r2 tt p errs
  assume "loop_start rt env r r2 tt p"
  then have "rctx r2 \<noteq> None" by (simp add: loop_start_def)
  from dwc_loop_delivers [OF assms(2) this, of rt temps "d_wait env" tt errs "[]" 0]
  show "map_res (\<lambda>(e, r, tt, t). (e, r, tt, without_releases t))
      (dwc_loop rt temps as (d_wait env) r2 tt errs [] 0) = do_loop rt temps fn (d_wait env) r2 tt errs [] 0"
    by simp
qed

lemma calls_without_releases [simp]: "calls (without_releases tr) = calls tr"
  by (induction tr) (auto simp: calls_def without_releases_def split: event.split)

lemma DoWithContext_to_Do:
  assumes "usable r" and "delivers as fn" and "DoWithContext rt env r (Some as) temps = Ret (errs, r', tr)"
  shows "Do rt env r (Some fn) temps = Ret (errs, r', without_releases tr)"
  using DoWithContext_agrees [OF assms(1,2), of rt env temps] assms(3) by simp

lemma DoWithContext_returns:
  assumes "usable r" and "delivers as fn" and "\<And>i. int i < MaxRetries r \<Longrightarrow> awake rt env r i"
  shows "\<exists>errs r' tr. DoWithContext rt env r (Some as) temps = Ret (errs, r', tr)"
  using DoWithContext_agrees [OF assms(1,2), of rt env temps] Do_returns [OF assms(1,3), of fn temps]
  by (cases "DoWithContext rt env r (Some as) temps") auto

text \<open>
  (C19) \<open>DoWithContext\<close> agrees with \<open>Do\<close>. While every attempt delivers its result before a
  cancellation or the timeout is observed, \<open>DoWithContext\<close> returns the same trace, leaves the
  retrier in the same state and makes the same invocations, hook calls and log entries as \<open>Do\<close>
  on the same results; its only additional events are the releases of the attempts' contexts.
\<close>

theorem dwc_agrees:
  assumes "usable r" and "delivers as fn"
  shows "map_res (\<lambda>(errs, r', tr). (errs, r', without_releases tr))
           (DoWithContext rt env r (Some as) temps) = Do rt env r (Some fn) temps"
  using assms by (rule DoWithContext_agrees)

definition demo_attempts :: "nat \<Rightarrow> attempt_obs" where
  "demo_attempts i = \<lparr>a_now = 300 * int i, a_result = Some (failing i), a_ctx = None,
     a_ctx_cause = None, a_rctx = None, a_pick = 0\<rparr>"

theorem dwc_agrees_witness:
  "delivers demo_attempts failing \<and>
   map_res (\<lambda>(errs, r', tr). (errs, r', without_releases tr))
     (DoWithContext chain_runtime demo_env demo_retrier (Some demo_attempts) []) =
   Do chain_runtime demo_env demo_retrier (Some failing) []"
proof -
  have "delivers demo_attempts failing" by (simp add: delivers_def demo_attempts_def)
  with dwc_agrees [OF demo_usable this] show ?thesis by simp
qed

text \<open>Every invocation is followed at once by the release of its context.\<close>

fun releases_all :: "event list \<Rightarrow> bool" where
  "releases_all [] = True"
| "releases_all (Called i # AttemptCanceled j c # tr) = (i = j \<and> releases_all tr)"
| "releases_all (OnRetryCalled i e # tr) = releases_all tr"
| "releases_all (Logged i e # tr) = releases_all tr"
| "releases_all tr = False"

lemma releases_all_append: "releases_all xs \<Longrightarrow> releases_all ys \<Longrightarrow> releases_all (xs @ ys)"
  by (induction xs rule: releases_all.induct) auto

lemma releases_all_retry: "releases_all (retry_events r i e)"
  by (simp add: retry_events_def)

lemma runAttempt_released:
  "runAttemptWithContext r a tt i = Ret (ae, te, r', tt', evs) \<Longrightarrow> releases_all evs \<and> calls evs = [i]"
  by (auto simp: runAttemptWithContext_def Let_def calls_def
      split: option.split_asm attempt_case.split_asm)

lemma handleAttemptError_released:
  "handleAttemptError rt r w tt i e errs temps = Ret (oc, errs', r', tt', evs) \<Longrightarrow>
     releases_all evs \<and> calls evs = []"
  by (auto simp: handleAttemptError_def Let_def releases_all_retry calls_def retry_events_def
      split: option.split_asm res.split_asm prod.split_asm if_split_asm bool.split_asm)

lemma dwc_loop_released:
  assumes "dwc_loop rt temps as ws r tt errs tr k = Ret (errs', r', tt', tr')"
    and "int k \<le> MaxRetries r" and "releases_all tr" and "calls tr = [0..<k]"
  shows "\<exists>n. int n \<le> MaxRetries r \<and> calls tr' = [0..<Suc n] \<and> releases_all tr'"
  using assms
proof (induction "nat (MaxRetries r + 1 - int k)" arbitrary: r tt errs tr k rule: less_induct)
  case less
  note unf = less.prems(1) [unfolded dwc_loop.simps [of rt temps as ws r tt errs tr k]]
  from unf less.prems(2) obtain ae te r1 tt1 evs where
    a: "runAttemptWithContext r (as k) tt k = Ret (ae, te, r1, tt1, evs)"
    by (auto split: res.split_asm)
  have evs: "releases_all (tr @ evs)" "calls (tr @ evs) = [0..<Suc k]"
    using runAttempt_released [OF a] less.prems(3,4) by (simp_all add: releases_all_append)
  show ?case
  proof (cases "te = None \<and> ae \<noteq> None")
    case False
    with unf less.prems(2) a have "tr' = tr @ evs" by (auto split: option.split_asm)
    with evs less.prems(2) show ?thesis by blast
  next
    case True
    then obtain e where "ae = Some e" "te = None" by blast
    with unf less.prems(2) a obtain oc errs1 r2 tt2 evs' where
      h: "handleAttemptError rt r1 (ws k) tt1 k e errs temps = Ret (oc, errs1, r2, tt2, evs')"
      by (auto split: res.split_asm)
    have evs': "releases_all (tr @ evs @ evs')" "calls (tr @ evs @ evs') = [0..<Suc k]"
      using handleAttemptError_released [OF h] releases_all_append [OF evs(1), of evs'] evs(2)
      by simp_all
    have mr: "MaxRetries r2 = MaxRetries r"
      using runAttemptWithContext_frame [OF a] handleAttemptError_frame [OF h] by simp
    have lt: "int k < MaxRetries r" if "oc = attemptContinue"
      using h that less.prems(2) runAttemptWithContext_frame [OF a]
      by (auto simp: handleAttemptError_def Let_def
          split: option.split_asm res.split_asm prod.split_asm if_split_asm bool.split_asm)
    show ?thesis
    proof (cases oc)
      case attemptContinue
      with unf less.prems(2) a h \<open>ae = Some e\<close> \<open>te = None\<close> have
        "dwc_loop rt temps as ws r2 tt2 errs1 (tr @ evs @ evs') (Suc k) = Ret (errs', r', tt', tr')"
        by simp
      from less.hyps [OF _ this] lt attemptContinue mr evs' show ?thesis by auto
    qed (use unf less.prems(2) a h \<open>ae = Some e\<close> \<open>te = None\<close> evs' in \<open>auto intro!: exI [of _ k]\<close>)
  qed
qed

lemma dwc_calls:
  assumes "usable r" and "DoWithContext rt env r (Some as) temps = Ret (errs, r', tr)"
  shows "\<exists>n. int n \<le> MaxRetries r \<and> calls tr = [0..<Suc n] \<and> releases_all tr"
proof -
  from bracketed_starts [OF assms(1), of rt env] assms(2) obtain r2 tt p tt' r3 where
    s: "loop_start rt env r r2 tt p" and
    l: "dwc_loop rt temps as (d_wait env) r2 tt \<lparr>Attempts = [], Last = None\<rparr> [] 0 =
          Ret (errs, r3, tt', tr)"
    by (fastforce simp: DoWithContext_bracketed res_bind_eq_Ret split: option.split_asm)
  have "MaxRetries r2 = MaxRetries r" "0 \<le> MaxRetries r"
    using s assms(1) Validate_SomeD
    by (auto simp: loop_start_def same_config_def filled_frame usable_def)
  with dwc_loop_released [OF l] show ?thesis by simp
qed

text \<open>
  (C31) \<open>DoWithContext\<close> leaks no context. Whatever the attempts, the contexts and the clock do, a
  call that returns invoked the function with the attempt numbers \<open>0, 1, ..., n\<close> for some
  \<open>n\<close> at most \<open>MaxRetries\<close>, and cancelled the context of every attempt before it went on.
\<close>

theorem dwc_releases:
  assumes "usable r" and "DoWithContext rt env r (Some as) temps = Ret (errs, r', tr)"
  shows "\<exists>n. int n \<le> MaxRetries r \<and> calls tr = [0..<Suc n] \<and> releases_all tr"
  using dwc_calls [OF assms] .

lemma demo_dwc_returns:
  "\<exists>errs r' tr. DoWithContext chain_runtime demo_env demo_retrier (Some demo_attempts) [] = Ret (errs, r', tr)"
  by (rule DoWithContext_returns [where fn = failing, OF demo_usable _ demo_awake])
    (simp_all add: delivers_def demo_attempts_def)

theorem dwc_releases_witness:
  "\<exists>errs r' tr n. DoWithContext chain_runtime demo_env demo_retrier (Some demo_attempts) [] =
     Ret (errs, r', tr) \<and> calls tr = [0..<Suc n] \<and> releases_all tr"
  using demo_dwc_returns dwc_releases [OF demo_usable] by blast

end
