(* ===== verification/Pool_Sharing.thy ===== *)
theory Pool_Sharing
  imports Retrier_Context
begin

text \<open>
  Several goroutines calling \<open>Do\<close> or \<open>DoWithContext\<close> on one retrier. The calls share the timer
  pool: each takes a timer for its timeout when it starts and holds it until it returns, and each
  wait takes another timer for its backoff. The interleavings of these operations are a step
  relation on the pool and the callers' positions. The pool has \<open>MaxRetries+1\<close> timers: with at
  most \<open>MaxRetries\<close> callers every execution completes; with one more all callers can block.
\<close>

section \<open>Interleaved callers\<close>

text \<open>
  Where a caller is: before its first \<open>Get\<close>; in attempt \<open>k\<close> holding its timeout timer; before
  the \<open>Get\<close> of the wait after attempt \<open>k\<close>; in that wait with both timers; about to put its
  timeout timer back; returned.
\<close>

datatype caller =
    Start
  | Running nat gotimer
  | NeedTimer nat gotimer
  | Waiting nat gotimer gotimer
  | Leaving gotimer
  | Done

type_synonym sharing = "timer_pool \<times> caller list"

inductive share_step :: "nat \<Rightarrow> sharing \<Rightarrow> sharing \<Rightarrow> bool" for m :: nat where
  enter: "i < length cs \<Longrightarrow> cs ! i = Start \<Longrightarrow> pool_Get now p = Ret (Some t, p') \<Longrightarrow>
    share_step m (p, cs) (p', cs[i := Running 0 t])"
| finish: "i < length cs \<Longrightarrow> cs ! i = Running k t \<Longrightarrow>
    share_step m (p, cs) (p, cs[i := Leaving t])"
| retry: "i < length cs \<Longrightarrow> cs ! i = Running k t \<Longrightarrow> k < m \<Longrightarrow>
    share_step m (p, cs) (p, cs[i := NeedTimer k t])"
| take_timer: "i < length cs \<Longrightarrow> cs ! i = NeedTimer k t \<Longrightarrow> pool_Get now p = Ret (Some t', p') \<Longrightarrow>
    share_step m (p, cs) (p', cs[i := Waiting k t t'])"
| resume: "i < length cs \<Longrightarrow> cs ! i = Waiting k t t' \<Longrightarrow> pool_Put now t' p = Ret p' \<Longrightarrow>
    share_step m (p, cs) (p', cs[i := Running (Suc k) t])"
| abort: "i < length cs \<Longrightarrow> cs ! i = Waiting k t t' \<Longrightarrow> pool_Put now t' p = Ret p' \<Longrightarrow>
    share_step m (p, cs) (p', cs[i := Leaving t])"
| leave: "i < length cs \<Longrightarrow> cs ! i = Leaving t \<Longrightarrow> pool_Put now t p = Ret p' \<Longrightarrow>
    share_step m (p, cs) (p', cs[i := Done])"

inductive_cases share_stepE: "share_step m s s'"

definition stuck :: "nat \<Rightarrow> sharing \<Rightarrow> bool" where
  "stuck m s \<longleftrightarrow> (\<nexists>s'. share_step m s s')"

definition all_done :: "sharing \<Rightarrow> bool" where
  "all_done s \<longleftrightarrow> list_all (\<lambda>c. c = Done) (snd s)"

section \<open>Conservation of timers\<close>

fun held :: "caller \<Rightarrow> nat" where
  "held Start = 0"
| "held (Running k t) = 1"
| "held (NeedTimer k t) = 1"
| "held (Waiting k t t') = 2"
| "held (Leaving t) = 1"
| "held Done = 0"

fun attempt_ok :: "nat \<Rightarrow> caller \<Rightarrow> bool" where
  "attempt_ok m (Running k t) = (k \<le> m)"
| "attempt_ok m (NeedTimer k t) = (k < m)"
| "attempt_ok m (Waiting k t t') = (k < m)"
| "attempt_ok m c = True"

definition share_inv :: "nat \<Rightarrow> nat \<Rightarrow> sharing \<Rightarrow> bool" where
  "share_inv m cap s \<longleftrightarrow>
     pool_open (fst s) \<and> tp_cap (fst s) = cap \<and>
     pool_idle (fst s) + sum_list (map held (snd s)) = cap \<and>
     list_all (attempt_ok m) (snd s)"

lemma sum_list_update:
  assumes "i < length cs"
  shows "sum_list (map f (cs[i := c])) + f (cs ! i) = sum_list (map f cs) + (f c :: nat)"
  using assms
  by (induction cs arbitrary: i) (auto split: nat.splits)

lemma sum_list_member:
  assumes "i < length cs"
  shows "(f (cs ! i) :: nat) \<le> sum_list (map f cs)"
  using elem_le_sum_list [of i "map f cs"] assms by simp

lemma list_all_update: "list_all P cs \<Longrightarrow> P c \<Longrightarrow> list_all P (cs[i := c])"
  by (auto simp: list_all_iff dest: subsetD [OF set_update_subset_insert])

lemma share_inv_put:
  assumes "share_inv m cap (p, cs)" and "i < length cs" and "held (cs ! i) = Suc (held c)"
    and "attempt_ok m c" and "pool_Put now t p = Ret p'"
  shows "share_inv m cap (p', cs[i := c])"
proof -
  have "sum_list (map held (cs[i := c])) + Suc (held c) = sum_list (map held cs) + held c"
    using sum_list_update [OF assms(2), of held c] assms(3) by simp
  moreover have "0 < pool_room p"
    using assms(1,2,3) sum_list_member [of i cs held]
    by (auto simp: share_inv_def pool_room_def pool_idle_def)
  from pool.put_idle [OF _ this, of now t] assms(1,5)
  have "pool_open p'" "pool_idle p' = Suc (pool_idle p)" by (auto simp: share_inv_def)
  ultimately show ?thesis
    using assms(1,4) pool_Put_frame [OF assms(5)]
    by (auto simp: share_inv_def list_all_update)
qed

lemma share_inv_get:
  assumes "share_inv m cap (p, cs)" and "i < length cs" and "held c = Suc (held (cs ! i))"
    and "attempt_ok m c" and "pool_Get now p = Ret (Some t, p')"
  shows "share_inv m cap (p', cs[i := c])"
proof -
  have "sum_list (map held (cs[i := c])) = Suc (sum_list (map held cs))"
    using sum_list_update [OF assms(2), of held c] assms(3) by simp
  moreover have "pool_open p'" "pool_idle p = Suc (pool_idle p')"
    using pool.get_idle [OF _ assms(5)] assms(1) by (auto simp: share_inv_def)
  ultimately show ?thesis
    using assms(1,4) pool_Get_frame [OF assms(5)]
    by (auto simp: share_inv_def list_all_update)
qed

lemma share_inv_move:
  assumes "share_inv m cap (p, cs)" and "i < length cs" and "held c = held (cs ! i)"
    and "attempt_ok m c"
  shows "share_inv m cap (p, cs[i := c])"
  using assms sum_list_update [OF assms(2), of held c] by (auto simp: share_inv_def list_all_update)

lemma attempt_ok_nth: "share_inv m cap (p, cs) \<Longrightarrow> i < length cs \<Longrightarrow> attempt_ok m (cs ! i)"
  by (simp add: share_inv_def list_all_length)

lemma share_step_inv: "share_step m s s' \<Longrightarrow> share_inv m cap s \<Longrightarrow> share_inv m cap s'"
proof (induction rule: share_step.induct)
  case (enter i cs now p t p')
  then show ?case by (intro share_inv_get [OF enter(4,1) _ _ enter(3)]) auto
next
  case (finish i cs k t p)
  then show ?case by (intro share_inv_move [OF finish(3,1)]) auto
next
  case (retry i cs k t p)
  then show ?case by (intro share_inv_move [OF retry(4,1)]) auto
next
  case (take_timer i cs k t now p t' p')
  with attempt_ok_nth [OF take_timer(4,1)] show ?case
    by (intro share_inv_get [OF take_timer(4,1) _ _ take_timer(3)]) auto
next
  case (resume i cs k t t' now p p')
  with attempt_ok_nth [OF resume(4,1)] show ?case
    by (intro share_inv_put [OF resume(4,1) _ _ resume(3)]) auto
next
  case (abort i cs k t t' now p p')
  then show ?case by (intro share_inv_put [OF abort(4,1) _ _ abort(3)]) auto
next
  case (leave i cs t now p p')
  then show ?case by (intro share_inv_put [OF leave(4,1) _ _ leave(3)]) auto
qed

lemma share_step_length: "share_step m s s' \<Longrightarrow> length (snd s') = length (snd s)"
  by (induction rule: share_step.induct) auto

text \<open>Every step brings some caller closer to its return.\<close>

fun remaining :: "nat \<Rightarrow> caller \<Rightarrow> nat" where
  "remaining m Start = 3 * m + 4"
| "remaining m (Running k t) = 3 * (m - k) + 3"
| "remaining m (NeedTimer k t) = 3 * (m - k) + 2"
| "remaining m (Waiting k t t') = 3 * (m - k) + 1"
| "remaining m (Leaving t) = 1"
| "remaining m Done = 0"

lemma sum_list_update_less:
  assumes "i < length cs" and "f c < f (cs ! i)"
  shows "sum_list (map f (cs[i := c])) < sum_list (map (f :: _ \<Rightarrow> nat) cs)"
  using sum_list_update [OF assms(1), of f c] assms(2) by linarith

lemma share_step_decreases:
  assumes "share_step m s s'" and "share_inv m cap s"
  shows "sum_list (map (remaining m) (snd s')) < sum_list (map (remaining m) (snd s))"
  using assms
proof (induction rule: share_step.induct)
  case (resume i cs k t t' now p p')
  from attempt_ok_nth [OF resume(4,1)] resume(1,2) show ?case
    by (auto intro!: sum_list_update_less)
next
  case (abort i cs k t t' now p p')
  from attempt_ok_nth [OF abort(4,1)] abort(1,2) show ?case
    by (auto intro!: sum_list_update_less)
qed (auto intro!: sum_list_update_less)

section \<open>Progress with few enough callers\<close>

lemma can_put:
  assumes "share_inv m cap (p, cs)" and "i < length cs" and "0 < held (cs ! i)"
  shows "\<exists>p'. pool_Put now t p = Ret p'"
proof -
  have "0 < pool_room p"
    using assms sum_list_member [of i cs held]
    by (auto simp: share_inv_def pool_room_def pool_idle_def)
  with pool.put_idle [of p now t] assms(1) show ?thesis by (auto simp: share_inv_def)
qed

lemma stuck_caller:
  assumes "share_inv m cap (p, cs)" and "stuck m (p, cs)" and "i < length cs"
  shows "held (cs ! i) \<le> 1 \<and> (cs ! i \<noteq> Done \<longrightarrow> pool_idle p = 0)"
proof -
  have blocked: "pool_idle p = 0" if "\<And>t p'. pool_Get 0 p \<noteq> Ret (Some t, p')"
    using pool.get_ready [of p 0] assms(1) that by (auto simp: share_inv_def)
  have no: "\<not> share_step m (p, cs) s" for s using assms(2) unfolding stuck_def by blast
  show ?thesis
  proof (cases "cs ! i")
    case Start
    have "pool_Get 0 p \<noteq> Ret (Some t, p')" for t p' using no enter [OF assms(3) Start] by blast
    with blocked Start show ?thesis by simp
  next
    case (NeedTimer k t)
    have "pool_Get 0 p \<noteq> Ret (Some t', p')" for t' p'
      using no take_timer [OF assms(3) NeedTimer] by blast
    with blocked NeedTimer show ?thesis by simp
  next
    case (Running k t)
    with no finish [OF assms(3) Running] show ?thesis by blast
  next
    case (Waiting k t t')
    with no abort [OF assms(3) Waiting] can_put [OF assms(1,3), of 0 t'] show ?thesis by fastforce
  next
    case (Leaving t)
    with no leave [OF assms(3) Leaving] can_put [OF assms(1,3), of 0 t] show ?thesis by fastforce
  qed simp
qed

lemma stuck_done:
  assumes "share_inv m cap (p, cs)" and "stuck m (p, cs)" and "length cs < cap"
  shows "all_done (p, cs)"
proof (rule ccontr)
  assume "\<not> all_done (p, cs)"
  then obtain i where "i < length cs" "cs ! i \<noteq> Done"
    by (auto simp: all_done_def list_all_length)
  with stuck_caller [OF assms(1,2)] have "pool_idle p = 0" by blast
  moreover have "sum_list (map held cs) \<le> sum_list (map (\<lambda>_. 1) cs)"
    using stuck_caller [OF assms(1,2)] by (intro sum_list_mono) (auto simp: in_set_conv_nth)
  ultimately show False using assms(1,3) by (simp add: share_inv_def sum_list_triv)
qed

lemma share_runs_inv:
  "(share_step m)\<^sup>*\<^sup>* s s' \<Longrightarrow> share_inv m cap s \<Longrightarrow>
     share_inv m cap s' \<and> length (snd s') = length (snd s)"
  by (induction rule: rtranclp_induct) (auto dest: share_step_inv share_step_length)

text \<open>From every state that satisfies the invariant some run ends in a stuck state.\<close>

lemma reaches_stuck:
  assumes "share_inv m cap s"
  shows "\<exists>s'. (share_step m)\<^sup>*\<^sup>* s s' \<and> stuck m s'"
  using assms
proof (induction "sum_list (map (remaining m) (snd s))" arbitrary: s rule: less_induct)
  case less
  show ?case
  proof (cases "stuck m s")
    case False
    then obtain s1 where s1: "share_step m s s1" unfolding stuck_def by blast
    from less.hyps [OF share_step_decreases [OF s1 less.prems] share_step_inv [OF s1 less.prems]]
    show ?thesis using s1 by (meson converse_rtranclp_into_rtranclp)
  qed (use rtranclp.rtrancl_refl in blast)
qed

lemma fresh_share_inv:
  assumes "NewTimerPool now (int cap) timeout = Ret p"
  shows "share_inv m cap (p, replicate n Start)"
  using NewTimerPool_Ret [of "int cap" now timeout] assms
  by (auto simp: share_inv_def pool_open_def pool_idle_def pool_Len_def list_all_length sum_list_replicate)

text \<open>
  (C15) Sharing a retrier among at most \<open>MaxRetries\<close> goroutines is safe. Start that many callers on
  a fresh pool with one timer per attempt. In every state that any interleaving can reach, either
  all of them have returned or some caller can take a step, and no interleaving goes on forever:
  the number of steps left is bounded by a measure that every step decreases.
\<close>

theorem sharing_completes:
  assumes "NewTimerPool now (int m + 1) timeout = Ret p" and "n \<le> m"
    and "(share_step m)\<^sup>*\<^sup>* (p, replicate n Start) s"
  shows "(stuck m s \<longrightarrow> all_done s) \<and> (\<exists>s'. (share_step m)\<^sup>*\<^sup>* s s' \<and> all_done s') \<and>
         (\<forall>s'. share_step m s s' \<longrightarrow>
            sum_list (map (remaining m) (snd s')) < sum_list (map (remaining m) (snd s)))"
proof -
  have "share_inv m (Suc m) (p, replicate n Start)"
    using fresh_share_inv [of now "Suc m"] assms(1) by (simp add: add.commute)
  from share_runs_inv [OF assms(3) this] have
    inv: "share_inv m (Suc m) s" and len: "length (snd s) = n" by auto
  have fin: "all_done s'" if "(share_step m)\<^sup>*\<^sup>* s s'" "stuck m s'" for s'
    using stuck_done [of m "Suc m" "fst s'" "snd s'"] share_runs_inv [OF that(1) inv] that(2) len assms(2)
    by simp
  from reaches_stuck [OF inv] fin have "\<exists>s'. (share_step m)\<^sup>*\<^sup>* s s' \<and> all_done s'" by blast
  with fin [OF rtranclp.rtrancl_refl] share_step_decreases [OF _ inv] show ?thesis by blast
qed

theorem sharing_completes_witness:
  "\<exists>p. NewTimerPool 0 3 1000 = Ret p \<and>
     (\<exists>s. (share_step 2)\<^sup>*\<^sup>* (p, replicate 2 Start) s \<and> all_done s)"
proof -
  obtain p where p: "NewTimerPool 0 (int 2 + 1) 1000 = Ret p"
    using NewTimerPool_Ret [of 3 0 1000] by auto
  from sharing_completes [OF p order_refl rtranclp.rtrancl_refl] p show ?thesis by auto
qed

section \<open>Deadlock with one caller more\<close>

text \<open>Callers \<open>0, ..., n-1\<close> have entered one after the other and are about to wait.\<close>

lemma sum_list_held:
  "list_all (\<lambda>c. \<exists>t. c = NeedTimer 0 t) cs \<Longrightarrow> sum_list (map held cs) = length cs"
  by (induction cs) auto

lemma enter_all:
  assumes "share_inv m cap (p, replicate n Start)" and "n \<le> cap" and "0 < m"
  shows "\<exists>p' cs. (share_step m)\<^sup>*\<^sup>* (p, replicate n Start) (p', cs) \<and> length cs = n \<and>
           list_all (\<lambda>c. \<exists>t. c = NeedTimer 0 t) cs"
proof -
  have "k \<le> n \<Longrightarrow> \<exists>p' cs. (share_step m)\<^sup>*\<^sup>* (p, replicate n Start) (p', cs @ replicate (n - k) Start) \<and>
      length cs = k \<and> list_all (\<lambda>c. \<exists>t. c = NeedTimer 0 t) cs" for k
  proof (induction k)
    case (Suc k)
    then obtain p1 cs where r: "(share_step m)\<^sup>*\<^sup>* (p, replicate n Start) (p1, cs @ replicate (n - k) Start)"
      and cs: "length cs = k" "list_all (\<lambda>c. \<exists>t. c = NeedTimer 0 t) cs" by auto
    have rep: "replicate (n - k) Start = Start # replicate (n - Suc k) Start"
      using Suc.prems by (metis Suc_diff_Suc Suc_le_lessD replicate_Suc)
    from share_runs_inv [OF r assms(1)] have inv: "share_inv m cap (p1, cs @ replicate (n - k) Start)"
      by simp
    have "0 < pool_idle p1" using inv assms(2) Suc.prems sum_list_held [OF cs(2)] cs(1)
      by (simp add: share_inv_def sum_list_replicate)
    with pool.get_ready [of p1 0] inv obtain t p2 where g: "pool_Get 0 p1 = Ret (Some t, p2)"
      by (auto simp: share_inv_def)
    have nth: "(cs @ c # ds) ! k = c" and upd: "(cs @ c # ds)[k := c'] = cs @ c' # ds" for c c' ds
      using cs(1) by auto
    have "share_step m (p1, cs @ Start # replicate (n - Suc k) Start)
        (p2, cs @ Running 0 t # replicate (n - Suc k) Start)"
      using enter [of k "cs @ Start # replicate (n - Suc k) Start" 0 p1 t p2 m] cs(1) g
      by (simp add: nth upd)
    moreover have "share_step m (p2, cs @ Running 0 t # replicate (n - Suc k) Start)
        (p2, cs @ NeedTimer 0 t # replicate (n - Suc k) Start)"
      using retry [of k "cs @ Running 0 t # replicate (n - Suc k) Start" 0 t m p2] cs(1) assms(3)
      by (simp add: nth upd)
    ultimately have "(share_step m)\<^sup>*\<^sup>* (p, replicate n Start)
        (p2, (cs @ [NeedTimer 0 t]) @ replicate (n - Suc k) Start)"
      using r rep by (simp add: rtranclp.rtrancl_into_rtrancl)
    then show ?case using cs by (intro exI [of _ p2] exI [of _ "cs @ [NeedTimer 0 t]"]) simp
  qed (auto intro!: exI [of _ p])
  from this [of n] show ?thesis by simp
qed

lemma all_need_stuck:
  assumes "pool_Get 0 p = Block" and "list_all (\<lambda>c. \<exists>t. c = NeedTimer 0 t) cs"
  shows "stuck m (p, cs)"
proof -
  have "pool_Get now p \<noteq> Ret (Some t, p')" for now t p'
    using assms(1) by (auto simp: pool_Get_def split: list.splits if_splits)
  with assms(2) show ?thesis
    by (force simp: stuck_def list_all_length elim!: share_stepE)
qed

text \<open>
  (C16) Sharing deadlock. With \<open>MaxRetries\<close> at least one, \<open>MaxRetries + 1\<close> goroutines that use
  one retrier at the same time can all take their timeout timer and then all need a timer for
  their first wait: the pool is empty, every caller blocks in \<open>Get\<close>, none of them has returned,
  and none can ever take another step. Neither the timeout nor a cancelled context ends this,
  because the blocking receive is outside every \<open>select\<close>.
\<close>

theorem sharing_deadlock:
  assumes "NewTimerPool now (int m + 1) timeout = Ret p" and "0 < m"
  shows "\<exists>s. (share_step m)\<^sup>*\<^sup>* (p, replicate (m + 1) Start) s \<and> stuck m s \<and> \<not> all_done s \<and>
           pool_Get 0 (fst s) = Block \<and> list_all (\<lambda>c. \<exists>t. c = NeedTimer 0 t) (snd s)"
proof -
  have i: "share_inv m (Suc m) (p, replicate (m + 1) Start)"
    by (rule fresh_share_inv [of now "Suc m" timeout]) (use assms(1) in \<open>simp add: add.commute\<close>)
  from enter_all [OF i _ assms(2)] obtain p' cs where
    r: "(share_step m)\<^sup>*\<^sup>* (p, replicate (m + 1) Start) (p', cs)" and
    cs: "length cs = m + 1" "list_all (\<lambda>c. \<exists>t. c = NeedTimer 0 t) cs" by auto
  have inv: "share_inv m (Suc m) (p', cs)" using share_runs_inv [OF r i] by simp
  have "pool_idle p' = 0" using inv cs(1) sum_list_held [OF cs(2)] by (simp add: share_inv_def)
  then have g: "pool_Get 0 p' = Block"
    using inv by (simp add: share_inv_def pool_idle_def pool_open_def pool_Get_def)
  have "\<not> all_done (p', cs)" using cs by (cases cs) (auto simp: all_done_def)
  with r all_need_stuck [OF g cs(2)] g cs(2) show ?thesis by auto
qed

theorem sharing_deadlock_witness:
  "\<exists>p s. NewTimerPool 0 2 1000 = Ret p \<and> (share_step 1)\<^sup>*\<^sup>* (p, [Start, Start]) s \<and>
     stuck 1 s \<and> \<not> all_done s"
proof -
  obtain p where p: "NewTimerPool 0 (int 1 + 1) 1000 = Ret p"
    using NewTimerPool_Ret [of 2 0 1000] by auto
  have "replicate (1 + 1) Start = [Start, Start]" by (simp add: numeral_2_eq_2)
  with sharing_deadlock [OF p] p show ?thesis by auto
qed

end
