(* ===== verification/Scheduler_Types.thy ===== *)
theory Scheduler_Types
  imports Retrier "HOL-Library.AList" "HOL-Library.List_Lexorder" "HOL-Library.Char_ord"
begin

text \<open>
  \<open>pkg/scheduler/types.go\<close>: the data of the scheduler, and the interface \<open>JobsStorage\<close> of
  \<open>storage.go\<close> as a record of operations on an arbitrary storage state.
\<close>

section \<open>Data\<close>

text \<open>
  A \<open>time.Time\<close> is \<open>None\<close> for the zero time (\<open>IsZero\<close>) and otherwise its \<open>UnixNano\<close>.
  Strings are byte lists; the library's lexicographic order on them is the byte order of Go.
  A header map is the list of its pairs in the order in which a \<open>range\<close> visits them.
\<close>

type_synonym gotime = "instant option"

record Schedule =
  sc_Every :: duration
  sc_StartAt :: gotime
  sc_EndAt :: gotime
  sc_MaxRuns :: int

record Request =
  rq_Method :: string
  rq_URL :: string
  rq_Headers :: "(string \<times> string) list"
  rq_Body :: string
  rq_Timeout :: duration

record Callback =
  cb_URL :: string
  cb_Method :: string
  cb_Headers :: "(string \<times> string) list"
  cb_Timeout :: duration
  cb_MaxBodyBytes :: int

record RetryPolicy =
  rp_Retrier :: "retrier option"
  rp_TemporaryErrors :: "goerr list"
  rp_RetryStatusCodes :: "int list"

record Job =
  j_ID :: string
  j_Schedule :: Schedule
  j_Request :: Request
  j_Callback :: Callback
  j_RetryPolicy :: RetryPolicy

record CallbackPayload =
  cp_JobID :: string
  cp_ScheduledAt :: gotime
  cp_StartedAt :: gotime
  cp_FinishedAt :: gotime
  cp_Attempts :: int
  cp_Success :: bool
  cp_StatusCode :: int
  cp_Error :: string
  cp_ResponseBody :: string

text \<open>\<open>JobState\<close> is a string type with six named values.\<close>

datatype JobState =
    JobStateScheduled
  | JobStateRunning
  | JobStateCompleted
  | JobStateCanceled
  | JobStateRemoved
  | JobStateStopped
  | JobStateOther string

record JobStatus =
  st_JobID :: string
  st_State :: JobState
  st_CreatedAt :: gotime
  st_UpdatedAt :: gotime
  st_Runs :: int
  st_ActiveRuns :: int
  st_LastRun :: "CallbackPayload option"

record JobRun =
  jr_Sequence :: int
  jr_Payload :: CallbackPayload

record JobStatusQuery =
  sq_IDs :: "string list"
  sq_States :: "JobState list"
  sq_Offset :: int
  sq_Limit :: int

record JobHistoryQuery =
  hq_FromSequence :: int
  hq_Limit :: int

section \<open>The storage interface\<close>

text \<open>
  A context is the error it is done with, if it is done. A clock gives the successive readings of
  \<open>time.Now()\<close> during one operation. A read returns the storage as well, because it may use up
  part of the environment a storage implementation carries.
\<close>

type_synonym ctx = "goerr option"
type_synonym clock = "nat \<Rightarrow> instant"

record 's JobsStorage =
  Save :: "ctx \<Rightarrow> Job \<Rightarrow> 's \<Rightarrow> goerr option \<times> 's"
  Delete :: "ctx \<Rightarrow> string \<Rightarrow> 's \<Rightarrow> bool \<times> 's"
  Exists :: "ctx \<Rightarrow> string \<Rightarrow> 's \<Rightarrow> bool \<times> 's"
  Count :: "ctx \<Rightarrow> 's \<Rightarrow> int \<times> 's"
  IDs :: "ctx \<Rightarrow> 's \<Rightarrow> string list \<times> 's"
  UpsertStatus :: "ctx \<Rightarrow> clock \<Rightarrow> string \<Rightarrow> JobState \<Rightarrow> 's \<Rightarrow> goerr option \<times> 's"
  MarkRemoved :: "ctx \<Rightarrow> clock \<Rightarrow> string \<Rightarrow> 's \<Rightarrow> goerr option \<times> 's"
  MarkTerminal :: "ctx \<Rightarrow> clock \<Rightarrow> string \<Rightarrow> JobState \<Rightarrow> 's \<Rightarrow> goerr option \<times> 's"
  MarkExecutionStart :: "ctx \<Rightarrow> clock \<Rightarrow> string \<Rightarrow> 's \<Rightarrow> goerr option \<times> 's"
  RecordExecutionResult ::
    "ctx \<Rightarrow> clock \<Rightarrow> string \<Rightarrow> CallbackPayload \<Rightarrow> int \<Rightarrow> 's \<Rightarrow> goerr option \<times> 's"
  State :: "ctx \<Rightarrow> string \<Rightarrow> 's \<Rightarrow> JobState option \<times> 's"
  Status :: "ctx \<Rightarrow> string \<Rightarrow> 's \<Rightarrow> JobStatus option \<times> 's"
  Statuses :: "ctx \<Rightarrow> 's \<Rightarrow> JobStatus list \<times> 's"
  History :: "ctx \<Rightarrow> string \<Rightarrow> 's \<Rightarrow> JobRun list option \<times> 's"

definition defaultHistoryLimit :: int where "defaultHistoryLimit = 20"
definition defaultCallbackMaxBodySize :: int where "defaultCallbackMaxBodySize = 4096"
definition defaultCallbackMethod :: string where "defaultCallbackMethod = ''POST''"

section \<open>Association lists and sorting\<close>

text \<open>
  A Go map is an association list with distinct keys; which list represents it is the iteration
  order of the moment.
\<close>

lemma map_of_update [simp]: "map_of (AList.update k v al) = (map_of al)(k \<mapsto> v)"
  by (rule update_conv')

lemma map_of_delete [simp]: "map_of (AList.delete k al) = (map_of al)(k := None)"
  by (rule delete_conv')

lemma sorted_distinct_unique:
  "sorted xs \<Longrightarrow> distinct xs \<Longrightarrow> sorted ys \<Longrightarrow> distinct ys \<Longrightarrow> set xs = set ys \<Longrightarrow> xs = ys"
  by (rule sorted_distinct_set_unique)

text \<open>
  Sorting by a key that is injective on the elements does not depend on their order: every sorted
  arrangement of the elements is the result.
\<close>

lemma sort_key_eqI:
  assumes "set ys = set xs" and "distinct (map f xs)" and "distinct ys" and "sorted (map f ys)"
  shows "sort_key f xs = ys"
proof (rule map_inj_on [of f])
  have inj: "inj_on f (set xs)" using assms(2) by (simp add: distinct_map)
  show "map f (sort_key f xs) = map f ys"
    by (rule sorted_distinct_unique) (use assms inj in \<open>auto simp: distinct_map\<close>)
  show "inj_on f (set (sort_key f xs) \<union> set ys)" using inj assms(1) by simp
qed

lemma sort_key_determined:
  assumes "set xs = set ys" and "distinct (map f xs)" and "distinct (map f ys)"
  shows "sort_key f xs = sort_key f ys"
  by (rule sort_key_eqI) (use assms in \<open>auto simp: distinct_map\<close>)

lemma sort_determined:
  "set xs = set ys \<Longrightarrow> distinct xs \<Longrightarrow> distinct ys \<Longrightarrow> sort xs = sort (ys :: 'a :: linorder list)"
  using sort_key_determined [of xs ys "\<lambda>x. x"] by simp

end
