(* ===== verification/Store_Contract.thy ===== *)
theory Store_Contract
  imports Scheduler_Types "HOL-Library.Sublist"
begin

text \<open>
  What every \<open>JobsStorage\<close> promises the scheduler. An abstract store is the set of registered
  job identifiers and, per identifier, a status entry; the operations are transitions of it. The
  locale \<open>jobs_store\<close> says that an implementation either performs the transition or reports an
  error and changes nothing, and that a read reports the abstract store or nothing. The locale
  \<open>reliable_jobs_store\<close> adds when an operation cannot fail. The in-memory storage implements both
  in \<open>Jobs_Storage\<close>, the SQLite storage in \<open>Sqlite_Refinement\<close>.
\<close>

section \<open>Status entries\<close>

record jobStatusEntry =
  e_status :: JobStatus
  e_history :: "JobRun list"
  e_activeRuns :: int
  e_terminal :: bool
  e_lastSequence :: int

definition cloneCallbackPayload :: "CallbackPayload \<Rightarrow> CallbackPayload" where
  "cloneCallbackPayload payload = payload"

definition cloneJobStatus :: "JobStatus \<Rightarrow> JobStatus" where
  "cloneJobStatus status =
     (case st_LastRun status of
        None \<Rightarrow> status
      | Some l \<Rightarrow> status\<lparr>st_LastRun := Some (cloneCallbackPayload l)\<rparr>)"

definition cloneJobRun :: "JobRun \<Rightarrow> JobRun" where
  "cloneJobRun run = run\<lparr>jr_Payload := cloneCallbackPayload (jr_Payload run)\<rparr>"

text \<open>The zero value of a new entry, with its identifier and creation time.\<close>

definition new_entry :: "string \<Rightarrow> instant \<Rightarrow> jobStatusEntry" where
  "new_entry jid now = \<lparr>e_status = \<lparr>st_JobID = jid, st_State = JobStateOther '''', st_CreatedAt = Some now,
       st_UpdatedAt = None, st_Runs = 0, st_ActiveRuns = 0, st_LastRun = None\<rparr>,
     e_history = [], e_activeRuns = 0, e_terminal = False, e_lastSequence = 0\<rparr>"

lemma clones [simp]:
  "cloneCallbackPayload p = p" "cloneJobStatus st = st" "cloneJobRun run = run" "map cloneJobRun rs = rs"
proof -
  show a: "cloneCallbackPayload p = p" for p by (simp add: cloneCallbackPayload_def)
  show "cloneJobStatus st = st"
    by (cases st) (simp add: cloneJobStatus_def a split: option.split)
  show b: "cloneJobRun run = run" for run by (cases run) (simp add: cloneJobRun_def a)
  show "map cloneJobRun rs = rs" by (simp add: b map_idI)
qed

section \<open>The abstract store\<close>

record astore =
  as_jobs :: "string set"
  as_status :: "string \<Rightarrow> jobStatusEntry option"

definition upsert_entry :: "JobState \<Rightarrow> instant \<Rightarrow> jobStatusEntry \<Rightarrow> jobStatusEntry" where
  "upsert_entry state now e =
     e\<lparr>e_status := (e_status e)\<lparr>st_State := state, st_UpdatedAt := Some now\<rparr>\<rparr>"

definition terminal_entry :: "JobState \<Rightarrow> instant \<Rightarrow> jobStatusEntry \<Rightarrow> jobStatusEntry" where
  "terminal_entry state now e =
     e\<lparr>e_terminal := True, e_status := (e_status e)\<lparr>st_State := state,
         st_ActiveRuns := e_activeRuns e, st_UpdatedAt := Some now\<rparr>\<rparr>"

definition start_entry :: "instant \<Rightarrow> jobStatusEntry \<Rightarrow> jobStatusEntry" where
  "start_entry now e =
     e\<lparr>e_activeRuns := e_activeRuns e + 1, e_status := (e_status e)\<lparr>
         st_State := (if e_terminal e then st_State (e_status e) else JobStateRunning),
         st_ActiveRuns := e_activeRuns e + 1, st_UpdatedAt := Some now\<rparr>\<rparr>"

definition next_run :: "CallbackPayload \<Rightarrow> jobStatusEntry \<Rightarrow> JobRun" where
  "next_run payload e = \<lparr>jr_Sequence = e_lastSequence e + 1, jr_Payload = payload\<rparr>"

definition result_entry ::
  "JobRun list \<Rightarrow> instant \<Rightarrow> CallbackPayload \<Rightarrow> jobStatusEntry \<Rightarrow> jobStatusEntry" where
  "result_entry hist now payload e =
     (let active = (if e_activeRuns e > 0 then e_activeRuns e - 1 else e_activeRuns e) in
      e\<lparr>e_lastSequence := e_lastSequence e + 1, e_history := hist, e_activeRuns := active,
        e_status := (e_status e)\<lparr>
          st_State := (if e_terminal e then st_State (e_status e)
                       else if active > 0 then JobStateRunning else JobStateScheduled),
          st_UpdatedAt := Some now, st_Runs := e_lastSequence e + 1, st_ActiveRuns := active,
          st_LastRun := Some payload\<rparr>\<rparr>)"

definition effective_limit :: "int \<Rightarrow> int" where
  "effective_limit limit = (if limit \<le> 0 then defaultHistoryLimit else limit)"

lemma effective_limit_pos [simp]: "0 < effective_limit limit"
  by (simp add: effective_limit_def defaultHistoryLimit_def)

text \<open>The abstract effect of the operations on the status of one job.\<close>

definition set_entry :: "string \<Rightarrow> jobStatusEntry \<Rightarrow> astore \<Rightarrow> astore" where
  "set_entry jid e a = a\<lparr>as_status := (as_status a)(jid \<mapsto> e)\<rparr>"

inductive upsert_rel :: "clock \<Rightarrow> string \<Rightarrow> JobState \<Rightarrow> astore \<Rightarrow> astore \<Rightarrow> bool" where
  upsert_new: "as_status a jid = None \<Longrightarrow>
    upsert_rel now jid state a (set_entry jid (upsert_entry state (now i) (new_entry jid (now i))) a)"
| upsert_old: "as_status a jid = Some e \<Longrightarrow>
    upsert_rel now jid state a (set_entry jid (upsert_entry state (now i) e) a)"

inductive update_rel ::
  "(jobStatusEntry \<Rightarrow> jobStatusEntry \<Rightarrow> bool) \<Rightarrow> string \<Rightarrow> astore \<Rightarrow> astore \<Rightarrow> bool" where
  update_absent: "as_status a jid = None \<Longrightarrow> update_rel R jid a a"
| update_present: "as_status a jid = Some e \<Longrightarrow> R e e' \<Longrightarrow> update_rel R jid a (set_entry jid e' a)"

definition removed_rel :: "clock \<Rightarrow> jobStatusEntry \<Rightarrow> jobStatusEntry \<Rightarrow> bool" where
  "removed_rel now e e' \<longleftrightarrow> (\<exists>i. e' = terminal_entry JobStateRemoved (now i) e)"

definition terminal_rel :: "clock \<Rightarrow> JobState \<Rightarrow> jobStatusEntry \<Rightarrow> jobStatusEntry \<Rightarrow> bool" where
  "terminal_rel now state e e' \<longleftrightarrow>
     (if e_terminal e then e' = e else (\<exists>i. e' = terminal_entry state (now i) e))"

definition start_rel :: "clock \<Rightarrow> jobStatusEntry \<Rightarrow> jobStatusEntry \<Rightarrow> bool" where
  "start_rel now e e' \<longleftrightarrow> (\<exists>i. e' = start_entry (now i) e)"

definition result_rel ::
  "clock \<Rightarrow> CallbackPayload \<Rightarrow> int \<Rightarrow> jobStatusEntry \<Rightarrow> jobStatusEntry \<Rightarrow> bool" where
  "result_rel now payload limit e e' \<longleftrightarrow>
     (\<exists>i hist. e' = result_entry hist (now i) payload e \<and>
        subseq hist (e_history e @ [next_run payload e]) \<and>
        int (length hist) \<le> effective_limit limit)"

lemma set_entry_simps [simp]:
  "as_jobs (set_entry jid e a) = as_jobs a"
  "as_status (set_entry jid e a) = (as_status a)(jid \<mapsto> e)"
  by (simp_all add: set_entry_def)

text \<open>The errors a storage reports for its own failures, and the states it is given to store.\<close>

definition storage_error :: "goerr \<Rightarrow> bool" where
  "storage_error e \<longleftrightarrow> (\<exists>f as. e = Wrapf ErrStorageOperation f as)"

definition named_state :: "JobState \<Rightarrow> bool" where
  "named_state st \<longleftrightarrow> (\<forall>x. st \<noteq> JobStateOther x)"

lemma named_states [simp]:
  "named_state JobStateScheduled" "named_state JobStateRunning" "named_state JobStateCompleted"
  "named_state JobStateCanceled" "named_state JobStateRemoved" "named_state JobStateStopped"
  by (simp_all add: named_state_def)

definition all_statuses :: "astore \<Rightarrow> JobStatus list" where
  "all_statuses a =
     map (\<lambda>i. e_status (the (as_status a i))) (sorted_list_of_set (dom (as_status a)))"

section \<open>The contract\<close>

text \<open>
  \<open>okid\<close> and \<open>okpay\<close> are the identifiers and payloads the storage can represent. Every write
  either makes its transition or reports an error and leaves the abstract store alone.
\<close>

locale jobs_store =
  fixes ops :: "'s JobsStorage" and abs :: "'s \<Rightarrow> astore" and invar :: "'s \<Rightarrow> bool"
    and okid :: "string \<Rightarrow> bool" and okpay :: "CallbackPayload \<Rightarrow> bool"
  assumes fin: "invar s \<Longrightarrow> finite (as_jobs (abs s)) \<and> finite (dom (as_status (abs s)))"
    and save: "invar s \<Longrightarrow> Save ops c job s = (r, s') \<Longrightarrow> invar s' \<and>
      (case r of
         None \<Rightarrow> j_ID job \<notin> as_jobs (abs s) \<and>
                 abs s' = (abs s)\<lparr>as_jobs := insert (j_ID job) (as_jobs (abs s))\<rparr>
       | Some e \<Rightarrow> abs s' = abs s \<and>
           (j_ID job \<in> as_jobs (abs s) \<and>
              e = Wrapf errJobAlreadyExists ''job ID: %s'' [FStr (j_ID job)] \<or> storage_error e))"
    and delete: "invar s \<Longrightarrow> Delete ops c jid s = (b, s') \<Longrightarrow> invar s' \<and>
      as_status (abs s') = as_status (abs s) \<and>
      (as_jobs (abs s') = as_jobs (abs s) - {jid} \<or> \<not> b \<and> as_jobs (abs s') = as_jobs (abs s)) \<and>
      (b \<longrightarrow> jid \<in> as_jobs (abs s))"
    and upsert: "invar s \<Longrightarrow> okid jid \<Longrightarrow> named_state st \<Longrightarrow>
      UpsertStatus ops c now jid st s = (r, s') \<Longrightarrow> invar s' \<and>
      (if r = None then upsert_rel now jid st (abs s) (abs s') else abs s' = abs s)"
    and removed: "invar s \<Longrightarrow> MarkRemoved ops c now jid s = (r, s') \<Longrightarrow> invar s' \<and>
      (if r = None then update_rel (removed_rel now) jid (abs s) (abs s') else abs s' = abs s)"
    and terminal: "invar s \<Longrightarrow> named_state st \<Longrightarrow>
      MarkTerminal ops c now jid st s = (r, s') \<Longrightarrow> invar s' \<and>
      (if r = None then update_rel (terminal_rel now st) jid (abs s) (abs s') else abs s' = abs s)"
    and start: "invar s \<Longrightarrow> MarkExecutionStart ops c now jid s = (r, s') \<Longrightarrow> invar s' \<and>
      (if r = None then update_rel (start_rel now) jid (abs s) (abs s') else abs s' = abs s)"
    and result: "invar s \<Longrightarrow> okpay p \<Longrightarrow>
      RecordExecutionResult ops c now jid p limit s = (r, s') \<Longrightarrow> invar s' \<and>
      (if r = None then update_rel (result_rel now p limit) jid (abs s) (abs s') else abs s' = abs s)"
    and exist: "invar s \<Longrightarrow> Exists ops c jid s = (b, s') \<Longrightarrow> invar s' \<and> abs s' = abs s \<and>
      (b \<longrightarrow> jid \<in> as_jobs (abs s))"
    and count: "invar s \<Longrightarrow> Count ops c s = (n, s') \<Longrightarrow> invar s' \<and> abs s' = abs s \<and>
      (n = 0 \<or> n = int (card (as_jobs (abs s))))"
    and ids: "invar s \<Longrightarrow> IDs ops c s = (xs, s') \<Longrightarrow> invar s' \<and> abs s' = abs s \<and>
      (xs = [] \<or> xs = sorted_list_of_set (as_jobs (abs s)))"
    and state: "invar s \<Longrightarrow> State ops c jid s = (x, s') \<Longrightarrow> invar s' \<and> abs s' = abs s \<and>
      (x = None \<or> x = map_option (\<lambda>e. st_State (e_status e)) (as_status (abs s) jid))"
    and status: "invar s \<Longrightarrow> Status ops c jid s = (y, s') \<Longrightarrow> invar s' \<and> abs s' = abs s \<and>
      (y = None \<or> y = map_option e_status (as_status (abs s) jid))"
    and statuses: "invar s \<Longrightarrow> Statuses ops c s = (ys, s') \<Longrightarrow> invar s' \<and> abs s' = abs s \<and>
      (ys = [] \<or> ys = all_statuses (abs s))"
    and history: "invar s \<Longrightarrow> History ops c jid s = (h, s') \<Longrightarrow> invar s' \<and> abs s' = abs s \<and>
      (h = None \<or> h = map_option e_history (as_status (abs s) jid))"

text \<open>When the storage cannot fail, every operation gives its answer.\<close>

locale reliable_jobs_store = jobs_store +
  fixes reliable :: "ctx \<Rightarrow> 's \<Rightarrow> bool"
  assumes rel_save: "invar s \<Longrightarrow> reliable c s \<Longrightarrow> Save ops c job s = (r, s') \<Longrightarrow>
      reliable c s' \<and>
      r = (if j_ID job \<in> as_jobs (abs s)
           then Some (Wrapf errJobAlreadyExists ''job ID: %s'' [FStr (j_ID job)]) else None)"
    and rel_delete: "invar s \<Longrightarrow> reliable c s \<Longrightarrow> Delete ops c jid s = (b, s') \<Longrightarrow>
      reliable c s' \<and> b = (jid \<in> as_jobs (abs s)) \<and> as_jobs (abs s') = as_jobs (abs s) - {jid}"
    and rel_upsert: "invar s \<Longrightarrow> reliable c s \<Longrightarrow> okid jid \<Longrightarrow> named_state st \<Longrightarrow>
      UpsertStatus ops c now jid st s = (r, s') \<Longrightarrow> reliable c s' \<and> r = None"
    and rel_removed: "invar s \<Longrightarrow> reliable c s \<Longrightarrow> MarkRemoved ops c now jid s = (r, s') \<Longrightarrow>
      reliable c s' \<and> r = None"
    and rel_terminal: "invar s \<Longrightarrow> reliable c s \<Longrightarrow> named_state st \<Longrightarrow>
      MarkTerminal ops c now jid st s = (r, s') \<Longrightarrow> reliable c s' \<and> r = None"
    and rel_start: "invar s \<Longrightarrow> reliable c s \<Longrightarrow> MarkExecutionStart ops c now jid s = (r, s') \<Longrightarrow>
      reliable c s' \<and> r = None"
    and rel_result: "invar s \<Longrightarrow> reliable c s \<Longrightarrow> okpay p \<Longrightarrow>
      RecordExecutionResult ops c now jid p limit s = (r, s') \<Longrightarrow> reliable c s' \<and> r = None"
    and rel_ids: "invar s \<Longrightarrow> reliable c s \<Longrightarrow> IDs ops c s = (xs, s') \<Longrightarrow>
      reliable c s' \<and> xs = sorted_list_of_set (as_jobs (abs s))"
    and rel_count: "invar s \<Longrightarrow> reliable c s \<Longrightarrow> Count ops c s = (n, s') \<Longrightarrow>
      reliable c s' \<and> n = int (card (as_jobs (abs s)))"
    and rel_exist: "invar s \<Longrightarrow> reliable c s \<Longrightarrow> Exists ops c jid s = (b, s') \<Longrightarrow>
      reliable c s' \<and> b = (jid \<in> as_jobs (abs s))"
    and rel_state: "invar s \<Longrightarrow> reliable c s \<Longrightarrow> State ops c jid s = (x, s') \<Longrightarrow>
      reliable c s' \<and> x = map_option (\<lambda>e. st_State (e_status e)) (as_status (abs s) jid)"
    and rel_status: "invar s \<Longrightarrow> reliable c s \<Longrightarrow> Status ops c jid s = (y, s') \<Longrightarrow>
      reliable c s' \<and> y = map_option e_status (as_status (abs s) jid)"
    and rel_statuses: "invar s \<Longrightarrow> reliable c s \<Longrightarrow> Statuses ops c s = (ys, s') \<Longrightarrow>
      reliable c s' \<and> ys = all_statuses (abs s)"
    and rel_history: "invar s \<Longrightarrow> reliable c s \<Longrightarrow> History ops c jid s = (h, s') \<Longrightarrow>
      reliable c s' \<and> h = map_option e_history (as_status (abs s) jid)"

end
