(* ===== verification/Store_Histories.thy ===== *)
theory Store_Histories
  imports Store_Contract
begin

text \<open>
  Histories of storage operations. Sequences of writes on any storage that keeps the contract
  preserve the well-formedness of the status entries, never change a terminal state except by the
  two operations meant to, and account for every execution. The lemmas are proved once in the
  contract locales and used for the in-memory and the SQLite storage.
\<close>

section \<open>Sequences of writes\<close>

datatype store_op =
    OSave ctx Job
  | ODelete ctx string
  | OUpsert ctx clock string JobState
  | ORemoved ctx clock string
  | OTerminal ctx clock string JobState
  | OStart ctx clock string
  | OResult ctx clock string CallbackPayload int

fun apply_op :: "'s JobsStorage \<Rightarrow> store_op \<Rightarrow> 's \<Rightarrow> 's" where
  "apply_op ops (OSave c job) s = snd (Save ops c job s)"
| "apply_op ops (ODelete c jid) s = snd (Delete ops c jid s)"
| "apply_op ops (OUpsert c now jid st) s = snd (UpsertStatus ops c now jid st s)"
| "apply_op ops (ORemoved c now jid) s = snd (MarkRemoved ops c now jid s)"
| "apply_op ops (OTerminal c now jid st) s = snd (MarkTerminal ops c now jid st s)"
| "apply_op ops (OStart c now jid) s = snd (MarkExecutionStart ops c now jid s)"
| "apply_op ops (OResult c now jid p limit) s = snd (RecordExecutionResult ops c now jid p limit s)"

fun run_ops :: "'s JobsStorage \<Rightarrow> store_op list \<Rightarrow> 's \<Rightarrow> 's" where
  "run_ops ops [] s = s"
| "run_ops ops (x # xs) s = run_ops ops xs (apply_op ops x s)"

fun op_ctx :: "store_op \<Rightarrow> ctx" where
  "op_ctx (OSave c job) = c"
| "op_ctx (ODelete c jid) = c"
| "op_ctx (OUpsert c now jid st) = c"
| "op_ctx (ORemoved c now jid) = c"
| "op_ctx (OTerminal c now jid st) = c"
| "op_ctx (OStart c now jid) = c"
| "op_ctx (OResult c now jid p limit) = c"

text \<open>The arguments are ones the storage can represent.\<close>

fun op_ok :: "(string \<Rightarrow> bool) \<Rightarrow> (CallbackPayload \<Rightarrow> bool) \<Rightarrow> store_op \<Rightarrow> bool" where
  "op_ok okid okpay (OUpsert c now jid st) = (okid jid \<and> named_state st)"
| "op_ok okid okpay (OTerminal c now jid st) = named_state st"
| "op_ok okid okpay (OResult c now jid p limit) = okpay p"
| "op_ok okid okpay x = True"

text \<open>The abstract effect of a write that succeeds.\<close>

fun op_rel :: "store_op \<Rightarrow> astore \<Rightarrow> astore \<Rightarrow> bool" where
  "op_rel (OSave c job) a a' = (as_status a' = as_status a)"
| "op_rel (ODelete c jid) a a' = (as_status a' = as_status a)"
| "op_rel (OUpsert c now jid st) a a' = upsert_rel now jid st a a'"
| "op_rel (ORemoved c now jid) a a' = update_rel (removed_rel now) jid a a'"
| "op_rel (OTerminal c now jid st) a a' = update_rel (terminal_rel now st) jid a a'"
| "op_rel (OStart c now jid) a a' = update_rel (start_rel now) jid a a'"
| "op_rel (OResult c now jid p limit) a a' = update_rel (result_rel now p limit) jid a a'"

context jobs_store
begin

lemma apply_op_rel:
  assumes "invar s" and "op_ok okid okpay x"
  shows "invar (apply_op ops x s) \<and> (abs (apply_op ops x s) = abs s \<or> op_rel x (abs s) (abs (apply_op ops x s)))"
proof (cases x)
  case (OSave c job)
  obtain r s' where r: "Save ops c job s = (r, s')" by fastforce
  from save [OF assms(1) r] r OSave show ?thesis by (auto split: option.splits)
next
  case (ODelete c jid)
  obtain r s' where r: "Delete ops c jid s = (r, s')" by fastforce
  from delete [OF assms(1) r] r ODelete show ?thesis by auto
next
  case (OUpsert c now jid st)
  obtain r s' where r: "UpsertStatus ops c now jid st s = (r, s')" by fastforce
  from upsert [OF assms(1) _ _ r] r OUpsert assms(2) show ?thesis by (auto split: if_splits)
next
  case (ORemoved c now jid)
  obtain r s' where r: "MarkRemoved ops c now jid s = (r, s')" by fastforce
  from removed [OF assms(1) r] r ORemoved show ?thesis by (auto split: if_splits)
next
  case (OTerminal c now jid st)
  obtain r s' where r: "MarkTerminal ops c now jid st s = (r, s')" by fastforce
  from terminal [OF assms(1) _ r] r OTerminal assms(2) show ?thesis by (auto split: if_splits)
next
  case (OStart c now jid)
  obtain r s' where r: "MarkExecutionStart ops c now jid s = (r, s')" by fastforce
  from start [OF assms(1) r] r OStart show ?thesis by (auto split: if_splits)
next
  case (OResult c now jid p limit)
  obtain r s' where r: "RecordExecutionResult ops c now jid p limit s = (r, s')" by fastforce
  from result [OF assms(1) _ r] r OResult assms(2) show ?thesis by (auto split: if_splits)
qed

text \<open>What every effective write preserves, every history preserves.\<close>

lemma run_ops_induct:
  assumes "invar s" and "list_all (op_ok okid okpay) xs" and "P (abs s)"
    and "\<And>x a a'. x \<in> set xs \<Longrightarrow> op_rel x a a' \<Longrightarrow> P a \<Longrightarrow> P a'"
  shows "invar (run_ops ops xs s) \<and> P (abs (run_ops ops xs s))"
  using assms
proof (induction xs arbitrary: s)
  case (Cons x xs)
  then have ok: "op_ok okid okpay x" by simp
  from apply_op_rel [OF Cons.prems(1) ok] Cons.prems(3) Cons.prems(4) [of x]
  have "invar (apply_op ops x s)" "P (abs (apply_op ops x s))" by auto
  moreover have "list_all (op_ok okid okpay) xs" using Cons.prems(2) by simp
  moreover have "P a'" if "y \<in> set xs" "op_rel y a a'" "P a" for y a a'
    using Cons.prems(4) [of y a a'] that by simp
  ultimately have "invar (run_ops ops xs (apply_op ops x s)) \<and> P (abs (run_ops ops xs (apply_op ops x s)))"
    using Cons.IH [of "apply_op ops x s"] by blast
  then show ?case by simp
qed simp

end

context reliable_jobs_store
begin

lemma apply_op_reliable:
  assumes "invar s" and "op_ok okid okpay x" and "reliable (op_ctx x) s"
  shows "reliable (op_ctx x) (apply_op ops x s) \<and> op_rel x (abs s) (abs (apply_op ops x s))"
proof (cases x)
  case (OSave c job)
  obtain r s' where r: "Save ops c job s = (r, s')" by fastforce
  from save [OF assms(1) r] rel_save [OF assms(1) _ r] r OSave assms(3) show ?thesis
    by (auto split: option.splits if_splits)
next
  case (ODelete c jid)
  obtain r s' where r: "Delete ops c jid s = (r, s')" by fastforce
  from delete [OF assms(1) r] rel_delete [OF assms(1) _ r] r ODelete assms(3) show ?thesis by auto
next
  case (OUpsert c now jid st)
  obtain r s' where r: "UpsertStatus ops c now jid st s = (r, s')" by fastforce
  from upsert [OF assms(1) _ _ r] rel_upsert [OF assms(1) _ _ _ r] r OUpsert assms(2,3)
  show ?thesis by (auto split: if_splits)
next
  case (ORemoved c now jid)
  obtain r s' where r: "MarkRemoved ops c now jid s = (r, s')" by fastforce
  from removed [OF assms(1) r] rel_removed [OF assms(1) _ r] r ORemoved assms(3)
  show ?thesis by (auto split: if_splits)
next
  case (OTerminal c now jid st)
  obtain r s' where r: "MarkTerminal ops c now jid st s = (r, s')" by fastforce
  from terminal [OF assms(1) _ r] rel_terminal [OF assms(1) _ _ r] r OTerminal assms(2,3)
  show ?thesis by (auto split: if_splits)
next
  case (OStart c now jid)
  obtain r s' where r: "MarkExecutionStart ops c now jid s = (r, s')" by fastforce
  from start [OF assms(1) r] rel_start [OF assms(1) _ r] r OStart assms(3)
  show ?thesis by (auto split: if_splits)
next
  case (OResult c now jid p limit)
  obtain r s' where r: "RecordExecutionResult ops c now jid p limit s = (r, s')" by fastforce
  from result [OF assms(1) _ r] rel_result [OF assms(1) _ _ r] r OResult assms(2,3)
  show ?thesis by (auto split: if_splits)
qed

end

section \<open>Well-formed entries\<close>

definition entry_ok :: "string \<Rightarrow> jobStatusEntry \<Rightarrow> bool" where
  "entry_ok jid e \<longleftrightarrow>
     st_JobID (e_status e) = jid \<and> st_Runs (e_status e) = e_lastSequence e \<and>
     st_ActiveRuns (e_status e) = e_activeRuns e \<and> 0 \<le> e_activeRuns e \<and> 0 \<le> e_lastSequence e \<and>
     (st_LastRun (e_status e) = None \<longleftrightarrow> e_lastSequence e = 0) \<and>
     sorted_wrt (<) (map jr_Sequence (e_history e)) \<and>
     list_all (\<lambda>run. 0 < jr_Sequence run \<and> jr_Sequence run \<le> e_lastSequence e) (e_history e)"

definition entries_ok :: "astore \<Rightarrow> bool" where
  "entries_ok a \<longleftrightarrow> (\<forall>jid e. as_status a jid = Some e \<longrightarrow> entry_ok jid e)"

lemma new_entry_ok: "entry_ok jid (new_entry jid now)"
  by (simp add: entry_ok_def new_entry_def)

lemma upsert_entry_ok: "entry_ok jid e \<Longrightarrow> entry_ok jid (upsert_entry st now e)"
  by (simp add: entry_ok_def upsert_entry_def)

lemma terminal_entry_ok: "entry_ok jid e \<Longrightarrow> entry_ok jid (terminal_entry st now e)"
  by (simp add: entry_ok_def terminal_entry_def)

lemma start_entry_ok: "entry_ok jid e \<Longrightarrow> entry_ok jid (start_entry now e)"
  by (simp add: entry_ok_def start_entry_def)

lemma sorted_wrt_subseq: "subseq xs ys \<Longrightarrow> sorted_wrt P ys \<Longrightarrow> sorted_wrt P xs"
  by (induction rule: list_emb.induct) (auto dest: list_emb_set)

lemma subseq_set: "subseq xs ys \<Longrightarrow> set xs \<subseteq> set ys"
  by (induction rule: list_emb.induct) auto

lemma subseq_map_mono: "subseq xs ys \<Longrightarrow> subseq (map f xs) (map f ys)"
  by (rule subseq_map)

lemma result_entry_ok:
  assumes "entry_ok jid e" and "subseq hist (e_history e @ [next_run p e])"
  shows "entry_ok jid (result_entry hist now p e)"
proof -
  let ?h = "e_history e @ [next_run p e]"
  have "sorted_wrt (<) (map jr_Sequence ?h)"
    using assms(1) by (auto simp: entry_ok_def sorted_wrt_append next_run_def list_all_iff)
  from sorted_wrt_subseq [OF subseq_map_mono [OF assms(2)] this]
  have "sorted_wrt (<) (map jr_Sequence hist)" .
  moreover have "\<forall>run \<in> set ?h. 0 < jr_Sequence run \<and> jr_Sequence run \<le> e_lastSequence e + 1"
    using assms(1) by (auto simp: entry_ok_def next_run_def list_all_iff)
  then have "list_all (\<lambda>run. 0 < jr_Sequence run \<and> jr_Sequence run \<le> e_lastSequence e + 1) hist"
    using subseq_set [OF assms(2)] unfolding list_all_iff by blast
  ultimately show ?thesis using assms(1) by (auto simp: entry_ok_def result_entry_def Let_def)
qed

lemma entries_ok_set: "entries_ok a \<Longrightarrow> entry_ok jid e \<Longrightarrow> entries_ok (set_entry jid e a)"
  by (auto simp: entries_ok_def)

lemma update_rel_entries:
  assumes "update_rel R jid a a'" and "entries_ok a"
    and "\<And>e e'. R e e' \<Longrightarrow> entry_ok jid e \<Longrightarrow> entry_ok jid e'"
  shows "entries_ok a'"
  using assms by (cases rule: update_rel.cases) (auto simp: entries_ok_def)

lemma op_rel_entries:
  assumes "op_rel x a a'" and "entries_ok a"
  shows "entries_ok a'"
proof (cases x)
  case (OUpsert c now jid st)
  with assms(1) have "upsert_rel now jid st a a'" by simp
  then show ?thesis
    using assms(2) new_entry_ok upsert_entry_ok
    by (cases rule: upsert_rel.cases) (auto simp: entries_ok_def)
next
  case (ORemoved c now jid)
  with assms have "update_rel (removed_rel now) jid a a'" by simp
  then show ?thesis
    by (rule update_rel_entries [OF _ assms(2)]) (auto simp: removed_rel_def terminal_entry_ok)
next
  case (OTerminal c now jid st)
  with assms have "update_rel (terminal_rel now st) jid a a'" by simp
  then show ?thesis
    by (rule update_rel_entries [OF _ assms(2)]) (auto simp: terminal_rel_def terminal_entry_ok split: if_splits)
next
  case (OStart c now jid)
  with assms have "update_rel (start_rel now) jid a a'" by simp
  then show ?thesis
    by (rule update_rel_entries [OF _ assms(2)]) (auto simp: start_rel_def start_entry_ok)
next
  case (OResult c now jid p limit)
  with assms have "update_rel (result_rel now p limit) jid a a'" by simp
  then show ?thesis
    by (rule update_rel_entries [OF _ assms(2)]) (auto simp: result_rel_def result_entry_ok)
qed (use assms in \<open>auto simp: entries_ok_def\<close>)

section \<open>Terminal states are final\<close>

text \<open>The operations that may set the state of a job whose status is terminal.\<close>

fun overrides :: "string \<Rightarrow> store_op \<Rightarrow> bool" where
  "overrides jid (OUpsert c now i st) = (i = jid)"
| "overrides jid (ORemoved c now i) = (i = jid)"
| "overrides jid x = False"

definition is_terminal :: "string \<Rightarrow> JobState \<Rightarrow> astore \<Rightarrow> bool" where
  "is_terminal jid st a \<longleftrightarrow>
     (\<exists>e. as_status a jid = Some e \<and> e_terminal e \<and> st_State (e_status e) = st)"

lemma op_rel_terminal:
  "op_rel x a a' \<Longrightarrow> \<not> overrides jid x \<Longrightarrow> is_terminal jid st a \<Longrightarrow> is_terminal jid st a'"
  by (cases x)
    (auto simp: is_terminal_def removed_rel_def start_rel_def terminal_rel_def result_rel_def
      start_entry_def result_entry_def terminal_entry_def Let_def
      elim!: update_rel.cases upsert_rel.cases split: if_splits)

section \<open>Accounting of executions\<close>

fun starts :: "string \<Rightarrow> store_op \<Rightarrow> int" where
  "starts jid (OStart c now i) = (if i = jid then 1 else 0)"
| "starts jid x = 0"

fun results :: "string \<Rightarrow> store_op \<Rightarrow> int" where
  "results jid (OResult c now i p limit) = (if i = jid then 1 else 0)"
| "results jid x = 0"

text \<open>No more results than executions in progress, at any point of the history.\<close>

fun balanced :: "string \<Rightarrow> int \<Rightarrow> store_op list \<Rightarrow> bool" where
  "balanced jid n [] = True"
| "balanced jid n (x # xs) = (results jid x \<le> n \<and> balanced jid (n + starts jid x - results jid x) xs)"

definition counts :: "string \<Rightarrow> int \<Rightarrow> int \<Rightarrow> astore \<Rightarrow> bool" where
  "counts jid n l a \<longleftrightarrow>
     (\<exists>e. as_status a jid = Some e \<and> e_activeRuns e = n \<and> e_lastSequence e = l)"

lemma op_rel_counts:
  assumes "op_rel x a a'" and "counts jid n l a" and "results jid x \<le> n"
  shows "counts jid (n + starts jid x - results jid x) (l + results jid x) a'"
  using assms
  by (cases x)
    (auto simp: counts_def removed_rel_def start_rel_def terminal_rel_def result_rel_def
      start_entry_def result_entry_def terminal_entry_def upsert_entry_def Let_def
      elim!: update_rel.cases upsert_rel.cases split: if_splits)

context jobs_store
begin

lemma entries_invariant:
  assumes "invar s" and "list_all (op_ok okid okpay) xs" and "entries_ok (abs s)"
  shows "invar (run_ops ops xs s) \<and> entries_ok (abs (run_ops ops xs s))"
  by (rule run_ops_induct [where P = entries_ok, OF assms]) (rule op_rel_entries)

lemma terminal_final:
  assumes "invar s" and "list_all (op_ok okid okpay) xs"
    and "list_all (\<lambda>x. \<not> overrides jid x) xs" and "is_terminal jid st (abs s)"
  shows "is_terminal jid st (abs (run_ops ops xs s))"
  using run_ops_induct [OF assms(1,2), of "is_terminal jid st"] assms(3,4) op_rel_terminal
  by (auto simp: list_all_iff)

end

context reliable_jobs_store
begin

lemma executions_counted:
  assumes "invar s" and "list_all (op_ok okid okpay) xs"
    and "list_all (\<lambda>x. op_ctx x = c) xs" and "reliable c s"
    and "counts jid n l (abs s)" and "balanced jid n xs"
  shows "counts jid (n + sum_list (map (starts jid) xs) - sum_list (map (results jid) xs))
           (l + sum_list (map (results jid) xs)) (abs (run_ops ops xs s))"
  using assms
proof (induction xs arbitrary: s n l)
  case (Cons x xs)
  have ok: "op_ok okid okpay x" and rel: "reliable (op_ctx x) s" using Cons.prems by auto
  have inv: "invar (apply_op ops x s)" using apply_op_rel [OF Cons.prems(1) ok] by simp
  from apply_op_reliable [OF Cons.prems(1) ok rel] Cons.prems(3)
  have r: "reliable c (apply_op ops x s)" "op_rel x (abs s) (abs (apply_op ops x s))" by auto
  have "counts jid (n + starts jid x - results jid x) (l + results jid x) (abs (apply_op ops x s))"
    using op_rel_counts [OF r(2) Cons.prems(5)] Cons.prems(6) by simp
  from Cons.IH [OF inv _ _ r(1) this] Cons.prems(2,3,6) show ?case by (simp add: algebra_simps)
qed simp

end

end
