(* ===== verification/Jobs_Storage.thy ===== *)
theory Jobs_Storage
  imports Store_Histories
begin

text \<open>
  \<open>pkg/scheduler/storage.go\<close>: the in-memory jobs storage, shown to implement the contract of
  \<open>Store_Contract\<close>, and its properties.
\<close>

section \<open>The in-memory storage\<close>

record mem_store =
  m_jobs :: "(string \<times> Job) list"
  m_status :: "(string \<times> jobStatusEntry) list"

definition NewInMemoryJobsStorage :: mem_store where
  "NewInMemoryJobsStorage = \<lparr>m_jobs = [], m_status = []\<rparr>"

definition mem_Save :: "ctx \<Rightarrow> Job \<Rightarrow> mem_store \<Rightarrow> goerr option \<times> mem_store" where
  "mem_Save _ job s =
     (case map_of (m_jobs s) (j_ID job) of
        Some _ \<Rightarrow> (Some (Wrapf errJobAlreadyExists ''job ID: %s'' [FStr (j_ID job)]), s)
      | None \<Rightarrow> (None, s\<lparr>m_jobs := AList.update (j_ID job) job (m_jobs s)\<rparr>))"

definition mem_Delete :: "ctx \<Rightarrow> string \<Rightarrow> mem_store \<Rightarrow> bool \<times> mem_store" where
  "mem_Delete _ jid s =
     (case map_of (m_jobs s) jid of
        None \<Rightarrow> (False, s)
      | Some _ \<Rightarrow> (True, s\<lparr>m_jobs := AList.delete jid (m_jobs s)\<rparr>))"

definition mem_Exists :: "ctx \<Rightarrow> string \<Rightarrow> mem_store \<Rightarrow> bool \<times> mem_store" where
  "mem_Exists _ jid s = (map_of (m_jobs s) jid \<noteq> None, s)"

definition mem_Count :: "ctx \<Rightarrow> mem_store \<Rightarrow> int \<times> mem_store" where
  "mem_Count _ s = (int (length (m_jobs s)), s)"

definition mem_IDs :: "ctx \<Rightarrow> mem_store \<Rightarrow> string list \<times> mem_store" where
  "mem_IDs _ s = (sort (map fst (m_jobs s)), s)"

definition mem_UpsertStatus ::
  "ctx \<Rightarrow> clock \<Rightarrow> string \<Rightarrow> JobState \<Rightarrow> mem_store \<Rightarrow> goerr option \<times> mem_store" where
  "mem_UpsertStatus _ now jid state s =
     (let entry = (case map_of (m_status s) jid of None \<Rightarrow> new_entry jid (now 0) | Some e \<Rightarrow> e);
          entry1 = entry\<lparr>e_status := (e_status entry)\<lparr>st_State := state, st_UpdatedAt := Some (now 0)\<rparr>\<rparr>
      in (None, s\<lparr>m_status := AList.update jid entry1 (m_status s)\<rparr>))"

definition mem_MarkRemoved ::
  "ctx \<Rightarrow> clock \<Rightarrow> string \<Rightarrow> mem_store \<Rightarrow> goerr option \<times> mem_store" where
  "mem_MarkRemoved _ now jid s =
     (case map_of (m_status s) jid of
        None \<Rightarrow> (None, s)
      | Some entry \<Rightarrow>
          (None, s\<lparr>m_status := AList.update jid
             (entry\<lparr>e_terminal := True,
                    e_status := (e_status entry)\<lparr>st_State := JobStateRemoved,
                      st_ActiveRuns := e_activeRuns entry, st_UpdatedAt := Some (now 0)\<rparr>\<rparr>)
             (m_status s)\<rparr>))"

definition mem_MarkTerminal ::
  "ctx \<Rightarrow> clock \<Rightarrow> string \<Rightarrow> JobState \<Rightarrow> mem_store \<Rightarrow> goerr option \<times> mem_store" where
  "mem_MarkTerminal _ now jid state s =
     (case map_of (m_status s) jid of
        None \<Rightarrow> (None, s)
      | Some entry \<Rightarrow>
          if e_terminal entry then (None, s)
          else (None, s\<lparr>m_status := AList.update jid
             (entry\<lparr>e_terminal := True,
                    e_status := (e_status entry)\<lparr>st_State := state,
                      st_ActiveRuns := e_activeRuns entry, st_UpdatedAt := Some (now 0)\<rparr>\<rparr>)
             (m_status s)\<rparr>))"

definition mem_MarkExecutionStart ::
  "ctx \<Rightarrow> clock \<Rightarrow> string \<Rightarrow> mem_store \<Rightarrow> goerr option \<times> mem_store" where
  "mem_MarkExecutionStart _ now jid s =
     (case map_of (m_status s) jid of
        None \<Rightarrow> (None, s)
      | Some entry \<Rightarrow>
          let active = e_activeRuns entry + 1;
              status = (e_status entry)\<lparr>st_ActiveRuns := active, st_UpdatedAt := Some (now 0)\<rparr>;
              status1 = (if e_terminal entry then status else status\<lparr>st_State := JobStateRunning\<rparr>)
          in (None, s\<lparr>m_status := AList.update jid
                (entry\<lparr>e_activeRuns := active, e_status := status1\<rparr>) (m_status s)\<rparr>))"

text \<open>
  The body of \<open>RecordExecutionResult\<close> on an entry. The slice expression keeps the last
  \<open>historyLimit\<close> runs; it is in range because it is taken only when there are more.
\<close>

definition mem_record_entry ::
  "instant \<Rightarrow> CallbackPayload \<Rightarrow> int \<Rightarrow> jobStatusEntry \<Rightarrow> jobStatusEntry" where
  "mem_record_entry now payload historyLimit entry =
     (let limit = (if historyLimit \<le> 0 then defaultHistoryLimit else historyLimit);
          lseq = e_lastSequence entry + 1;
          run = \<lparr>jr_Sequence = lseq, jr_Payload = cloneCallbackPayload payload\<rparr>;
          hist = e_history entry @ [run];
          hist1 = (if int (length hist) > limit then drop (length hist - nat limit) hist else hist);
          active = (if e_activeRuns entry > 0 then e_activeRuns entry - 1 else e_activeRuns entry);
          status = (e_status entry)\<lparr>st_Runs := lseq, st_LastRun := Some (cloneCallbackPayload payload),
                      st_ActiveRuns := active, st_UpdatedAt := Some now\<rparr>;
          status1 = (if e_terminal entry then status
                     else if active > 0 then status\<lparr>st_State := JobStateRunning\<rparr>
                     else status\<lparr>st_State := JobStateScheduled\<rparr>)
      in entry\<lparr>e_lastSequence := lseq, e_history := hist1, e_activeRuns := active, e_status := status1\<rparr>)"

definition mem_RecordExecutionResult ::
  "ctx \<Rightarrow> clock \<Rightarrow> string \<Rightarrow> CallbackPayload \<Rightarrow> int \<Rightarrow> mem_store \<Rightarrow> goerr option \<times> mem_store" where
  "mem_RecordExecutionResult _ now jid payload historyLimit s =
     (case map_of (m_status s) jid of
        None \<Rightarrow> (None, s)
      | Some entry \<Rightarrow>
          (None, s\<lparr>m_status := AList.update jid (mem_record_entry (now 0) payload historyLimit entry)
             (m_status s)\<rparr>))"

definition mem_State :: "ctx \<Rightarrow> string \<Rightarrow> mem_store \<Rightarrow> JobState option \<times> mem_store" where
  "mem_State _ jid s = (map_option (\<lambda>e. st_State (e_status e)) (map_of (m_status s) jid), s)"

definition mem_Status :: "ctx \<Rightarrow> string \<Rightarrow> mem_store \<Rightarrow> JobStatus option \<times> mem_store" where
  "mem_Status _ jid s = (map_option (\<lambda>e. cloneJobStatus (e_status e)) (map_of (m_status s) jid), s)"

definition mem_Statuses :: "ctx \<Rightarrow> mem_store \<Rightarrow> JobStatus list \<times> mem_store" where
  "mem_Statuses _ s =
     (sort_key st_JobID (map (\<lambda>(jid, e). cloneJobStatus (e_status e)) (m_status s)), s)"

definition mem_History :: "ctx \<Rightarrow> string \<Rightarrow> mem_store \<Rightarrow> JobRun list option \<times> mem_store" where
  "mem_History _ jid s = (map_option (\<lambda>e. map cloneJobRun (e_history e)) (map_of (m_status s) jid), s)"

definition InMemoryJobsStorage :: "mem_store JobsStorage" where
  "InMemoryJobsStorage = \<lparr>Save = mem_Save, Delete = mem_Delete, Exists = mem_Exists, Count = mem_Count,
     IDs = mem_IDs, UpsertStatus = mem_UpsertStatus, MarkRemoved = mem_MarkRemoved,
     MarkTerminal = mem_MarkTerminal, MarkExecutionStart = mem_MarkExecutionStart,
     RecordExecutionResult = mem_RecordExecutionResult, State = mem_State, Status = mem_Status,
     Statuses = mem_Statuses, History = mem_History\<rparr>"

declare mem_Save_def [storage_defs] mem_Delete_def [storage_defs] mem_Exists_def [storage_defs]
  mem_Count_def [storage_defs] mem_IDs_def [storage_defs] mem_UpsertStatus_def [storage_defs]
  mem_MarkRemoved_def [storage_defs] mem_MarkTerminal_def [storage_defs]
  mem_MarkExecutionStart_def [storage_defs] mem_RecordExecutionResult_def [storage_defs]
  mem_State_def [storage_defs] mem_Status_def [storage_defs] mem_Statuses_def [storage_defs]
  mem_History_def [storage_defs] InMemoryJobsStorage_def [storage_defs]

section \<open>It implements the contract\<close>

definition mem_abs :: "mem_store \<Rightarrow> astore" where
  "mem_abs s = \<lparr>as_jobs = dom (map_of (m_jobs s)), as_status = map_of (m_status s)\<rparr>"

definition mem_invar :: "mem_store \<Rightarrow> bool" where
  "mem_invar s \<longleftrightarrow> distinct (map fst (m_jobs s)) \<and> distinct (map fst (m_status s)) \<and>
     list_all (\<lambda>(jid, e). st_JobID (e_status e) = jid) (m_status s)"

lemma mem_job_iff: "map_of (m_jobs s) i = None \<longleftrightarrow> i \<notin> as_jobs (mem_abs s)"
  by (auto simp: mem_abs_def)

lemma list_all_AList_update:
  "list_all P al \<Longrightarrow> P (k, v) \<Longrightarrow> list_all P (AList.update k v al)"
  by (induction al) auto

lemma mem_invar_entry:
  "mem_invar s \<Longrightarrow> map_of (m_status s) jid = Some e \<Longrightarrow> st_JobID (e_status e) = jid"
  by (auto simp: mem_invar_def list_all_iff dest: map_of_SomeD)

lemma mem_set_entry:
  assumes "mem_invar s" and "st_JobID (e_status e) = jid"
  shows "mem_invar (s\<lparr>m_status := AList.update jid e (m_status s)\<rparr>)"
    and "mem_abs (s\<lparr>m_status := AList.update jid e (m_status s)\<rparr>) = set_entry jid e (mem_abs s)"
  using assms
  by (auto simp: mem_invar_def mem_abs_def set_entry_def list_all_AList_update distinct_update)

text \<open>The operations as the contract's transitions.\<close>

lemma mem_update:
  assumes "mem_invar s" and "map_of (m_status s) jid = Some e" and "R e e'"
    and "st_JobID (e_status e') = st_JobID (e_status e)"
  shows "mem_invar (s\<lparr>m_status := AList.update jid e' (m_status s)\<rparr>) \<and>
         update_rel R jid (mem_abs s) (mem_abs (s\<lparr>m_status := AList.update jid e' (m_status s)\<rparr>))"
proof -
  have i: "st_JobID (e_status e') = jid" using mem_invar_entry [OF assms(1,2)] assms(4) by simp
  have "as_status (mem_abs s) jid = Some e" using assms(2) by (simp add: mem_abs_def)
  from update_present [of _ jid e R e', OF this assms(3)] mem_set_entry [OF assms(1) i]
  show ?thesis by simp
qed

lemma mem_absent: "map_of (m_status s) jid = None \<Longrightarrow> update_rel R jid (mem_abs s) (mem_abs s)"
  by (rule update_absent) (simp add: mem_abs_def)

lemma mem_record_entry_eq:
  "mem_record_entry now p limit e =
     result_entry (last_n (nat (effective_limit limit)) (e_history e @ [next_run p e])) now p e"
  by (auto simp: mem_record_entry_def result_entry_def next_run_def effective_limit_def last_n_def
      Let_def)

lemma subseq_last_n: "subseq (last_n n xs) xs"
  by (simp add: last_n_def suffix_drop suffix_imp_subseq)

lemma mem_record_rel: "result_rel now p limit e (mem_record_entry (now 0) p limit e)"
  unfolding result_rel_def mem_record_entry_eq
proof (intro exI [of _ 0] exI conjI refl)
  have "0 < effective_limit limit" by simp
  then show "int (length (last_n (nat (effective_limit limit)) (e_history e @ [next_run p e]))) \<le>
      effective_limit limit"
    unfolding length_last_n by linarith
qed (rule refl subseq_last_n)+

lemma mem_Upsert_ok:
  assumes "mem_invar s" and "mem_UpsertStatus c now jid st s = (r, s')"
  shows "mem_invar s' \<and> r = None \<and> upsert_rel now jid st (mem_abs s) (mem_abs s')"
proof (cases "map_of (m_status s) jid")
  case None
  with assms(2) have s': "r = None" "s' = s\<lparr>m_status := AList.update jid
      (upsert_entry st (now 0) (new_entry jid (now 0))) (m_status s)\<rparr>"
    by (auto simp: mem_UpsertStatus_def upsert_entry_def Let_def)
  have "as_status (mem_abs s) jid = None" using None by (simp add: mem_abs_def)
  from upsert_new [OF this, of now st 0]
    mem_set_entry [OF assms(1), of "upsert_entry st (now 0) (new_entry jid (now 0))" jid]
  show ?thesis by (simp add: s' upsert_entry_def new_entry_def)
next
  case (Some e)
  with assms(2) have s': "r = None" "s' = s\<lparr>m_status := AList.update jid
      (upsert_entry st (now 0) e) (m_status s)\<rparr>"
    by (auto simp: mem_UpsertStatus_def upsert_entry_def Let_def)
  have "as_status (mem_abs s) jid = Some e" using Some by (simp add: mem_abs_def)
  from upsert_old [OF this, of now st 0]
    mem_set_entry [OF assms(1), of "upsert_entry st (now 0) e" jid] mem_invar_entry [OF assms(1) Some]
  show ?thesis by (simp add: s' upsert_entry_def)
qed

lemma mem_Removed_ok:
  assumes "mem_invar s" and "mem_MarkRemoved c now jid s = (r, s')"
  shows "mem_invar s' \<and> r = None \<and> update_rel (removed_rel now) jid (mem_abs s) (mem_abs s')"
proof (cases "map_of (m_status s) jid")
  case (Some e)
  with assms(2) have s': "r = None" "s' = s\<lparr>m_status := AList.update jid
      (terminal_entry JobStateRemoved (now 0) e) (m_status s)\<rparr>"
    by (auto simp: mem_MarkRemoved_def terminal_entry_def)
  have "removed_rel now e (terminal_entry JobStateRemoved (now 0) e)" by (auto simp: removed_rel_def)
  from mem_update [OF assms(1) Some, of "removed_rel now", OF this] show ?thesis
    by (simp add: s' terminal_entry_def)
qed (use assms mem_absent in \<open>auto simp: mem_MarkRemoved_def\<close>)

lemma mem_Terminal_ok:
  assumes "mem_invar s" and "mem_MarkTerminal c now jid st s = (r, s')"
  shows "mem_invar s' \<and> r = None \<and> update_rel (terminal_rel now st) jid (mem_abs s) (mem_abs s')"
proof (cases "map_of (m_status s) jid")
  case (Some e)
  show ?thesis
  proof (cases "e_terminal e")
    case True
    have "terminal_rel now st e e" using True by (simp add: terminal_rel_def)
    moreover have "set_entry jid e (mem_abs s) = mem_abs s"
      using Some by (simp add: set_entry_def mem_abs_def fun_upd_idem)
    ultimately have "update_rel (terminal_rel now st) jid (mem_abs s) (mem_abs s)"
      using update_present [of "mem_abs s" jid e "terminal_rel now st" e] Some by (simp add: mem_abs_def)
    with Some True assms show ?thesis by (auto simp: mem_MarkTerminal_def)
  next
    case False
    with Some assms(2) have s': "r = None" "s' = s\<lparr>m_status := AList.update jid
        (terminal_entry st (now 0) e) (m_status s)\<rparr>"
      by (auto simp: mem_MarkTerminal_def terminal_entry_def)
    have "terminal_rel now st e (terminal_entry st (now 0) e)" using False by (auto simp: terminal_rel_def)
    from mem_update [OF assms(1) Some, of "terminal_rel now st", OF this] show ?thesis
      by (simp add: s' terminal_entry_def)
  qed
qed (use assms mem_absent in \<open>auto simp: mem_MarkTerminal_def\<close>)

lemma mem_start_entry:
  "start_entry now e =
     (let active = e_activeRuns e + 1;
          status = (e_status e)\<lparr>st_ActiveRuns := active, st_UpdatedAt := Some now\<rparr>
      in e\<lparr>e_activeRuns := active,
           e_status := (if e_terminal e then status else status\<lparr>st_State := JobStateRunning\<rparr>)\<rparr>)"
  by (cases "e_status e") (simp add: start_entry_def Let_def)

lemma mem_Start_ok:
  assumes "mem_invar s" and "mem_MarkExecutionStart c now jid s = (r, s')"
  shows "mem_invar s' \<and> r = None \<and> update_rel (start_rel now) jid (mem_abs s) (mem_abs s')"
proof (cases "map_of (m_status s) jid")
  case (Some e)
  with assms(2) have s': "r = None" "s' = s\<lparr>m_status := AList.update jid
      (start_entry (now 0) e) (m_status s)\<rparr>"
    by (auto simp: mem_MarkExecutionStart_def mem_start_entry Let_def)
  have "start_rel now e (start_entry (now 0) e)" by (auto simp: start_rel_def)
  from mem_update [OF assms(1) Some, of "start_rel now", OF this] show ?thesis
    by (simp add: s' start_entry_def)
qed (use assms mem_absent in \<open>auto simp: mem_MarkExecutionStart_def\<close>)

lemma mem_Record_ok:
  assumes "mem_invar s" and "mem_RecordExecutionResult c now jid p limit s = (r, s')"
  shows "mem_invar s' \<and> r = None \<and> update_rel (result_rel now p limit) jid (mem_abs s) (mem_abs s')"
proof (cases "map_of (m_status s) jid")
  case (Some e)
  with assms(2) have s': "r = None" "s' = s\<lparr>m_status := AList.update jid
      (mem_record_entry (now 0) p limit e) (m_status s)\<rparr>"
    by (auto simp: mem_RecordExecutionResult_def)
  from mem_update [where R = "result_rel now p limit", OF assms(1) Some mem_record_rel] show ?thesis
    by (simp add: s' mem_record_entry_eq result_entry_def Let_def)
qed (use assms mem_absent in \<open>auto simp: mem_RecordExecutionResult_def\<close>)

lemma mem_Statuses_eq:
  assumes "mem_invar s"
  shows "fst (mem_Statuses c s) = all_statuses (mem_abs s)"
proof -
  let ?xs = "map (\<lambda>(jid, e). e_status e) (m_status s)"
  let ?f = "\<lambda>i. e_status (the (map_of (m_status s) i))"
  have d: "distinct (map fst (m_status s))" and
    id: "\<forall>(jid, e) \<in> set (m_status s). st_JobID (e_status e) = jid"
    using assms by (auto simp: mem_invar_def list_all_iff)
  have keys: "map st_JobID ?xs = map fst (m_status s)" using id by (auto simp: comp_def)
  have f: "e_status e = ?f i" if "(i, e) \<in> set (m_status s)" for i e
    using map_of_is_SomeI [OF d that] by simp
  have xs: "?xs = map ?f (map fst (m_status s))" using f by auto
  have "sort_key st_JobID ?xs = map ?f (sort (map fst (m_status s)))"
  proof (rule sort_key_eqI)
    have k: "map st_JobID (map ?f (sort (map fst (m_status s)))) = sort (map fst (m_status s))"
    proof -
      have "st_JobID (?f i) = i" if "i \<in> set (map fst (m_status s))" for i
      proof -
        from that obtain e where e: "(i, e) \<in> set (m_status s)" by auto
        show ?thesis using bspec [OF id e] unfolding f [OF e, symmetric] by simp
      qed
      then show ?thesis unfolding map_map by (intro map_idI) simp
    qed
    show "sorted (map st_JobID (map ?f (sort (map fst (m_status s)))))" unfolding k by simp
    have "distinct (sort (map fst (m_status s)))" using d by simp
    then show "distinct (map ?f (sort (map fst (m_status s))))" by (metis k distinct_map)
    show "set (map ?f (sort (map fst (m_status s)))) = set ?xs" unfolding xs by (simp add: image_image)
    show "distinct (map st_JobID ?xs)" unfolding keys by (rule d)
  qed
  moreover have "sort (map fst (m_status s)) = sorted_list_of_set (dom (map_of (m_status s)))"
    using d by (simp add: dom_map_of_conv_image_fst sorted_list_of_set_sort_remdups distinct_remdups_id
        flip: set_map)
  ultimately show ?thesis
    by (simp add: mem_Statuses_def all_statuses_def mem_abs_def case_prod_unfold)
qed

lemma mem_Save_ok:
  assumes "mem_invar s" and "mem_Save c job s = (r, s')"
  shows "mem_invar s' \<and>
    (if j_ID job \<in> as_jobs (mem_abs s)
     then r = Some (Wrapf errJobAlreadyExists ''job ID: %s'' [FStr (j_ID job)]) \<and> s' = s
     else r = None \<and>
       mem_abs s' = (mem_abs s)\<lparr>as_jobs := insert (j_ID job) (as_jobs (mem_abs s))\<rparr>)"
  using assms
  by (cases "map_of (m_jobs s) (j_ID job)")
    (auto simp: mem_Save_def mem_abs_def mem_invar_def distinct_update)

lemma mem_Delete_ok:
  assumes "mem_invar s" and "mem_Delete c jid s = (b, s')"
  shows "mem_invar s' \<and> b = (jid \<in> as_jobs (mem_abs s)) \<and>
    mem_abs s' = (mem_abs s)\<lparr>as_jobs := as_jobs (mem_abs s) - {jid}\<rparr>"
  using assms
  by (cases "map_of (m_jobs s) jid")
    (auto simp: mem_Delete_def mem_abs_def mem_invar_def distinct_delete split: if_splits)

lemma mem_IDs_eq: "mem_invar s \<Longrightarrow> sort (map fst (m_jobs s)) = sorted_list_of_set (as_jobs (mem_abs s))"
  by (simp add: mem_invar_def mem_abs_def dom_map_of_conv_image_fst sorted_list_of_set_sort_remdups
      distinct_remdups_id flip: set_map)

lemma mem_Count_eq: "mem_invar s \<Longrightarrow> length (m_jobs s) = card (as_jobs (mem_abs s))"
  using distinct_card [of "map fst (m_jobs s)"]
  by (simp add: mem_invar_def mem_abs_def dom_map_of_conv_image_fst)

interpretation mem: reliable_jobs_store InMemoryJobsStorage mem_abs mem_invar
  "\<lambda>_. True" "\<lambda>_. True" "\<lambda>_ _. True"
proof (unfold_locales, goal_cases)
  case (1 s)
  then show ?case by (simp add: mem_abs_def finite_dom_map_of)
next
  case (2 s c job r s')
  then show ?case using mem_Save_ok [of s c job r s']
    by (auto simp: InMemoryJobsStorage_def split: if_splits)
next
  case (3 s c jid b s')
  then show ?case using mem_Delete_ok [of s c jid b s'] by (auto simp: InMemoryJobsStorage_def)
next
  case (4 s jid st c now r s')
  then show ?case using mem_Upsert_ok [of s c now jid st r s'] by (auto simp: InMemoryJobsStorage_def)
next
  case (5 s c now jid r s')
  then show ?case using mem_Removed_ok [of s c now jid r s'] by (auto simp: InMemoryJobsStorage_def)
next
  case (6 s st c now jid r s')
  then show ?case using mem_Terminal_ok [of s c now jid st r s'] by (auto simp: InMemoryJobsStorage_def)
next
  case (7 s c now jid r s')
  then show ?case using mem_Start_ok [of s c now jid r s'] by (auto simp: InMemoryJobsStorage_def)
next
  case (8 s p c now jid limit r s')
  then show ?case using mem_Record_ok [of s c now jid p limit r s'] by (auto simp: InMemoryJobsStorage_def)
next
  case (14 s c ys s')
  then show ?case using mem_Statuses_eq [of s c] by (auto simp: storage_defs)
next
  case (16 s c job r s')
  then show ?case using mem_Save_ok [of s c job r s']
    by (auto simp: InMemoryJobsStorage_def split: if_splits)
next
  case (17 s c jid b s')
  then show ?case using mem_Delete_ok [of s c jid b s'] by (auto simp: InMemoryJobsStorage_def)
next
  case (18 s c jid st now r s')
  then show ?case using mem_Upsert_ok [of s c now jid st r s'] by (simp add: InMemoryJobsStorage_def)
next
  case (19 s c now jid r s')
  then show ?case using mem_Removed_ok [of s c now jid r s'] by (simp add: InMemoryJobsStorage_def)
next
  case (20 s c st now jid r s')
  then show ?case using mem_Terminal_ok [of s c now jid st r s'] by (simp add: InMemoryJobsStorage_def)
next
  case (21 s c now jid r s')
  then show ?case using mem_Start_ok [of s c now jid r s'] by (simp add: InMemoryJobsStorage_def)
next
  case (22 s c p now jid limit r s')
  then show ?case using mem_Record_ok [of s c now jid p limit r s'] by (simp add: InMemoryJobsStorage_def)
next
  case (28 s c ys s')
  then show ?case using mem_Statuses_eq [of s c] by (auto simp: storage_defs)
qed (auto simp: InMemoryJobsStorage_def mem_Exists_def mem_Count_def mem_IDs_def mem_State_def
    mem_Status_def mem_History_def mem_IDs_eq mem_Count_eq, auto simp: mem_abs_def)

section \<open>Properties\<close>

text \<open>
  (C5) The in-memory storage implements the contract of \<open>JobsStorage\<close>: each write makes the
  transition of the abstract store and never fails, apart from saving an identifier twice, and
  each read reports the abstract store; identifiers and statuses come out sorted, whatever order
  the maps are visited in.
\<close>

theorem memory_store_implements:
  "reliable_jobs_store InMemoryJobsStorage mem_abs mem_invar (\<lambda>_. True) (\<lambda>_. True) (\<lambda>_ _. True)"
  by (rule mem.reliable_jobs_store_axioms)

lemma mem_new: "mem_invar NewInMemoryJobsStorage" "entries_ok (mem_abs NewInMemoryJobsStorage)"
  by (simp_all add: NewInMemoryJobsStorage_def mem_invar_def mem_abs_def entries_ok_def)

lemma mem_run_invar:
  "list_all (op_ok (\<lambda>_. True) (\<lambda>_. True)) xs \<Longrightarrow>
     mem_invar (run_ops InMemoryJobsStorage xs NewInMemoryJobsStorage) \<and>
     entries_ok (mem_abs (run_ops InMemoryJobsStorage xs NewInMemoryJobsStorage))"
  using mem.entries_invariant [OF mem_new(1) _ mem_new(2)] by blast

text \<open>
  (C33) Consistency of statuses. After any sequence of writes on a new in-memory storage, the status
  of a job carries its identifier, a nonnegative number of active runs, and as many runs as the
  last recorded sequence number; it has a last run exactly when it has runs; and the history of
  the job is strictly ascending in its sequence numbers, which lie between one and that number.
\<close>

theorem memory_status_consistent:
  assumes "list_all (op_ok (\<lambda>_. True) (\<lambda>_. True)) xs"
    and "mem_Status c jid (run_ops InMemoryJobsStorage xs NewInMemoryJobsStorage) = (Some st, s')"
    and "mem_History c jid (run_ops InMemoryJobsStorage xs NewInMemoryJobsStorage) = (Some h, s'')"
  shows "st_JobID st = jid \<and> 0 \<le> st_ActiveRuns st \<and> 0 \<le> st_Runs st \<and>
         (st_LastRun st = None \<longleftrightarrow> st_Runs st = 0) \<and>
         sorted_wrt (<) (map jr_Sequence h) \<and>
         list_all (\<lambda>run. 0 < jr_Sequence run \<and> jr_Sequence run \<le> st_Runs st) h"
proof -
  let ?s = "run_ops InMemoryJobsStorage xs NewInMemoryJobsStorage"
  from assms(2,3) obtain e where e: "map_of (m_status ?s) jid = Some e" "st = e_status e"
    "h = e_history e"
    by (auto simp: mem_Status_def mem_History_def)
  with mem_run_invar [OF assms(1)] have "entry_ok jid e" by (auto simp: entries_ok_def mem_abs_def)
  with e show ?thesis by (auto simp: entry_ok_def)
qed

definition demo_payload :: CallbackPayload where
  "demo_payload = \<lparr>cp_JobID = ''a'', cp_ScheduledAt = Some 1, cp_StartedAt = Some 2,
     cp_FinishedAt = Some 3, cp_Attempts = 1, cp_Success = True, cp_StatusCode = 200,
     cp_Error = '''', cp_ResponseBody = ''ok''\<rparr>"

definition demo_ops :: "store_op list" where
  "demo_ops = [OUpsert None (\<lambda>_. 1) ''a'' JobStateScheduled, OStart None (\<lambda>_. 2) ''a'',
     OResult None (\<lambda>_. 3) ''a'' demo_payload 1, OStart None (\<lambda>_. 4) ''a'',
     OResult None (\<lambda>_. 5) ''a'' demo_payload 1, OTerminal None (\<lambda>_. 6) ''a'' JobStateCompleted]"

lemma demo_ops_ok: "list_all (op_ok (\<lambda>_. True) (\<lambda>_. True)) demo_ops"
  by (simp add: demo_ops_def)

lemmas run_demo = demo_ops_def NewInMemoryJobsStorage_def storage_defs new_entry_def
  mem_record_entry_def defaultHistoryLimit_def Let_def

theorem memory_status_consistent_witness:
  "\<exists>st h s' s''. mem_Status None ''a'' (run_ops InMemoryJobsStorage demo_ops NewInMemoryJobsStorage) = (Some st, s') \<and>
     mem_History None ''a'' (run_ops InMemoryJobsStorage demo_ops NewInMemoryJobsStorage) = (Some h, s'') \<and>
     st_JobID st = ''a'' \<and> list_all (\<lambda>run. jr_Sequence run \<le> st_Runs st) h"
proof -
  have "\<exists>st s'. mem_Status None ''a'' (run_ops InMemoryJobsStorage demo_ops NewInMemoryJobsStorage) = (Some st, s')"
    "\<exists>h s''. mem_History None ''a'' (run_ops InMemoryJobsStorage demo_ops NewInMemoryJobsStorage) = (Some h, s'')"
    by (simp_all add: run_demo)
  then obtain st s' h s'' where
    a: "mem_Status None ''a'' (run_ops InMemoryJobsStorage demo_ops NewInMemoryJobsStorage) = (Some st, s')" and
    b: "mem_History None ''a'' (run_ops InMemoryJobsStorage demo_ops NewInMemoryJobsStorage) = (Some h, s'')"
    by blast
  from memory_status_consistent [OF demo_ops_ok a b] a b show ?thesis
    by (auto simp: list_all_iff)
qed

text \<open>
  (C34) Terminal states are final. Once a job's status is terminal, no sequence of writes that
  contains neither \<open>UpsertStatus\<close> nor \<open>MarkRemoved\<close> for this job changes its state: late starts,
  late results and further terminal marks are recorded or ignored without touching it.
\<close>

theorem memory_terminal_final:
  assumes "mem_invar s" and "list_all (op_ok (\<lambda>_. True) (\<lambda>_. True)) xs"
    and "list_all (\<lambda>x. \<not> overrides jid x) xs" and "is_terminal jid st (mem_abs s)"
  shows "fst (mem_State c jid (run_ops InMemoryJobsStorage xs s)) = Some st"
proof -
  from mem.terminal_final [OF assms] obtain e where
    "map_of (m_status (run_ops InMemoryJobsStorage xs s)) jid = Some e" "st_State (e_status e) = st"
    by (auto simp: is_terminal_def mem_abs_def)
  then show ?thesis by (simp add: mem_State_def)
qed

theorem memory_terminal_final_witness:
  "is_terminal ''a'' JobStateCompleted (mem_abs (run_ops InMemoryJobsStorage demo_ops NewInMemoryJobsStorage)) \<and>
   fst (mem_State None ''a'' (run_ops InMemoryJobsStorage
     [OStart None (\<lambda>_. 7) ''a'', OTerminal None (\<lambda>_. 8) ''a'' JobStateStopped]
     (run_ops InMemoryJobsStorage demo_ops NewInMemoryJobsStorage))) = Some JobStateCompleted"
proof -
  let ?s = "run_ops InMemoryJobsStorage demo_ops NewInMemoryJobsStorage"
  have "is_terminal ''a'' JobStateCompleted (mem_abs ?s)"
    by (simp add: run_demo is_terminal_def mem_abs_def)
  moreover have "mem_invar ?s" using mem_run_invar [OF demo_ops_ok] by simp
  ultimately show ?thesis
    using memory_terminal_final [of ?s "[OStart None (\<lambda>_. 7) ''a'', OTerminal None (\<lambda>_. 8) ''a'' JobStateStopped]"
        "''a''" JobStateCompleted None] by simp
qed

text \<open>
  (C35) Accounting. If the status of a job exists and no history of writes ever records more results
  than there are executions in progress, then afterwards the number of active runs has grown by
  the executions started minus the results recorded, and the number of runs by the results.
\<close>

theorem memory_executions_counted:
  assumes "mem_invar s" and "entries_ok (mem_abs s)"
    and "list_all (op_ok (\<lambda>_. True) (\<lambda>_. True)) xs" and "list_all (\<lambda>x. op_ctx x = c) xs"
    and "mem_Status c jid s = (Some st, s1)" and "balanced jid (st_ActiveRuns st) xs"
  shows "\<exists>st'. fst (mem_Status c jid (run_ops InMemoryJobsStorage xs s)) = Some st' \<and>
           st_ActiveRuns st' =
             st_ActiveRuns st + sum_list (map (starts jid) xs) - sum_list (map (results jid) xs) \<and>
           st_Runs st' = st_Runs st + sum_list (map (results jid) xs)"
proof -
  let ?s = "run_ops InMemoryJobsStorage xs s"
  from assms(5) obtain e where e: "map_of (m_status s) jid = Some e" "st = e_status e"
    by (auto simp: mem_Status_def)
  with assms(2) have ok: "entry_ok jid e" by (auto simp: entries_ok_def mem_abs_def)
  then have "counts jid (st_ActiveRuns st) (st_Runs st) (mem_abs s)"
    using e by (auto simp: counts_def mem_abs_def entry_ok_def)
  from mem.executions_counted [OF assms(1,3,4) TrueI this assms(6)] obtain e' where
    e': "map_of (m_status ?s) jid = Some e'"
      "e_activeRuns e' = st_ActiveRuns st + sum_list (map (starts jid) xs) - sum_list (map (results jid) xs)"
      "e_lastSequence e' = st_Runs st + sum_list (map (results jid) xs)"
    by (auto simp: counts_def mem_abs_def)
  have "entries_ok (mem_abs ?s)" using mem.entries_invariant [OF assms(1,3,2)] by simp
  with e'(1) have "entry_ok jid e'" by (auto simp: entries_ok_def mem_abs_def)
  with e' show ?thesis by (simp add: mem_Status_def entry_ok_def)
qed

theorem memory_executions_counted_witness:
  "\<exists>st'. fst (mem_Status None ''a'' (run_ops InMemoryJobsStorage
       [OStart None (\<lambda>_. 7) ''a'', OStart None (\<lambda>_. 8) ''a'', OResult None (\<lambda>_. 9) ''a'' demo_payload 1]
       (run_ops InMemoryJobsStorage demo_ops NewInMemoryJobsStorage))) = Some st' \<and>
     st_ActiveRuns st' = 1 \<and> st_Runs st' = 3"
proof -
  let ?s = "run_ops InMemoryJobsStorage demo_ops NewInMemoryJobsStorage"
  let ?xs = "[OStart None (\<lambda>_. 7) ''a'', OStart None (\<lambda>_. 8) ''a'', OResult None (\<lambda>_. 9) ''a'' demo_payload 1]"
  have "\<exists>st s1. mem_Status None ''a'' ?s = (Some st, s1) \<and> st_ActiveRuns st = 0 \<and> st_Runs st = 2"
    by (simp add: run_demo)
  then obtain st s1 where st: "mem_Status None ''a'' ?s = (Some st, s1)" "st_ActiveRuns st = 0" "st_Runs st = 2"
    by blast
  from memory_executions_counted [OF _ _ _ _ st(1), of ?xs] mem_run_invar [OF demo_ops_ok] st(2,3)
  show ?thesis by simp
qed

section \<open>The retained history\<close>

fun recorded :: "string \<Rightarrow> store_op list \<Rightarrow> CallbackPayload list" where
  "recorded jid [] = []"
| "recorded jid (OResult c now i p limit # xs) = (if i = jid then p # recorded jid xs else recorded jid xs)"
| "recorded jid (x # xs) = recorded jid xs"

text \<open>The runs of a job, numbered from one.\<close>

definition numbered :: "CallbackPayload list \<Rightarrow> JobRun list" where
  "numbered ps = map (\<lambda>i. \<lparr>jr_Sequence = int i + 1, jr_Payload = ps ! i\<rparr>) [0..<length ps]"

lemma numbered_snoc:
  "numbered (ps @ [p]) = numbered ps @ [\<lparr>jr_Sequence = int (length ps) + 1, jr_Payload = p\<rparr>]"
  by (simp add: numbered_def nth_append)

lemma last_n_snoc: "0 < n \<Longrightarrow> last_n n (last_n n xs @ [x]) = last_n n (xs @ [x])"
  by (cases "n \<le> length xs") (simp_all add: last_n_def Suc_diff_le)

fun limit_is :: "string \<Rightarrow> int \<Rightarrow> store_op \<Rightarrow> bool" where
  "limit_is jid l (OResult c now i p limit) = (i = jid \<longrightarrow> effective_limit limit = l)"
| "limit_is jid l x = True"

lemma run_history:
  assumes "map_of (m_status s) jid = Some e" and "e_lastSequence e = int (length ps)"
    and "e_history e = last_n (nat l) (numbered ps)" and "0 < l" and "list_all (limit_is jid l) xs"
  shows "\<exists>e'. map_of (m_status (run_ops InMemoryJobsStorage xs s)) jid = Some e' \<and>
           e_history e' = last_n (nat l) (numbered (ps @ recorded jid xs))"
  using assms
proof (induction xs arbitrary: s e ps)
  case (Cons x xs)
  note IH = Cons.IH [OF _ _ _ Cons.prems(4)]
  show ?case
  proof (cases "\<exists>c now p limit. x = OResult c now jid p limit")
    case True
    then obtain c now p limit where x: "x = OResult c now jid p limit" by blast
    have "effective_limit limit = l" using Cons.prems(5) x by simp
    with Cons.prems x show ?thesis
      using IH [of "apply_op InMemoryJobsStorage x s" "mem_record_entry (now 0) p limit e" "ps @ [p]"]
      by (simp add: InMemoryJobsStorage_def mem_RecordExecutionResult_def mem_record_entry_eq
          result_entry_def next_run_def numbered_snoc last_n_snoc Let_def)
  next
    case False
    then have "recorded jid (x # xs) = recorded jid xs" by (cases x) auto
    moreover have "\<exists>e1. map_of (m_status (apply_op InMemoryJobsStorage x s)) jid = Some e1 \<and>
        e_lastSequence e1 = e_lastSequence e \<and> e_history e1 = e_history e"
      using False Cons.prems(1)
      by (cases x) (auto simp: storage_defs Let_def split: option.splits)
    ultimately show ?thesis using IH Cons.prems(2,3,5) by fastforce
  qed
qed simp

text \<open>
  (C36) Retention. For a job whose status is created on a storage that does not have it yet, and
  whose results are all recorded with the same effective limit, the history read later is the
  last \<open>limit\<close> of all recorded runs, numbered in the order in which they were recorded. A limit
  that is not positive stands for the default of twenty.
\<close>

theorem memory_history_window:
  assumes "map_of (m_status s) jid = None" and "list_all (limit_is jid l) xs" and "0 < l"
  shows "fst (mem_History c jid (run_ops InMemoryJobsStorage (OUpsert c0 now jid st # xs) s)) =
           Some (last_n (nat l) (numbered (recorded jid xs)))"
proof -
  let ?s = "apply_op InMemoryJobsStorage (OUpsert c0 now jid st) s"
  have "\<exists>e. map_of (m_status ?s) jid = Some e \<and> e_lastSequence e = int (length []) \<and>
      e_history e = last_n (nat l) (numbered [])"
    using assms(1) by (simp add: storage_defs new_entry_def numbered_def last_n_def Let_def)
  with run_history [of ?s jid _ "[]" l xs] assms(2,3) show ?thesis
    by (fastforce simp: mem_History_def)
qed

theorem memory_history_window_witness:
  "fst (mem_History None ''a'' (run_ops InMemoryJobsStorage demo_ops NewInMemoryJobsStorage)) =
     Some [\<lparr>jr_Sequence = 2, jr_Payload = demo_payload\<rparr>]"
  using memory_history_window [of NewInMemoryJobsStorage "''a''" 1 "tl demo_ops" None None "\<lambda>_. 1" JobStateScheduled]
  by (simp add: NewInMemoryJobsStorage_def demo_ops_def effective_limit_def numbered_def last_n_def)

end
