(* ===== verification/Sql_Database.thy ===== *)
theory Sql_Database
  imports Store_Contract
begin

text \<open>
  The database under \<open>storage_sqlite.go\<close>. The SQL statements of that file are a datatype, and what
  they do to the three tables is written out from the meaning of SQL. The engine that runs them
  (SQLite behind \<open>database/sql\<close>) and the JSON encoder are not part of the repository: they are
  records of operations, given to every function that uses them. The locales \<open>sql_engine\<close> and
  \<open>json_codec\<close> say what the sources rely on: a statement that succeeds had its effect, a rollback
  restores the tables of the start of the transaction, and what was encoded can be decoded.
\<close>

section \<open>Tables\<close>

text \<open>The encoded columns are opaque to the storage; their type is a parameter.\<close>

record 'b status_row =
  sr_id :: string
  sr_status_json :: 'b
  sr_active_runs :: int
  sr_terminal :: int
  sr_last_sequence :: int

record 'b history_row =
  hr_id :: string
  hr_sequence :: int
  hr_payload_json :: 'b
  hr_finished_at :: int

text \<open>
  The tables, and which of them exist. A history table of an earlier version has no column
  \<open>finished_at_unix_nano\<close>.
\<close>

record 'b tables =
  tb_jobs :: "(string \<times> 'b) list"
  tb_status :: "'b status_row list"
  tb_history :: "'b history_row list"
  tb_has_jobs :: bool
  tb_has_status :: bool
  tb_has_history :: bool
  tb_has_finished :: bool

section \<open>Statements\<close>

datatype 'b statement =
    Pragma string
  | CreateJobs
  | CreateStatus
  | CreateHistory
  | CreateHistoryIndex
  | AlterHistoryAddFinishedAt
  | InsertJob string 'b
  | DeleteJob string
  | UpsertStatusRow "'b status_row"
  | InsertHistory "'b history_row"
  | TrimHistory string int
  | PruneJobOlderThan string int
  | PruneOlderThan int
  | PruneMaxRows int

datatype 'b selected =
    One
  | Counted int
  | JobId string
  | StatusRow 'b int int int
  | StatusOf string 'b int
  | Run int 'b

datatype query =
    JobExists string
  | CountJobs
  | SelectJobIds
  | SelectStatus string
  | StatusExists string
  | SelectStatuses
  | SelectHistory string

text \<open>
  \<open>DELETE FROM scheduler_job_history WHERE ...\<close>: the rows that satisfy the condition go, and
  their number is reported.
\<close>

definition delete_history :: "('b history_row \<Rightarrow> bool) \<Rightarrow> 'b tables \<Rightarrow> int \<times> 'b tables" where
  "delete_history P t =
     (int (length (filter P (tb_history t))), t\<lparr>tb_history := filter (\<lambda>r. \<not> P r) (tb_history t)\<rparr>)"

definition too_old :: "int \<Rightarrow> 'b history_row \<Rightarrow> bool" where
  "too_old cutoff r \<longleftrightarrow> hr_finished_at r > 0 \<and> hr_finished_at r < cutoff"

text \<open>
  \<open>ROW_NUMBER() OVER (PARTITION BY id ORDER BY sequence DESC)\<close>: one more than the number of rows
  of the same job with a later sequence.
\<close>

definition row_number :: "'b tables \<Rightarrow> 'b history_row \<Rightarrow> int" where
  "row_number t r =
     1 + int (length (filter (\<lambda>q. hr_id q = hr_id r \<and> hr_sequence q > hr_sequence r) (tb_history t)))"

text \<open>
  What a statement does: the number of affected rows and the new tables, or nothing when it is
  rejected (a duplicate key, a missing or duplicate column, a missing table).
\<close>

fun sql_exec :: "'b statement \<Rightarrow> 'b tables \<Rightarrow> (int \<times> 'b tables) option" where
  "sql_exec (Pragma p) t = Some (0, t)"
| "sql_exec CreateJobs t =
     Some (0, if tb_has_jobs t then t else t\<lparr>tb_has_jobs := True, tb_jobs := []\<rparr>)"
| "sql_exec CreateStatus t =
     Some (0, if tb_has_status t then t else t\<lparr>tb_has_status := True, tb_status := []\<rparr>)"
| "sql_exec CreateHistory t =
     Some (0, if tb_has_history t then t
              else t\<lparr>tb_has_history := True, tb_has_finished := True, tb_history := []\<rparr>)"
| "sql_exec CreateHistoryIndex t = (if tb_has_history t then Some (0, t) else None)"
| "sql_exec AlterHistoryAddFinishedAt t =
     (if \<not> tb_has_history t \<or> tb_has_finished t then None
      else Some (0, t\<lparr>tb_has_finished := True,
                      tb_history := map (\<lambda>r. r\<lparr>hr_finished_at := 0\<rparr>) (tb_history t)\<rparr>))"
| "sql_exec (InsertJob i data) t =
     (if \<not> tb_has_jobs t \<or> i \<in> fst ` set (tb_jobs t) then None
      else Some (1, t\<lparr>tb_jobs := tb_jobs t @ [(i, data)]\<rparr>))"
| "sql_exec (DeleteJob i) t =
     (if \<not> tb_has_jobs t then None
      else Some (int (length (filter (\<lambda>r. fst r = i) (tb_jobs t))),
                 t\<lparr>tb_jobs := filter (\<lambda>r. fst r \<noteq> i) (tb_jobs t)\<rparr>))"
| "sql_exec (UpsertStatusRow r) t =
     (if \<not> tb_has_status t then None
      else Some (1, t\<lparr>tb_status :=
             (if sr_id r \<in> sr_id ` set (tb_status t)
              then map (\<lambda>q. if sr_id q = sr_id r then r else q) (tb_status t)
              else tb_status t @ [r])\<rparr>))"
| "sql_exec (InsertHistory r) t =
     (if \<not> tb_has_history t \<or> \<not> tb_has_finished t \<or>
         (hr_id r, hr_sequence r) \<in> (\<lambda>q. (hr_id q, hr_sequence q)) ` set (tb_history t) then None
      else Some (1, t\<lparr>tb_history := tb_history t @ [r]\<rparr>))"
| "sql_exec (TrimHistory i n) t =
     (if \<not> tb_has_history t then None
      else Some (delete_history (\<lambda>r. hr_id r = i \<and> hr_sequence r \<le> n) t))"
| "sql_exec (PruneJobOlderThan i cutoff) t =
     (if \<not> tb_has_history t \<or> \<not> tb_has_finished t then None
      else Some (delete_history (\<lambda>r. hr_id r = i \<and> too_old cutoff r) t))"
| "sql_exec (PruneOlderThan cutoff) t =
     (if \<not> tb_has_history t \<or> \<not> tb_has_finished t then None
      else Some (delete_history (too_old cutoff) t))"
| "sql_exec (PruneMaxRows n) t =
     (if \<not> tb_has_history t then None else Some (delete_history (\<lambda>r. row_number t r > n) t))"

fun sql_query :: "query \<Rightarrow> 'b tables \<Rightarrow> 'b selected list" where
  "sql_query (JobExists i) t = map (\<lambda>_. One) (take 1 (filter (\<lambda>r. fst r = i) (tb_jobs t)))"
| "sql_query CountJobs t = [Counted (int (length (tb_jobs t)))]"
| "sql_query SelectJobIds t = map JobId (sort (map fst (tb_jobs t)))"
| "sql_query (SelectStatus i) t =
     map (\<lambda>r. StatusRow (sr_status_json r) (sr_active_runs r) (sr_terminal r) (sr_last_sequence r))
       (filter (\<lambda>r. sr_id r = i) (tb_status t))"
| "sql_query (StatusExists i) t = map (\<lambda>_. One) (take 1 (filter (\<lambda>r. sr_id r = i) (tb_status t)))"
| "sql_query SelectStatuses t =
     map (\<lambda>r. StatusOf (sr_id r) (sr_status_json r) (sr_active_runs r)) (sort_key sr_id (tb_status t))"
| "sql_query (SelectHistory i) t =
     map (\<lambda>r. Run (hr_sequence r) (hr_payload_json r))
       (sort_key hr_sequence (filter (\<lambda>r. hr_id r = i) (tb_history t)))"

text \<open>Which tables a query needs.\<close>

fun query_ready :: "query \<Rightarrow> 'b tables \<Rightarrow> bool" where
  "query_ready (JobExists i) t = tb_has_jobs t"
| "query_ready CountJobs t = tb_has_jobs t"
| "query_ready SelectJobIds t = tb_has_jobs t"
| "query_ready (SelectStatus i) t = tb_has_status t"
| "query_ready (StatusExists i) t = tb_has_status t"
| "query_ready SelectStatuses t = tb_has_status t"
| "query_ready (SelectHistory i) t = tb_has_history t"

section \<open>The engine\<close>

text \<open>
  The calls of \<open>database/sql\<close> the storage makes. \<open>Exec\<close> gives an error or the result of
  \<open>RowsAffected\<close>; \<open>Query\<close> gives an error (from the query, a scan or the end of the rows) or the
  rows.
\<close>

record ('d, 'b) database =
  db_BeginTx :: "ctx \<Rightarrow> 'd \<Rightarrow> goerr option \<times> 'd"
  db_Commit :: "'d \<Rightarrow> goerr option \<times> 'd"
  db_Rollback :: "'d \<Rightarrow> goerr option \<times> 'd"
  db_Exec :: "ctx \<Rightarrow> 'b statement \<Rightarrow> 'd \<Rightarrow> (goerr + (goerr + int)) \<times> 'd"
  db_Query :: "ctx \<Rightarrow> query \<Rightarrow> 'd \<Rightarrow> (goerr + 'b selected list) \<times> 'd"
  db_Close :: "'d \<Rightarrow> goerr option \<times> 'd"

definition sql_ErrNoRows :: goerr where
  "sql_ErrNoRows = Sentinel ''sql.ErrNoRows'' ''sql: no rows in result set''"

text \<open>
  \<open>strings.ToLower\<close> and \<open>strings.Contains\<close>, for the ASCII text they are used on.
\<close>

definition lower_char :: "char \<Rightarrow> char" where
  "lower_char c = (if 65 \<le> (of_char c :: nat) \<and> (of_char c :: nat) \<le> 90
                   then char_of ((of_char c :: nat) + 32) else c)"

definition str_ToLower :: "string \<Rightarrow> string" where
  "str_ToLower s = map lower_char s"

fun starts_with :: "string \<Rightarrow> string \<Rightarrow> bool" where
  "starts_with [] s = True"
| "starts_with (c # cs) [] = False"
| "starts_with (c # cs) (d # ds) = (c = d \<and> starts_with cs ds)"

fun str_Contains :: "string \<Rightarrow> string \<Rightarrow> bool" where
  "str_Contains [] sub = (sub = [])"
| "str_Contains (c # cs) sub = (starts_with sub (c # cs) \<or> str_Contains cs sub)"

definition isSQLiteUniqueViolation :: "runtime \<Rightarrow> goerr option \<Rightarrow> bool" where
  "isSQLiteUniqueViolation rt err =
     (case err of
        None \<Rightarrow> False
      | Some e \<Rightarrow> let msg = str_ToLower (err_Error rt e)
                  in str_Contains msg ''constraint failed'' \<and> str_Contains msg ''unique'')"

definition isSQLiteDuplicateColumnError :: "runtime \<Rightarrow> goerr option \<Rightarrow> bool" where
  "isSQLiteDuplicateColumnError rt err =
     (case err of
        None \<Rightarrow> False
      | Some e \<Rightarrow> let msg = str_ToLower (err_Error rt e) in str_Contains msg ''duplicate column name'')"

text \<open>
  The contract. \<open>tab\<close> is what the connection sees, \<open>saved\<close> the tables at the start of the
  transaction if one is open, \<open>healthy\<close> that the engine will not fail on its own. A failed
  statement may end the transaction (as the end of its context does); the rollback that follows
  restores the saved tables in any case, and so does a failed commit. With a context that is done,
  no call succeeds.
\<close>

locale sql_engine =
  fixes rt :: runtime and db :: "('d, 'b) database" and tab :: "'d \<Rightarrow> 'b tables"
    and saved :: "'d \<Rightarrow> 'b tables option" and healthy :: "'d \<Rightarrow> bool"
  assumes begin_ok: "db_BeginTx db c d = (None, d') \<Longrightarrow> saved d = None \<Longrightarrow>
      c = None \<and> tab d' = tab d \<and> saved d' = Some (tab d)"
    and begin_err: "db_BeginTx db c d = (Some e, d') \<Longrightarrow> saved d = None \<Longrightarrow> tab d' = tab d \<and> saved d' = None"
    and begin_live: "db_BeginTx db None d = (r, d') \<Longrightarrow> saved d = None \<Longrightarrow> healthy d \<Longrightarrow> r = None \<and> healthy d'"
    and commit_ok: "db_Commit db d = (None, d') \<Longrightarrow> saved d = Some t \<Longrightarrow> tab d' = tab d \<and> saved d' = None"
    and commit_err: "db_Commit db d = (Some e, d') \<Longrightarrow> saved d = Some t \<Longrightarrow> tab d' = t \<and> saved d' = None"
    and commit_live: "db_Commit db d = (r, d') \<Longrightarrow> saved d = Some t \<Longrightarrow> healthy d \<Longrightarrow> r = None \<and> healthy d'"
    and rollback_tx: "db_Rollback db d = (r, d') \<Longrightarrow> saved d = Some t \<Longrightarrow> tab d' = t \<and> saved d' = None"
    and rollback_done: "db_Rollback db d = (r, d') \<Longrightarrow> saved d = None \<Longrightarrow>
      tab d' = tab d \<and> saved d' = None \<and> (healthy d \<longrightarrow> healthy d')"
    and exec_ok: "db_Exec db c st d = (Inr n, d') \<Longrightarrow> c = None \<and> saved d' = saved d \<and>
      (\<exists>m. sql_exec st (tab d) = Some (m, tab d') \<and> (\<forall>k. n = Inr k \<longrightarrow> k = m))"
    and exec_err: "db_Exec db c st d = (Inl e, d') \<Longrightarrow> saved d' = saved d \<and> (saved d = None \<longrightarrow> tab d' = tab d)"
    and exec_live: "db_Exec db None st d = (x, d') \<Longrightarrow> healthy d \<Longrightarrow> healthy d' \<and>
      (sql_exec st (tab d) \<noteq> None \<longrightarrow> (\<exists>n. x = Inr (Inr n)))"
    and query_ok: "db_Query db c q d = (Inr rows, d') \<Longrightarrow> c = None \<and> tab d' = tab d \<and> saved d' = saved d \<and>
      rows = sql_query q (tab d)"
    and query_err: "db_Query db c q d = (Inl e, d') \<Longrightarrow> saved d' = saved d \<and> (saved d = None \<longrightarrow> tab d' = tab d) \<and>
      \<not> errors_Is rt e sql_ErrNoRows"
    and query_live: "db_Query db None q d = (y, d') \<Longrightarrow> healthy d \<Longrightarrow> healthy d' \<and>
      (query_ready q (tab d) \<longrightarrow> (\<exists>rows. y = Inr rows))"
    and unique_err: "db_Exec db c (InsertJob i data) d = (Inl e, d') \<Longrightarrow> tb_has_jobs (tab d) \<Longrightarrow>
      isSQLiteUniqueViolation rt (Some e) \<Longrightarrow> i \<in> fst ` set (tb_jobs (tab d))"
    and unique_reported: "db_Exec db None (InsertJob i data) d = (Inl e, d') \<Longrightarrow> healthy d \<Longrightarrow>
      i \<in> fst ` set (tb_jobs (tab d)) \<Longrightarrow> isSQLiteUniqueViolation rt (Some e)"
    and duplicate_column: "db_Exec db None AlterHistoryAddFinishedAt d = (Inl e, d') \<Longrightarrow> healthy d \<Longrightarrow>
      tb_has_finished (tab d) \<Longrightarrow> isSQLiteDuplicateColumnError rt (Some e)"
    and duplicate_err: "db_Exec db c AlterHistoryAddFinishedAt d = (Inl e, d') \<Longrightarrow>
      isSQLiteDuplicateColumnError rt (Some e) \<Longrightarrow> tb_has_history (tab d) \<Longrightarrow> tb_has_finished (tab d)"
    and no_rows: "errors_Is rt sql_ErrNoRows sql_ErrNoRows"

section \<open>The encoder\<close>

record sqliteStatusData =
  sd_JobID :: string
  sd_State :: JobState
  sd_CreatedAt :: gotime
  sd_UpdatedAt :: gotime
  sd_Runs :: int
  sd_ActiveRuns :: int
  sd_LastRun :: "CallbackPayload option"

text \<open>\<open>json.Marshal\<close> and \<open>json.Unmarshal\<close> at the types the storage uses them at.\<close>

record 'b codec =
  marshal_job :: "string \<Rightarrow> goerr + 'b"
  marshal_status :: "sqliteStatusData \<Rightarrow> goerr + 'b"
  unmarshal_status :: "'b \<Rightarrow> goerr + sqliteStatusData"
  marshal_payload :: "CallbackPayload \<Rightarrow> goerr + 'b"
  unmarshal_payload :: "'b \<Rightarrow> goerr + CallbackPayload"

text \<open>
  Texts that are valid UTF-8 (\<open>okid\<close>, and \<open>okpay\<close> for the texts of a payload) are encoded and
  decoded without change.
\<close>

definition status_repr :: "(string \<Rightarrow> bool) \<Rightarrow> (CallbackPayload \<Rightarrow> bool) \<Rightarrow> sqliteStatusData \<Rightarrow> bool" where
  "status_repr okid okpay x \<longleftrightarrow> okid (sd_JobID x) \<and> named_state (sd_State x) \<and> pred_option okpay (sd_LastRun x)"

locale json_codec =
  fixes js :: "'b codec" and okid :: "string \<Rightarrow> bool" and okpay :: "CallbackPayload \<Rightarrow> bool"
  assumes job_encodes: "\<exists>b. marshal_job js i = Inr b"
    and status_roundtrip: "status_repr okid okpay x \<Longrightarrow>
      \<exists>b. marshal_status js x = Inr b \<and> unmarshal_status js b = Inr x"
    and payload_roundtrip: "okpay p \<Longrightarrow> \<exists>b. marshal_payload js p = Inr b \<and> unmarshal_payload js b = Inr p"

end
