(* ===== verification/Sqlite_Storage.thy ===== *)
theory Sqlite_Storage
  imports Sql_Database
begin

text \<open>
  \<open>pkg/scheduler/storage_sqlite.go\<close>: the storage over a database engine \<open>db\<close> and an encoder
  \<open>js\<close>, function by function. A function that talks to the database takes its state and returns
  it; a function that runs in a transaction is a computation that stops at the first error.
\<close>

section \<open>Computations in a transaction\<close>

type_synonym ('d, 'a) tx = "'d \<Rightarrow> (goerr + 'a) \<times> 'd"

definition tx_return :: "'a \<Rightarrow> ('d, 'a) tx" where
  "tx_return x d = (Inr x, d)"

definition tx_lift :: "goerr + 'a \<Rightarrow> ('d, 'a) tx" where
  "tx_lift r d = (r, d)"

definition tx_bind :: "('d, 'a) tx \<Rightarrow> ('a \<Rightarrow> ('d, 'c) tx) \<Rightarrow> ('d, 'c) tx" where
  "tx_bind m f d = (case m d of (Inl e, d') \<Rightarrow> (Inl e, d') | (Inr x, d') \<Rightarrow> f x d')"

text \<open>\<open>ewrap.Wrapf(ErrStorageOperation, fmt, err)\<close>\<close>

definition storage_failed :: "string \<Rightarrow> goerr \<Rightarrow> goerr" where
  "storage_failed f e = Wrapf ErrStorageOperation f [FErr e]"

text \<open>\<open>tx.ExecContext\<close> with its error wrapped, the result dropped or read by \<open>rowsAffected\<close>.\<close>

definition tx_exec :: "('d, 'b) database \<Rightarrow> ctx \<Rightarrow> 'b statement \<Rightarrow> string \<Rightarrow> ('d, goerr + int) tx" where
  "tx_exec db c st msg d =
     (case db_Exec db c st d of
        (Inl e, d') \<Rightarrow> (Inl (storage_failed msg e), d')
      | (Inr n, d') \<Rightarrow> (Inr n, d'))"

definition rowsAffected :: "goerr + int \<Rightarrow> goerr + int" where
  "rowsAffected res =
     (case res of Inl e \<Rightarrow> Inl (storage_failed ''rows affected failed: %v'' e) | Inr n \<Rightarrow> Inr n)"

text \<open>\<open>QueryRowContext\<close> followed by \<open>Scan\<close>: the first row, or \<open>sql.ErrNoRows\<close>.\<close>

definition sql_QueryRow :: "('d, 'b) database \<Rightarrow> ctx \<Rightarrow> query \<Rightarrow> ('d, 'b selected) tx" where
  "sql_QueryRow db c q d =
     (case db_Query db c q d of
        (Inl e, d') \<Rightarrow> (Inl e, d')
      | (Inr [], d') \<Rightarrow> (Inl sql_ErrNoRows, d')
      | (Inr (r # rs), d') \<Rightarrow> (Inr r, d'))"

section \<open>Status records\<close>

record sqliteStatusRecord =
  re_status :: sqliteStatusData
  re_activeRuns :: int
  re_terminal :: bool
  re_lastSequence :: int
  re_found :: bool

definition sqliteStatusToJobStatus :: "sqliteStatusData \<Rightarrow> int \<Rightarrow> JobStatus" where
  "sqliteStatusToJobStatus data activeRuns =
     \<lparr>st_JobID = sd_JobID data, st_State = sd_State data, st_CreatedAt = sd_CreatedAt data,
      st_UpdatedAt = sd_UpdatedAt data, st_Runs = sd_Runs data, st_ActiveRuns = activeRuns,
      st_LastRun = map_option cloneCallbackPayload (sd_LastRun data)\<rparr>"

definition jobStatusToSQLiteStatus :: "JobStatus \<Rightarrow> sqliteStatusData" where
  "jobStatusToSQLiteStatus status =
     \<lparr>sd_JobID = st_JobID status, sd_State = st_State status, sd_CreatedAt = st_CreatedAt status,
      sd_UpdatedAt = st_UpdatedAt status, sd_Runs = st_Runs status, sd_ActiveRuns = st_ActiveRuns status,
      sd_LastRun = map_option cloneCallbackPayload (st_LastRun status)\<rparr>"

definition zero_status :: sqliteStatusData where
  "zero_status = \<lparr>sd_JobID = '''', sd_State = JobStateOther '''', sd_CreatedAt = None, sd_UpdatedAt = None,
     sd_Runs = 0, sd_ActiveRuns = 0, sd_LastRun = None\<rparr>"

definition no_record :: sqliteStatusRecord where
  "no_record = \<lparr>re_status = zero_status, re_activeRuns = 0, re_terminal = False, re_lastSequence = 0,
     re_found = False\<rparr>"

definition decodeSQLiteStatus :: "'b codec \<Rightarrow> 'b \<Rightarrow> int \<Rightarrow> goerr + JobStatus" where
  "decodeSQLiteStatus js data activeRuns =
     (case unmarshal_status js data of
        Inl e \<Rightarrow> Inl (storage_failed ''unmarshal status failed: %v'' e)
      | Inr x \<Rightarrow> Inr (sqliteStatusToJobStatus x activeRuns))"

text \<open>
  \<open>loadStatusRecordQueryRow\<close>. A row of another query cannot come out of this one; \<open>Scan\<close> would
  report it.
\<close>

definition loadStatusRecordQueryRow ::
  "runtime \<Rightarrow> 'b codec \<Rightarrow> goerr + 'b selected \<Rightarrow> goerr + sqliteStatusRecord" where
  "loadStatusRecordQueryRow rt js row =
     (case row of
        Inl e \<Rightarrow>
          if errors_Is rt e sql_ErrNoRows then Inr no_record
          else Inl (storage_failed ''load status failed: %v'' e)
      | Inr (StatusRow data activeRuns terminalFlag lastSequence) \<Rightarrow>
          (case decodeSQLiteStatus js data activeRuns of
             Inl e \<Rightarrow> Inl e
           | Inr status \<Rightarrow>
               Inr \<lparr>re_status = jobStatusToSQLiteStatus status, re_activeRuns = activeRuns,
                    re_terminal = (terminalFlag = 1), re_lastSequence = lastSequence, re_found = True\<rparr>)
      | Inr _ \<Rightarrow> Inl (storage_failed ''load status failed: %v'' (Sentinel ''sql.Scan'' ''sql: Scan error'')))"

definition loadStatusRecordTx ::
  "runtime \<Rightarrow> 'b codec \<Rightarrow> ('d, 'b) database \<Rightarrow> ctx \<Rightarrow> string \<Rightarrow> ('d, sqliteStatusRecord) tx" where
  "loadStatusRecordTx rt js db c jid d =
     (let (row, d') = sql_QueryRow db c (SelectStatus jid) d in (loadStatusRecordQueryRow rt js row, d'))"

definition loadStatusRecord ::
  "runtime \<Rightarrow> 'b codec \<Rightarrow> ('d, 'b) database \<Rightarrow> ctx \<Rightarrow> string \<Rightarrow> 'd \<Rightarrow> sqliteStatusRecord option \<times> 'd" where
  "loadStatusRecord rt js db c jid d =
     (let (row, d') = sql_QueryRow db c (SelectStatus jid) d
      in (case loadStatusRecordQueryRow rt js row of
            Inl e \<Rightarrow> None
          | Inr record \<Rightarrow> if re_found record then Some record else None, d'))"

definition statusExists :: "('d, 'b) database \<Rightarrow> ctx \<Rightarrow> string \<Rightarrow> 'd \<Rightarrow> bool \<times> 'd" where
  "statusExists db c jid d =
     (let (row, d') = sql_QueryRow db c (StatusExists jid) d in (row = Inr One, d'))"

definition upsertStatusRecordTx ::
  "'b codec \<Rightarrow> ('d, 'b) database \<Rightarrow> ctx \<Rightarrow> string \<Rightarrow> sqliteStatusRecord \<Rightarrow> ('d, unit) tx" where
  "upsertStatusRecordTx js db c jid record =
     (let status = (re_status record)\<lparr>sd_JobID := jid, sd_ActiveRuns := re_activeRuns record\<rparr> in
      case marshal_status js status of
        Inl e \<Rightarrow> tx_lift (Inl (storage_failed ''marshal status failed: %v'' e))
      | Inr statusData \<Rightarrow>
          tx_bind (tx_exec db c (UpsertStatusRow \<lparr>sr_id = jid, sr_status_json = statusData,
                     sr_active_runs = re_activeRuns record, sr_terminal = (if re_terminal record then 1 else 0),
                     sr_last_sequence = re_lastSequence record\<rparr>) ''upsert status failed: %v'')
            (\<lambda>_. tx_return ()))"

section \<open>History rows\<close>

text \<open>\<open>UnixNano\<close> of an instant is the instant; of the zero time it is not taken.\<close>

definition payloadFinishedAtUnixNano :: "CallbackPayload \<Rightarrow> int" where
  "payloadFinishedAtUnixNano payload = (case cp_FinishedAt payload of None \<Rightarrow> 0 | Some t \<Rightarrow> t)"

definition insertHistoryTx ::
  "'b codec \<Rightarrow> ('d, 'b) database \<Rightarrow> ctx \<Rightarrow> string \<Rightarrow> int \<Rightarrow> CallbackPayload \<Rightarrow> ('d, unit) tx" where
  "insertHistoryTx js db c jid lseq payload =
     (case marshal_payload js (cloneCallbackPayload payload) of
        Inl e \<Rightarrow> tx_lift (Inl (storage_failed ''marshal execution payload failed: %v'' e))
      | Inr payloadData \<Rightarrow>
          tx_bind (tx_exec db c (InsertHistory \<lparr>hr_id = jid, hr_sequence = lseq, hr_payload_json = payloadData,
                     hr_finished_at = payloadFinishedAtUnixNano payload\<rparr>) ''insert execution history failed: %v'')
            (\<lambda>_. tx_return ()))"

definition trimHistoryTx :: "('d, 'b) database \<Rightarrow> ctx \<Rightarrow> string \<Rightarrow> int \<Rightarrow> int \<Rightarrow> ('d, unit) tx" where
  "trimHistoryTx db c jid lseq historyLimit =
     (let trimBefore = lseq - historyLimit in
      if trimBefore \<le> 0 then tx_return ()
      else tx_bind (tx_exec db c (TrimHistory jid trimBefore) ''trim execution history failed: %v'')
             (\<lambda>_. tx_return ()))"

definition pruneHistoryOlderThanForJobTx ::
  "('d, 'b) database \<Rightarrow> ctx \<Rightarrow> string \<Rightarrow> int \<Rightarrow> ('d, int) tx" where
  "pruneHistoryOlderThanForJobTx db c jid cutoff =
     tx_bind (tx_exec db c (PruneJobOlderThan jid cutoff) ''prune execution history by age for job failed: %v'')
       (\<lambda>res. tx_lift (rowsAffected res))"

definition pruneHistoryOlderThanTx :: "('d, 'b) database \<Rightarrow> ctx \<Rightarrow> int \<Rightarrow> ('d, int) tx" where
  "pruneHistoryOlderThanTx db c cutoff =
     tx_bind (tx_exec db c (PruneOlderThan cutoff) ''prune execution history by age failed: %v'')
       (\<lambda>res. tx_lift (rowsAffected res))"

definition pruneHistoryMaxRowsPerJobTx :: "('d, 'b) database \<Rightarrow> ctx \<Rightarrow> int \<Rightarrow> ('d, int) tx" where
  "pruneHistoryMaxRowsPerJobTx db c maxRowsPerJob =
     tx_bind (tx_exec db c (PruneMaxRows maxRowsPerJob) ''prune execution history by max rows failed: %v'')
       (\<lambda>res. tx_lift (rowsAffected res))"

definition mergeHistoryLimit :: "int \<Rightarrow> int \<Rightarrow> int" where
  "mergeHistoryLimit historyLimit maxRowsPerJob =
     (if maxRowsPerJob \<le> 0 then historyLimit
      else if historyLimit \<le> 0 then maxRowsPerJob
      else min historyLimit maxRowsPerJob)"

definition applyExecutionResult ::
  "instant \<Rightarrow> sqliteStatusRecord \<Rightarrow> CallbackPayload \<Rightarrow> sqliteStatusRecord" where
  "applyExecutionResult now record payload =
     (let active = (if re_activeRuns record > 0 then re_activeRuns record - 1 else re_activeRuns record);
          status = (re_status record)\<lparr>sd_Runs := re_lastSequence record,
                     sd_LastRun := Some (cloneCallbackPayload payload), sd_ActiveRuns := active,
                     sd_UpdatedAt := Some now\<rparr>;
          status1 = (if re_terminal record then status
                     else if active > 0 then status\<lparr>sd_State := JobStateRunning\<rparr>
                     else status\<lparr>sd_State := JobStateScheduled\<rparr>)
      in record\<lparr>re_activeRuns := active, re_status := status1\<rparr>)"

section \<open>Transactions\<close>

text \<open>\<open>rollbackTx\<close> drops the error, whichever it is.\<close>

definition rollbackTx :: "('d, 'b) database \<Rightarrow> 'd \<Rightarrow> 'd" where
  "rollbackTx db d = snd (db_Rollback db d)"

declare rollbackTx_def [simp]

text \<open>
  \<open>withWriteTx\<close>: the deferred rollback runs on every path once the transaction has begun; after a
  commit it finds the transaction done.
\<close>

definition withWriteTx :: "('d, 'b) database \<Rightarrow> ctx \<Rightarrow> string \<Rightarrow> ('d, 'a) tx \<Rightarrow> ('d, 'a) tx" where
  "withWriteTx db c operation fn d =
     (case db_BeginTx db c d of
        (Some e, d1) \<Rightarrow> (Inl (Wrapf ErrStorageOperation ''begin %s tx failed: %v'' [FStr operation, FErr e]), d1)
      | (None, d1) \<Rightarrow>
          (case fn d1 of
             (Inl e, d2) \<Rightarrow> (Inl e, rollbackTx db d2)
           | (Inr x, d2) \<Rightarrow>
               (case db_Commit db d2 of
                  (Some e, d3) \<Rightarrow>
                    (Inl (Wrapf ErrStorageOperation ''commit %s failed: %v'' [FStr operation, FErr e]),
                     rollbackTx db d3)
                | (None, d3) \<Rightarrow> (Inr x, rollbackTx db d3))))"

section \<open>The storage\<close>

record 'd sqlite =
  q_db :: 'd
  q_MaxAge :: duration
  q_MaxRowsPerJob :: int

text \<open>The error of a computation, and the database it leaves.\<close>

definition run_tx :: "('d, 'a) tx \<Rightarrow> 'd sqlite \<Rightarrow> (goerr + 'a) \<times> 'd sqlite" where
  "run_tx m s = (let (r, d) = m (q_db s) in (r, s\<lparr>q_db := d\<rparr>))"

definition run_write :: "('d, 'a) tx \<Rightarrow> 'd sqlite \<Rightarrow> goerr option \<times> 'd sqlite" where
  "run_write m s = (let (r, s') = run_tx m s in (case r of Inl e \<Rightarrow> Some e | Inr x \<Rightarrow> None, s'))"

definition sqlite_Close :: "('d, 'b) database \<Rightarrow> 'd sqlite \<Rightarrow> goerr option \<times> 'd sqlite" where
  "sqlite_Close db s =
     (let (err, d) = db_Close db (q_db s)
      in (map_option (storage_failed ''close sqlite failed: %v'') err, s\<lparr>q_db := d\<rparr>))"

definition sqlite_Save ::
  "runtime \<Rightarrow> 'b codec \<Rightarrow> ('d, 'b) database \<Rightarrow> ctx \<Rightarrow> Job \<Rightarrow> 'd sqlite \<Rightarrow> goerr option \<times> 'd sqlite" where
  "sqlite_Save rt js db c job s =
     (case marshal_job js (j_ID job) of
        Inl e \<Rightarrow> (Some (storage_failed ''marshal job data failed: %v'' e), s)
      | Inr data \<Rightarrow>
          let (res, d) = db_Exec db c (InsertJob (j_ID job) data) (q_db s) in
          (case res of
             Inl e \<Rightarrow>
               Some (if isSQLiteUniqueViolation rt (Some e)
                     then Wrapf errJobAlreadyExists ''job ID: %s'' [FStr (j_ID job)]
                     else storage_failed ''insert job failed: %v'' e)
           | Inr _ \<Rightarrow> None, s\<lparr>q_db := d\<rparr>))"

definition sqlite_Delete :: "('d, 'b) database \<Rightarrow> ctx \<Rightarrow> string \<Rightarrow> 'd sqlite \<Rightarrow> bool \<times> 'd sqlite" where
  "sqlite_Delete db c jid s =
     (let (res, d) = db_Exec db c (DeleteJob jid) (q_db s) in
      (case res of Inl e \<Rightarrow> False | Inr (Inl e) \<Rightarrow> False | Inr (Inr affected) \<Rightarrow> affected > 0, s\<lparr>q_db := d\<rparr>))"

definition sqlite_Exists :: "('d, 'b) database \<Rightarrow> ctx \<Rightarrow> string \<Rightarrow> 'd sqlite \<Rightarrow> bool \<times> 'd sqlite" where
  "sqlite_Exists db c jid s =
     (let (row, s') = run_tx (sql_QueryRow db c (JobExists jid)) s in (row = Inr One, s'))"

definition sqlite_Count :: "('d, 'b) database \<Rightarrow> ctx \<Rightarrow> 'd sqlite \<Rightarrow> int \<times> 'd sqlite" where
  "sqlite_Count db c s =
     (let (row, s') = run_tx (sql_QueryRow db c CountJobs) s
      in (case row of Inr (Counted n) \<Rightarrow> n | _ \<Rightarrow> 0, s'))"

text \<open>
  The rows of a query through \<open>rows.Next\<close> and \<open>Scan\<close>: a row that cannot be used ends the loop
  without a result. The deferred \<open>rows.Close\<close> assigns to a local variable after the result was
  returned, so it has no effect on it.
\<close>

fun scan_rows :: "('r \<Rightarrow> 'a option) \<Rightarrow> 'r list \<Rightarrow> 'a list option" where
  "scan_rows f [] = Some []"
| "scan_rows f (r # rs) =
     (case f r of
        None \<Rightarrow> None
      | Some x \<Rightarrow> map_option (\<lambda>xs. x # xs) (scan_rows f rs))"

definition query_rows ::
  "('d, 'b) database \<Rightarrow> ctx \<Rightarrow> query \<Rightarrow> ('b selected \<Rightarrow> 'a option) \<Rightarrow> 'd sqlite \<Rightarrow> 'a list option \<times> 'd sqlite" where
  "query_rows db c q f s =
     (let (rows, s') = run_tx (db_Query db c q) s
      in (case rows of Inl e \<Rightarrow> None | Inr rs \<Rightarrow> scan_rows f rs, s'))"

definition scan_id :: "'b selected \<Rightarrow> string option" where
  "scan_id r = (case r of JobId i \<Rightarrow> Some i | _ \<Rightarrow> None)"

definition sqlite_IDs :: "('d, 'b) database \<Rightarrow> ctx \<Rightarrow> 'd sqlite \<Rightarrow> string list \<times> 'd sqlite" where
  "sqlite_IDs db c s =
     (let (ids, s') = query_rows db c SelectJobIds scan_id s in (case ids of None \<Rightarrow> [] | Some xs \<Rightarrow> xs, s'))"

definition sqlite_UpsertStatus ::
  "runtime \<Rightarrow> 'b codec \<Rightarrow> ('d, 'b) database \<Rightarrow> ctx \<Rightarrow> clock \<Rightarrow> string \<Rightarrow> JobState \<Rightarrow> 'd sqlite \<Rightarrow>
     goerr option \<times> 'd sqlite" where
  "sqlite_UpsertStatus rt js db c now jid state =
     run_write (withWriteTx db c ''upsert status'' (tx_bind (loadStatusRecordTx rt js db c jid) (\<lambda>record.
       let record1 = (if re_found record then record
                      else record\<lparr>re_status := zero_status\<lparr>sd_JobID := jid, sd_CreatedAt := Some (now 0)\<rparr>,
                                  re_activeRuns := 0, re_terminal := False, re_lastSequence := 0\<rparr>);
           record2 = record1\<lparr>re_status := (re_status record1)\<lparr>sd_State := state, sd_UpdatedAt := Some (now 0)\<rparr>\<rparr>
       in upsertStatusRecordTx js db c jid record2)))"

definition sqlite_MarkRemoved ::
  "runtime \<Rightarrow> 'b codec \<Rightarrow> ('d, 'b) database \<Rightarrow> ctx \<Rightarrow> clock \<Rightarrow> string \<Rightarrow> 'd sqlite \<Rightarrow> goerr option \<times> 'd sqlite" where
  "sqlite_MarkRemoved rt js db c now jid =
     run_write (withWriteTx db c ''mark removed'' (tx_bind (loadStatusRecordTx rt js db c jid) (\<lambda>record.
       if \<not> re_found record then tx_return ()
       else upsertStatusRecordTx js db c jid (record\<lparr>re_terminal := True,
              re_status := (re_status record)\<lparr>sd_State := JobStateRemoved,
                sd_ActiveRuns := re_activeRuns record, sd_UpdatedAt := Some (now 0)\<rparr>\<rparr>))))"

definition sqlite_MarkTerminal ::
  "runtime \<Rightarrow> 'b codec \<Rightarrow> ('d, 'b) database \<Rightarrow> ctx \<Rightarrow> clock \<Rightarrow> string \<Rightarrow> JobState \<Rightarrow> 'd sqlite \<Rightarrow>
     goerr option \<times> 'd sqlite" where
  "sqlite_MarkTerminal rt js db c now jid state =
     run_write (withWriteTx db c ''mark terminal'' (tx_bind (loadStatusRecordTx rt js db c jid) (\<lambda>record.
       if \<not> re_found record \<or> re_terminal record then tx_return ()
       else upsertStatusRecordTx js db c jid (record\<lparr>re_terminal := True,
              re_status := (re_status record)\<lparr>sd_State := state,
                sd_ActiveRuns := re_activeRuns record, sd_UpdatedAt := Some (now 0)\<rparr>\<rparr>))))"

definition sqlite_MarkExecutionStart ::
  "runtime \<Rightarrow> 'b codec \<Rightarrow> ('d, 'b) database \<Rightarrow> ctx \<Rightarrow> clock \<Rightarrow> string \<Rightarrow> 'd sqlite \<Rightarrow> goerr option \<times> 'd sqlite" where
  "sqlite_MarkExecutionStart rt js db c now jid =
     run_write (withWriteTx db c ''mark execution start'' (tx_bind (loadStatusRecordTx rt js db c jid) (\<lambda>record.
       if \<not> re_found record then tx_return ()
       else
         let active = re_activeRuns record + 1;
             status = (re_status record)\<lparr>sd_ActiveRuns := active, sd_UpdatedAt := Some (now 0)\<rparr>;
             status1 = (if re_terminal record then status else status\<lparr>sd_State := JobStateRunning\<rparr>)
         in upsertStatusRecordTx js db c jid (record\<lparr>re_activeRuns := active, re_status := status1\<rparr>))))"

text \<open>The body of \<open>RecordExecutionResult\<close> once the record is found.\<close>

definition record_result_tx ::
  "'b codec \<Rightarrow> ('d, 'b) database \<Rightarrow> ctx \<Rightarrow> clock \<Rightarrow> duration \<Rightarrow> int \<Rightarrow> string \<Rightarrow> CallbackPayload \<Rightarrow> int \<Rightarrow>
     sqliteStatusRecord \<Rightarrow> ('d, unit) tx" where
  "record_result_tx js db c now maxAge maxRows jid payload historyLimit record =
     (let limit = (if historyLimit \<le> 0 then defaultHistoryLimit else historyLimit);
          effectiveHistoryLimit = mergeHistoryLimit limit maxRows;
          record1 = record\<lparr>re_lastSequence := re_lastSequence record + 1\<rparr>
      in tx_bind (insertHistoryTx js db c jid (re_lastSequence record1) payload) (\<lambda>_.
         tx_bind (trimHistoryTx db c jid (re_lastSequence record1) effectiveHistoryLimit) (\<lambda>_.
         tx_bind (if maxAge > 0
                  then tx_bind (pruneHistoryOlderThanForJobTx db c jid (now 0 - maxAge)) (\<lambda>_. tx_return ())
                  else tx_return ()) (\<lambda>_.
         upsertStatusRecordTx js db c jid (applyExecutionResult (now 1) record1 payload)))))"

definition sqlite_RecordExecutionResult ::
  "runtime \<Rightarrow> 'b codec \<Rightarrow> ('d, 'b) database \<Rightarrow> ctx \<Rightarrow> clock \<Rightarrow> string \<Rightarrow> CallbackPayload \<Rightarrow> int \<Rightarrow> 'd sqlite \<Rightarrow>
     goerr option \<times> 'd sqlite" where
  "sqlite_RecordExecutionResult rt js db c now jid payload historyLimit s =
     run_write (withWriteTx db c ''record execution result'' (tx_bind (loadStatusRecordTx rt js db c jid) (\<lambda>record.
       if \<not> re_found record then tx_return ()
       else record_result_tx js db c now (q_MaxAge s) (q_MaxRowsPerJob s) jid payload historyLimit record))) s"

definition sqlite_State ::
  "runtime \<Rightarrow> 'b codec \<Rightarrow> ('d, 'b) database \<Rightarrow> ctx \<Rightarrow> string \<Rightarrow> 'd sqlite \<Rightarrow> JobState option \<times> 'd sqlite" where
  "sqlite_State rt js db c jid s =
     (let (record, d) = loadStatusRecord rt js db c jid (q_db s)
      in (map_option (\<lambda>r. sd_State (re_status r)) record, s\<lparr>q_db := d\<rparr>))"

definition sqlite_Status ::
  "runtime \<Rightarrow> 'b codec \<Rightarrow> ('d, 'b) database \<Rightarrow> ctx \<Rightarrow> string \<Rightarrow> 'd sqlite \<Rightarrow> JobStatus option \<times> 'd sqlite" where
  "sqlite_Status rt js db c jid s =
     (let (record, d) = loadStatusRecord rt js db c jid (q_db s)
      in (map_option (\<lambda>r. cloneJobStatus (sqliteStatusToJobStatus (re_status r) (re_activeRuns r))) record,
          s\<lparr>q_db := d\<rparr>))"

definition scan_status :: "'b codec \<Rightarrow> 'b selected \<Rightarrow> JobStatus option" where
  "scan_status js r =
     (case r of
        StatusOf i data activeRuns \<Rightarrow>
          (case decodeSQLiteStatus js data activeRuns of
             Inl e \<Rightarrow> None
           | Inr status \<Rightarrow> Some (cloneJobStatus (status\<lparr>st_JobID := i\<rparr>)))
      | _ \<Rightarrow> None)"

definition sqlite_Statuses ::
  "'b codec \<Rightarrow> ('d, 'b) database \<Rightarrow> ctx \<Rightarrow> 'd sqlite \<Rightarrow> JobStatus list \<times> 'd sqlite" where
  "sqlite_Statuses js db c s =
     (let (xs, s') = query_rows db c SelectStatuses (scan_status js) s
      in (case xs of None \<Rightarrow> [] | Some ys \<Rightarrow> ys, s'))"

definition scan_run :: "'b codec \<Rightarrow> 'b selected \<Rightarrow> JobRun option" where
  "scan_run js r =
     (case r of
        Run lseq data \<Rightarrow>
          (case unmarshal_payload js data of
             Inl e \<Rightarrow> None
           | Inr payload \<Rightarrow> Some \<lparr>jr_Sequence = lseq, jr_Payload = cloneCallbackPayload payload\<rparr>)
      | _ \<Rightarrow> None)"

definition sqlite_History ::
  "'b codec \<Rightarrow> ('d, 'b) database \<Rightarrow> ctx \<Rightarrow> string \<Rightarrow> 'd sqlite \<Rightarrow> JobRun list option \<times> 'd sqlite" where
  "sqlite_History js db c jid s =
     (let (h, s') = query_rows db c (SelectHistory jid) (scan_run js) s in
      case h of
        None \<Rightarrow> (None, s')
      | Some [] \<Rightarrow> (let (b, d) = statusExists db c jid (q_db s') in (if b then Some [] else None, s'\<lparr>q_db := d\<rparr>))
      | Some history \<Rightarrow> (Some history, s'))"

definition SQLiteJobsStorage :: "runtime \<Rightarrow> 'b codec \<Rightarrow> ('d, 'b) database \<Rightarrow> 'd sqlite JobsStorage" where
  "SQLiteJobsStorage rt js db =
     \<lparr>Save = sqlite_Save rt js db, Delete = sqlite_Delete db, Exists = sqlite_Exists db, Count = sqlite_Count db,
      IDs = sqlite_IDs db, UpsertStatus = sqlite_UpsertStatus rt js db, MarkRemoved = sqlite_MarkRemoved rt js db,
      MarkTerminal = sqlite_MarkTerminal rt js db, MarkExecutionStart = sqlite_MarkExecutionStart rt js db,
      RecordExecutionResult = sqlite_RecordExecutionResult rt js db, State = sqlite_State rt js db,
      Status = sqlite_Status rt js db, Statuses = sqlite_Statuses js db, History = sqlite_History js db\<rparr>"

section \<open>Pruning\<close>

text \<open>The parts of \<open>PruneHistoryWithRetention\<close>, each with the number of rows it deletes.\<close>

definition prune_tx :: "('d, 'b) database \<Rightarrow> ctx \<Rightarrow> clock \<Rightarrow> duration \<Rightarrow> int \<Rightarrow> ('d, int) tx" where
  "prune_tx db c now maxAge maxRows =
     tx_bind (if maxAge > 0 then pruneHistoryOlderThanTx db c (now 0 - maxAge) else tx_return 0) (\<lambda>byAge.
     tx_bind (if maxRows > 0 then pruneHistoryMaxRowsPerJobTx db c maxRows else tx_return 0) (\<lambda>byRows.
     tx_return (byAge + byRows)))"

definition PruneHistoryWithRetention ::
  "('d, 'b) database \<Rightarrow> ctx \<Rightarrow> clock \<Rightarrow> duration \<Rightarrow> int \<Rightarrow> 'd sqlite \<Rightarrow> (goerr + int) \<times> 'd sqlite" where
  "PruneHistoryWithRetention db c now maxAge maxRows s =
     (if maxAge \<le> 0 \<and> maxRows \<le> 0 then (Inr 0, s)
      else run_tx (withWriteTx db c ''prune history'' (prune_tx db c now maxAge maxRows)) s)"

definition PruneHistory ::
  "('d, 'b) database \<Rightarrow> ctx \<Rightarrow> clock \<Rightarrow> 'd sqlite \<Rightarrow> (goerr + int) \<times> 'd sqlite" where
  "PruneHistory db c now s = PruneHistoryWithRetention db c now (q_MaxAge s) (q_MaxRowsPerJob s) s"

section \<open>Construction\<close>

type_synonym 'd sqlite_option = "'d sqlite \<Rightarrow> 'd sqlite"

definition WithSQLiteHistoryRetention :: "duration \<Rightarrow> int \<Rightarrow> 'd sqlite_option" where
  "WithSQLiteHistoryRetention maxAge maxRows s =
     (let s1 = (if maxAge > 0 then s\<lparr>q_MaxAge := maxAge\<rparr> else s)
      in if maxRows > 0 then s1\<lparr>q_MaxRowsPerJob := maxRows\<rparr> else s1)"

definition WithSQLiteHistoryMaxAge :: "duration \<Rightarrow> 'd sqlite_option" where
  "WithSQLiteHistoryMaxAge maxAge s = (if maxAge > 0 then s\<lparr>q_MaxAge := maxAge\<rparr> else s)"

definition WithSQLiteHistoryMaxRowsPerJob :: "int \<Rightarrow> 'd sqlite_option" where
  "WithSQLiteHistoryMaxRowsPerJob maxRows s = (if maxRows > 0 then s\<lparr>q_MaxRowsPerJob := maxRows\<rparr> else s)"

definition bootstrap_statements :: "'b statement list" where
  "bootstrap_statements = [Pragma ''PRAGMA journal_mode = WAL;'', Pragma ''PRAGMA busy_timeout = 5000;'',
     Pragma ''PRAGMA foreign_keys = ON;'', CreateJobs, CreateStatus, CreateHistory, CreateHistoryIndex,
     AlterHistoryAddFinishedAt]"

text \<open>The loop of \<open>bootstrap\<close> over its statements.\<close>

fun boot_loop :: "runtime \<Rightarrow> ('d, 'b) database \<Rightarrow> ctx \<Rightarrow> 'b statement list \<Rightarrow> 'd \<Rightarrow> goerr option \<times> 'd" where
  "boot_loop rt db c [] d = (None, d)"
| "boot_loop rt db c (st # sts) d =
     (case db_Exec db c st d of
        (Inr _, d') \<Rightarrow> boot_loop rt db c sts d'
      | (Inl e, d') \<Rightarrow>
          if st = AlterHistoryAddFinishedAt \<and> isSQLiteDuplicateColumnError rt (Some e)
          then boot_loop rt db c sts d'
          else (Some (storage_failed ''sqlite init statement failed: %v'' e), d'))"

definition bootstrap :: "runtime \<Rightarrow> ('d, 'b) database \<Rightarrow> ctx \<Rightarrow> 'd sqlite \<Rightarrow> goerr option \<times> 'd sqlite" where
  "bootstrap rt db c s =
     (let (err, d) = boot_loop rt db c bootstrap_statements (q_db s) in (err, s\<lparr>q_db := d\<rparr>))"

text \<open>
  \<open>strings.TrimSpace\<close> on UTF-8 text: the encodings of the space characters of \<open>unicode.IsSpace\<close>
  are removed at both ends.
\<close>

definition space_codes :: "nat list list" where
  "space_codes = [[9], [10], [11], [12], [13], [32], [194, 133], [194, 160], [225, 154, 128],
     [226, 128, 128], [226, 128, 129], [226, 128, 130], [226, 128, 131], [226, 128, 132], [226, 128, 133],
     [226, 128, 134], [226, 128, 135], [226, 128, 136], [226, 128, 137], [226, 128, 138], [226, 128, 168],
     [226, 128, 169], [226, 128, 175], [226, 129, 159], [227, 128, 128]]"

function trim_codes :: "nat list list \<Rightarrow> nat list \<Rightarrow> nat list" where
  "trim_codes codes xs =
     (case find (\<lambda>k. k \<noteq> [] \<and> take (length k) xs = k) codes of
        None \<Rightarrow> xs
      | Some k \<Rightarrow> if length k \<le> length xs \<and> 0 < length k then trim_codes codes (drop (length k) xs) else xs)"
  by pat_completeness auto

termination trim_codes
proof (relation "measure (\<lambda>(codes, xs). length xs)")
  fix codes :: "nat list list" and xs k :: "nat list"
  assume "length k \<le> length xs \<and> 0 < length k"
  then have "length xs - length k < length xs" by linarith
  then show "((codes, drop (length k) xs), codes, xs) \<in> measure (\<lambda>(codes, xs). length xs)"
    by simp
qed simp

definition str_TrimSpace :: "string \<Rightarrow> string" where
  "str_TrimSpace s =
     (let xs = trim_codes space_codes (map of_char s)
      in map char_of (rev (trim_codes (map rev space_codes) (rev xs))))"

definition normalizeSQLitePath :: "string \<Rightarrow> string" where
  "normalizeSQLitePath path =
     (let trimmed = str_TrimSpace path in
      if trimmed = '''' then '':memory:''
      else if str_Contains trimmed '':'' then trimmed
      else ''file:'' @ trimmed)"

text \<open>
  The constructor, over \<open>sql.Open\<close> as a parameter. A nil option is skipped; after a failed
  bootstrap the handle is closed and its error joined.
\<close>

definition NewSQLiteJobsStorageWithOptions ::
  "runtime \<Rightarrow> ('d, 'b) database \<Rightarrow> (string \<Rightarrow> goerr + 'd) \<Rightarrow> ctx \<Rightarrow> string \<Rightarrow> 'd sqlite_option option list \<Rightarrow>
     goerr + 'd sqlite" where
  "NewSQLiteJobsStorageWithOptions rt db sql_Open c path opts =
     (case sql_Open (normalizeSQLitePath path) of
        Inl e \<Rightarrow> Inl (storage_failed ''open sqlite failed: %v'' e)
      | Inr d \<Rightarrow>
          let s0 = \<lparr>q_db = d, q_MaxAge = 0, q_MaxRowsPerJob = 0\<rparr>;
              s1 = fold (\<lambda>opt s. case opt of None \<Rightarrow> s | Some f \<Rightarrow> f s) opts s0;
              (err, s2) = bootstrap rt db c s1
          in case err of
               None \<Rightarrow> Inr s2
             | Some e \<Rightarrow>
                 (case fst (db_Close db (q_db s2)) of
                    None \<Rightarrow> Inl e
                  | Some ce \<Rightarrow>
                      Inl (Joined [e, storage_failed ''close sqlite after init failure: %v'' ce])))"

definition NewSQLiteJobsStorage ::
  "runtime \<Rightarrow> ('d, 'b) database \<Rightarrow> (string \<Rightarrow> goerr + 'd) \<Rightarrow> ctx \<Rightarrow> string \<Rightarrow> goerr + 'd sqlite" where
  "NewSQLiteJobsStorage rt db sql_Open c path = NewSQLiteJobsStorageWithOptions rt db sql_Open c path []"

declare tx_return_def [sqlite_defs] tx_lift_def [sqlite_defs] tx_bind_def [sqlite_defs]
  run_tx_def [sqlite_defs] run_write_def [sqlite_defs]

end
