(* ===== verification/Sqlite_Tables.thy ===== *)
theory Sqlite_Tables
  imports Sqlite_Storage
begin

text \<open>
  The tables of the SQLite storage as an abstract store: which tables the storage keeps well
  formed, the status entry a row and its history rows stand for, and what the statements of the
  storage do to it.
\<close>

section \<open>The abstract store of the tables\<close>

text \<open>Rows that cannot be decoded stand for zero values; well-formed tables have none.\<close>

definition zero_payload :: CallbackPayload where
  "zero_payload = \<lparr>cp_JobID = '''', cp_ScheduledAt = None, cp_StartedAt = None, cp_FinishedAt = None,
     cp_Attempts = 0, cp_Success = False, cp_StatusCode = 0, cp_Error = '''', cp_ResponseBody = ''''\<rparr>"

definition run_of :: "'b codec \<Rightarrow> 'b history_row \<Rightarrow> JobRun" where
  "run_of js r = \<lparr>jr_Sequence = hr_sequence r,
     jr_Payload = (case unmarshal_payload js (hr_payload_json r) of Inr p \<Rightarrow> p | Inl e \<Rightarrow> zero_payload)\<rparr>"

definition history_of :: "'b codec \<Rightarrow> 'b history_row list \<Rightarrow> string \<Rightarrow> JobRun list" where
  "history_of js hs jid = map (run_of js) (sort_key hr_sequence (filter (\<lambda>r. hr_id r = jid) hs))"

definition record_entry :: "JobRun list \<Rightarrow> string \<Rightarrow> sqliteStatusRecord \<Rightarrow> jobStatusEntry" where
  "record_entry hist jid rec =
     \<lparr>e_status = sqliteStatusToJobStatus ((re_status rec)\<lparr>sd_JobID := jid\<rparr>) (re_activeRuns rec),
      e_history = hist, e_activeRuns = re_activeRuns rec, e_terminal = re_terminal rec,
      e_lastSequence = re_lastSequence rec\<rparr>"

definition row_record :: "'b codec \<Rightarrow> 'b status_row \<Rightarrow> sqliteStatusRecord" where
  "row_record js r =
     \<lparr>re_status = (case unmarshal_status js (sr_status_json r) of
                     Inr x \<Rightarrow> x\<lparr>sd_ActiveRuns := sr_active_runs r\<rparr> | Inl e \<Rightarrow> zero_status),
      re_activeRuns = sr_active_runs r, re_terminal = (sr_terminal r = 1),
      re_lastSequence = sr_last_sequence r, re_found = True\<rparr>"

definition status_row_of :: "'b tables \<Rightarrow> string \<Rightarrow> 'b status_row option" where
  "status_row_of t jid = find (\<lambda>r. sr_id r = jid) (tb_status t)"

definition table_abs :: "'b codec \<Rightarrow> 'b tables \<Rightarrow> astore" where
  "table_abs js t =
     \<lparr>as_jobs = fst ` set (tb_jobs t),
      as_status = (\<lambda>jid. map_option (\<lambda>r. record_entry (history_of js (tb_history t) jid) jid (row_record js r))
                            (status_row_of t jid))\<rparr>"

section \<open>Well-formed tables\<close>

definition row_ok ::
  "'b codec \<Rightarrow> (string \<Rightarrow> bool) \<Rightarrow> (CallbackPayload \<Rightarrow> bool) \<Rightarrow> 'b status_row \<Rightarrow> bool" where
  "row_ok js okid okpay r \<longleftrightarrow>
     (\<exists>x. unmarshal_status js (sr_status_json r) = Inr x \<and> sd_JobID x = sr_id r \<and> status_repr okid okpay x) \<and>
     (sr_terminal r = 0 \<or> sr_terminal r = 1)"

text \<open>Everything but the relation of the history to the sequence numbers of the statuses.\<close>

definition base_ok ::
  "'b codec \<Rightarrow> (string \<Rightarrow> bool) \<Rightarrow> (CallbackPayload \<Rightarrow> bool) \<Rightarrow> 'b tables \<Rightarrow> bool" where
  "base_ok js okid okpay t \<longleftrightarrow>
     tb_has_jobs t \<and> tb_has_status t \<and> tb_has_history t \<and> tb_has_finished t \<and>
     distinct (map fst (tb_jobs t)) \<and> distinct (map sr_id (tb_status t)) \<and>
     distinct (map (\<lambda>h. (hr_id h, hr_sequence h)) (tb_history t)) \<and>
     (\<forall>r \<in> set (tb_status t). row_ok js okid okpay r) \<and>
     (\<forall>h \<in> set (tb_history t). (\<exists>p. unmarshal_payload js (hr_payload_json h) = Inr p) \<and> 0 < hr_sequence h)"

definition history_within :: "'b tables \<Rightarrow> 'b history_row \<Rightarrow> bool" where
  "history_within t h \<longleftrightarrow> (\<exists>r. status_row_of t (hr_id h) = Some r \<and> hr_sequence h \<le> sr_last_sequence r)"

definition tables_ok ::
  "'b codec \<Rightarrow> (string \<Rightarrow> bool) \<Rightarrow> (CallbackPayload \<Rightarrow> bool) \<Rightarrow> 'b tables \<Rightarrow> bool" where
  "tables_ok js okid okpay t \<longleftrightarrow>
     base_ok js okid okpay t \<and> (\<forall>h \<in> set (tb_history t). history_within t h) \<and>
     (\<forall>r \<in> set (tb_status t). 0 \<le> sr_last_sequence r)"

lemma find_some_iff:
  assumes "distinct (map f xs)"
  shows "find (\<lambda>x. f x = k) xs = Some x \<longleftrightarrow> x \<in> set xs \<and> f x = k"
  using assms by (induction xs) force+

lemma find_none_iff: "find (\<lambda>x. f x = k) xs = None \<longleftrightarrow> k \<notin> f ` set xs"
  by (auto simp: find_None_iff)

lemma filter_by_key:
  assumes "distinct (map f xs)"
  shows "filter (\<lambda>x. f x = k) xs = (case find (\<lambda>x. f x = k) xs of None \<Rightarrow> [] | Some x \<Rightarrow> [x])"
  using assms
proof (induction xs)
  case (Cons a xs)
  have "filter (\<lambda>x. f x = k) xs = []" if "f a = k" using Cons.prems that by (auto simp: filter_empty_conv image_iff)
  with Cons show ?case by auto
qed simp

lemma status_row_set:
  assumes "base_ok js okid okpay t" and "status_row_of t jid = Some r"
  shows "r \<in> set (tb_status t) \<and> sr_id r = jid \<and> row_ok js okid okpay r"
  using assms find_some_iff [of sr_id "tb_status t" jid r] by (auto simp: base_ok_def status_row_of_def)

lemma sort_snoc:
  assumes "distinct (map f (xs @ [x]))" and "\<forall>y \<in> set xs. f y \<le> f x"
  shows "sort_key f (xs @ [x]) = sort_key f xs @ [x]"
  by (rule sort_key_eqI) (use assms in \<open>auto simp: sorted_append distinct_map\<close>)

lemma distinct_filter_key:
  assumes "distinct (map (\<lambda>h. (hr_id h, hr_sequence h)) hs)"
  shows "distinct (map hr_sequence (filter (\<lambda>h. hr_id h = jid) hs))"
  using assms by (induction hs) (auto simp: image_iff)

section \<open>Writing a status row\<close>

definition put_row :: "'b status_row \<Rightarrow> 'b tables \<Rightarrow> 'b tables" where
  "put_row r t = t\<lparr>tb_status :=
     (if sr_id r \<in> sr_id ` set (tb_status t)
      then map (\<lambda>q. if sr_id q = sr_id r then r else q) (tb_status t) else tb_status t @ [r])\<rparr>"

lemma find_replace:
  assumes "f r = k"
  shows "find (\<lambda>x. f x = i) (map (\<lambda>q. if f q = k then r else q) xs) =
    (if i = k then (if k \<in> f ` set xs then Some r else None) else find (\<lambda>x. f x = i) xs)"
  using assms by (induction xs) auto

lemma map_replace: "f r = k \<Longrightarrow> map f (map (\<lambda>q. if f q = k then r else q) xs) = map f xs"
  by (induction xs) auto

lemma find_snoc: "find P (xs @ [x]) = (case find P xs of None \<Rightarrow> if P x then Some x else None | Some y \<Rightarrow> Some y)"
  by (induction xs) auto

lemma status_row_put: "status_row_of (put_row r t) = (status_row_of t)(sr_id r \<mapsto> r)"
proof
  fix i
  show "status_row_of (put_row r t) i = ((status_row_of t)(sr_id r \<mapsto> r)) i"
  proof (cases "sr_id r \<in> sr_id ` set (tb_status t)")
    case True
    then show ?thesis by (simp add: status_row_of_def put_row_def find_replace)
  next
    case False
    then have "find (\<lambda>q. sr_id q = sr_id r) (tb_status t) = None" by (simp add: find_none_iff)
    with False show ?thesis by (simp add: status_row_of_def put_row_def find_snoc split: option.split)
  qed
qed

lemma put_row_base:
  assumes "base_ok js okid okpay t" and "row_ok js okid okpay r"
  shows "base_ok js okid okpay (put_row r t)"
proof -
  have "distinct (map sr_id (tb_status (put_row r t)))"
    using assms(1) map_replace [of sr_id r "sr_id r" "tb_status t"]
    by (auto simp: put_row_def base_ok_def simp del: map_map)
  moreover have "\<forall>q \<in> set (tb_status (put_row r t)). q = r \<or> q \<in> set (tb_status t)"
    by (auto simp: put_row_def)
  ultimately show ?thesis using assms by (auto simp: base_ok_def put_row_def split del: if_split)
qed

lemma put_row_abs:
  "table_abs js (put_row r t) =
     set_entry (sr_id r) (record_entry (history_of js (tb_history t) (sr_id r)) (sr_id r) (row_record js r)) (table_abs js t)"
proof -
  have "tb_history (put_row r t) = tb_history t" "tb_jobs (put_row r t) = tb_jobs t" by (simp_all add: put_row_def)
  then show ?thesis by (simp add: table_abs_def set_entry_def status_row_put fun_eq_iff)
qed

lemma put_row_ok:
  assumes "base_ok js okid okpay t" and "row_ok js okid okpay r" and "0 \<le> sr_last_sequence r"
    and "\<forall>q \<in> set (tb_status t). 0 \<le> sr_last_sequence q"
    and "\<forall>h \<in> set (tb_history t). if hr_id h = sr_id r then hr_sequence h \<le> sr_last_sequence r else history_within t h"
  shows "tables_ok js okid okpay (put_row r t)"
proof -
  have "\<forall>q \<in> set (tb_status (put_row r t)). q = r \<or> q \<in> set (tb_status t)" by (auto simp: put_row_def)
  moreover have "\<forall>h \<in> set (tb_history t). history_within (put_row r t) h"
    using assms(5) by (auto simp: history_within_def status_row_put)
  moreover have "tb_history (put_row r t) = tb_history t" by (simp add: put_row_def)
  ultimately show ?thesis using put_row_base [OF assms(1,2)] assms(3,4) by (auto simp: tables_ok_def)
qed

lemma exec_put_row: "tb_has_status t \<Longrightarrow> sql_exec (UpsertStatusRow r) t = Some (1, put_row r t)"
  by (simp add: put_row_def)

section \<open>Changing the history\<close>

text \<open>The history rows after a run was recorded: the new row, less the rows the limits remove.\<close>

lemma history_of_filter:
  "history_of js (filter P hs) jid = map (run_of js) (filter P (sort_key hr_sequence (filter (\<lambda>r. hr_id r = jid) hs)))"
  unfolding history_of_def filter_sort by (simp add: conj_commute)

lemma history_of_other:
  assumes "\<forall>h \<in> set hs. hr_id h = i \<longrightarrow> P h"
  shows "history_of js (filter P hs) i = history_of js hs i"
proof -
  have "filter (\<lambda>r. hr_id r = i) (filter P hs) = filter (\<lambda>r. hr_id r = i) hs"
    using assms by (auto simp: filter_filter intro: filter_cong)
  then show ?thesis by (simp only: history_of_def)
qed

lemma history_of_snoc:
  assumes "distinct (map (\<lambda>h. (hr_id h, hr_sequence h)) (hs @ [h]))"
    and "\<forall>q \<in> set hs. hr_id q = hr_id h \<longrightarrow> hr_sequence q \<le> hr_sequence h"
  shows "history_of js (hs @ [h]) jid = history_of js hs jid @ (if hr_id h = jid then [run_of js h] else [])"
proof (cases "hr_id h = jid")
  case True
  have "distinct (map hr_sequence (filter (\<lambda>q. hr_id q = jid) hs @ [h]))"
    using distinct_filter_key [OF assms(1), of jid] True by simp
  then have "sort_key hr_sequence (filter (\<lambda>q. hr_id q = jid) hs @ [h]) =
      sort_key hr_sequence (filter (\<lambda>q. hr_id q = jid) hs) @ [h]"
    by (rule sort_snoc) (use assms(2) True in auto)
  with True show ?thesis by (simp add: history_of_def)
qed (simp add: history_of_def)

lemma subseq_map_filter: "subseq (map f (filter P xs)) (map f xs)"
  by (simp add: subseq_map)

text \<open>Distinct numbers in an interval.\<close>

lemma interval_length:
  assumes "distinct xs" and "\<forall>x \<in> set xs. lo < x \<and> x \<le> (hi :: int)" and "lo \<le> hi"
  shows "int (length xs) \<le> hi - lo"
proof -
  have "set xs \<subseteq> {lo <.. hi}" using assms(2) by auto
  then have "card (set xs) \<le> card {lo <.. hi}" by (intro card_mono) simp_all
  with assms(1,3) show ?thesis by (simp add: distinct_card)
qed

end
