(* ===== verification/Sqlite_Contract.thy ===== *)
theory Sqlite_Contract
  imports Sqlite_Tables
begin

text \<open>
  The SQLite storage implements the contract of \<open>JobsStorage\<close>, over every engine and every
  encoder that behave as documented. Computations in a transaction have one rule per construct;
  \<open>withWriteTx\<close> turns them into writes that happen as a whole or not at all.
\<close>

locale sqlite_store =
  sql_engine rt db tab saved healthy + json_codec js okid okpay
  for rt :: runtime and db :: "('d, 'b) database" and tab :: "'d \<Rightarrow> 'b tables"
    and saved :: "'d \<Rightarrow> 'b tables option" and healthy :: "'d \<Rightarrow> bool"
    and js :: "'b codec" and okid :: "string \<Rightarrow> bool" and okpay :: "CallbackPayload \<Rightarrow> bool"
begin

section \<open>Rules for transactions\<close>

text \<open>
  In an open transaction that sees the tables \<open>t\<close>, the computation keeps the transaction open; if
  it returns a value then \<open>post\<close> holds of it and the tables; its errors are storage errors; and on
  a healthy engine, with a live context, it returns a value.
\<close>

definition tx_at :: "'b tables \<Rightarrow> ctx \<Rightarrow> ('d, 'a) tx \<Rightarrow> ('a \<Rightarrow> 'b tables \<Rightarrow> bool) \<Rightarrow> bool" where
  "tx_at t c m post \<longleftrightarrow>
     (\<forall>d t0 r d'. saved d = Some t0 \<longrightarrow> tab d = t \<longrightarrow> m d = (r, d') \<longrightarrow>
        saved d' = Some t0 \<and> (\<forall>x. r = Inr x \<longrightarrow> post x (tab d')) \<and> (\<forall>e. r = Inl e \<longrightarrow> storage_error e) \<and>
        (c = None \<longrightarrow> healthy d \<longrightarrow> healthy d' \<and> (\<exists>x. r = Inr x)))"

lemma tx_atI:
  assumes "\<And>d t0 r d'. saved d = Some t0 \<Longrightarrow> tab d = t \<Longrightarrow> m d = (r, d') \<Longrightarrow>
    saved d' = Some t0 \<and> (\<forall>x. r = Inr x \<longrightarrow> post x (tab d')) \<and> (\<forall>e. r = Inl e \<longrightarrow> storage_error e) \<and>
    (c = None \<longrightarrow> healthy d \<longrightarrow> healthy d' \<and> (\<exists>x. r = Inr x))"
  shows "tx_at t c m post"
  using assms unfolding tx_at_def by blast

lemma tx_atD:
  assumes "tx_at t c m post" and "saved d = Some t0" and "tab d = t" and "m d = (r, d')"
  shows "saved d' = Some t0 \<and> (\<forall>x. r = Inr x \<longrightarrow> post x (tab d')) \<and> (\<forall>e. r = Inl e \<longrightarrow> storage_error e) \<and>
    (c = None \<longrightarrow> healthy d \<longrightarrow> healthy d' \<and> (\<exists>x. r = Inr x))"
proof -
  from assms(1) have "saved d = Some t0 \<longrightarrow> tab d = t \<longrightarrow> m d = (r, d') \<longrightarrow>
      saved d' = Some t0 \<and> (\<forall>x. r = Inr x \<longrightarrow> post x (tab d')) \<and> (\<forall>e. r = Inl e \<longrightarrow> storage_error e) \<and>
      (c = None \<longrightarrow> healthy d \<longrightarrow> healthy d' \<and> (\<exists>x. r = Inr x))"
    unfolding tx_at_def by (elim allE)
  with assms(2-4) show ?thesis by simp
qed

lemma tx_weaken:
  assumes "tx_at t c m post" and "\<And>x t'. post x t' \<Longrightarrow> post' x t'"
  shows "tx_at t c m post'"
  by (rule tx_atI, drule (2) tx_atD [OF assms(1)]) (auto intro: assms(2))

lemma tx_return_rule: "post x t \<Longrightarrow> tx_at t c (tx_return x) post"
  by (rule tx_atI) (auto simp: tx_return_def)

lemma tx_bind_rule:
  assumes "tx_at t c m mid" and "\<And>x t'. mid x t' \<Longrightarrow> tx_at t' c (f x) post"
  shows "tx_at t c (tx_bind m f) post"
proof (rule tx_atI)
  fix d t0 r d'
  assume a: "saved d = Some t0" "tab d = t" "tx_bind m f d = (r, d')"
  obtain r1 d1 where m: "m d = (r1, d1)" by fastforce
  note d1 = tx_atD [OF assms(1) a(1,2) m]
  show "saved d' = Some t0 \<and> (\<forall>x. r = Inr x \<longrightarrow> post x (tab d')) \<and> (\<forall>e. r = Inl e \<longrightarrow> storage_error e) \<and>
      (c = None \<longrightarrow> healthy d \<longrightarrow> healthy d' \<and> (\<exists>x. r = Inr x))"
  proof (cases r1)
    case (Inl e)
    with a(3) m d1 show ?thesis by (auto simp: tx_bind_def)
  next
    case (Inr x)
    then have "f x d1 = (r, d')" using a(3) m by (simp add: tx_bind_def)
    moreover have "mid x (tab d1)" using d1 Inr by simp
    ultimately show ?thesis using tx_atD [OF assms(2), of x "tab d1" d1 t0 r d'] d1 by auto
  qed
qed

lemma storage_error_failed [simp]: "storage_error (storage_failed f e)"
  by (auto simp: storage_error_def storage_failed_def)

lemma tx_exec_rule:
  assumes "sql_exec st t = Some (n, t')" and "post () t'"
  shows "tx_at t c (tx_bind (tx_exec db c st msg) (\<lambda>_. tx_return ())) post"
proof (rule tx_atI)
  fix d t0 r d'
  assume a: "saved d = Some t0" "tab d = t" "tx_bind (tx_exec db c st msg) (\<lambda>_. tx_return ()) d = (r, d')"
  obtain x d1 where x: "db_Exec db c st d = (x, d1)" by fastforce
  show "saved d' = Some t0 \<and> (\<forall>x. r = Inr x \<longrightarrow> post x (tab d')) \<and> (\<forall>e. r = Inl e \<longrightarrow> storage_error e) \<and>
      (c = None \<longrightarrow> healthy d \<longrightarrow> healthy d' \<and> (\<exists>x. r = Inr x))"
  proof (cases x)
    case (Inl e)
    with a x assms(1) exec_err [of c st d e d1] exec_live [of st d "Inl e" d1] show ?thesis
      by (auto simp: tx_bind_def tx_exec_def)
  next
    case (Inr k)
    with a x assms exec_ok [of c st d k d1] exec_live [of st d "Inr k" d1] show ?thesis
      by (auto simp: tx_bind_def tx_exec_def tx_return_def)
  qed
qed

lemma tx_rows_rule:
  assumes "sql_exec st t = Some (n, t')" and "post n t'"
  shows "tx_at t c (tx_bind (tx_exec db c st msg) (\<lambda>res. tx_lift (rowsAffected res))) post"
proof (rule tx_atI)
  fix d t0 r d'
  assume a: "saved d = Some t0" "tab d = t"
    "tx_bind (tx_exec db c st msg) (\<lambda>res. tx_lift (rowsAffected res)) d = (r, d')"
  obtain x d1 where x: "db_Exec db c st d = (x, d1)" by fastforce
  show "saved d' = Some t0 \<and> (\<forall>x. r = Inr x \<longrightarrow> post x (tab d')) \<and> (\<forall>e. r = Inl e \<longrightarrow> storage_error e) \<and>
      (c = None \<longrightarrow> healthy d \<longrightarrow> healthy d' \<and> (\<exists>x. r = Inr x))"
  proof (cases x)
    case (Inl e)
    with a x assms(1) exec_err [of c st d e d1] exec_live [of st d "Inl e" d1] show ?thesis
      by (auto simp: tx_bind_def tx_exec_def)
  next
    case (Inr k)
    with x exec_ok [of c st d k d1] a(1,2) assms(1)
    have k: "saved d1 = Some t0" "tab d1 = t'" "\<And>j. k = Inr j \<Longrightarrow> j = n" by auto
    have l: "c = None \<Longrightarrow> healthy d \<Longrightarrow> healthy d1 \<and> (\<exists>j. k = Inr j)"
      using exec_live [of st d x d1] x Inr a(2) assms(1) by auto
    have "r = rowsAffected k" "d' = d1" using a(3) x Inr by (simp_all add: tx_bind_def tx_exec_def tx_lift_def)
    with k l assms(2) show ?thesis by (cases k) (auto simp: rowsAffected_def)
  qed
qed

text \<open>A write is its computation as a whole, or an error and no change.\<close>

lemma withWriteTx_rule:
  assumes "tx_at (tab d) c m post" and "saved d = None" and "withWriteTx db c op m d = (r, d')"
  shows "saved d' = None \<and> (\<forall>x. r = Inr x \<longrightarrow> c = None \<and> post x (tab d')) \<and>
    (\<forall>e. r = Inl e \<longrightarrow> tab d' = tab d \<and> storage_error e) \<and>
    (c = None \<longrightarrow> healthy d \<longrightarrow> healthy d' \<and> (\<exists>x. r = Inr x))"
proof -
  have serr: "storage_error (Wrapf ErrStorageOperation f as)" for f as by (auto simp: storage_error_def)
  obtain r1 d1 where b: "db_BeginTx db c d = (r1, d1)" by fastforce
  show ?thesis
  proof (cases r1)
    case (Some e)
    with b assms(2,3) begin_err [of c d e d1] begin_live [of d r1 d1] serr show ?thesis
      by (auto simp: withWriteTx_def)
  next
    case None
    with b assms(2) begin_ok [of c d d1] begin_live [of d r1 d1]
    have d1: "c = None" "tab d1 = tab d" "saved d1 = Some (tab d)" "healthy d \<longrightarrow> healthy d1" by auto
    obtain r2 d2 where f: "m d1 = (r2, d2)" by fastforce
    note d2 = tx_atD [OF assms(1) d1(3,2) f]
    obtain r3 d3 where rb: "db_Rollback db d2 = (r3, d3)" by fastforce
    show ?thesis
    proof (cases r2)
      case (Inl e)
      with assms(3) None b f rb have "r = Inl e" "d' = d3" by (simp_all add: withWriteTx_def)
      with rollback_tx [OF rb, of "tab d"] d1 d2 Inl show ?thesis by auto
    next
      case (Inr x)
      obtain r4 d4 where cm: "db_Commit db d2 = (r4, d4)" by fastforce
      obtain r5 d5 where rb2: "db_Rollback db d4 = (r5, d5)" by fastforce
      show ?thesis
      proof (cases r4)
        case (Some e)
        with assms(3) None b f Inr cm rb2 serr have "\<exists>e. r = Inl e \<and> storage_error e" "d' = d5"
          by (auto simp: withWriteTx_def)
        with Some cm commit_err [of d2 e d4 "tab d"] commit_live [of d2 r4 d4 "tab d"] rollback_done [OF rb2] d1 d2
        show ?thesis by auto
      next
        case None
        with assms(3) \<open>r1 = None\<close> b f Inr cm rb2 have "r = Inr x" "d' = d5" by (simp_all add: withWriteTx_def)
        with None cm commit_ok [of d2 d4 "tab d"] commit_live [of d2 r4 d4 "tab d"] rollback_done [OF rb2] d1 d2 Inr
        show ?thesis by auto
      qed
    qed
  qed
qed

end

section \<open>Loading and storing a record\<close>

definition record_of :: "'b codec \<Rightarrow> 'b tables \<Rightarrow> string \<Rightarrow> sqliteStatusRecord" where
  "record_of js t jid = (case status_row_of t jid of None \<Rightarrow> no_record | Some r \<Rightarrow> row_record js r)"

lemma map_option_clone [simp]: "map_option cloneCallbackPayload x = x"
  by (cases x) simp_all

lemma status_data_roundtrip:
  "jobStatusToSQLiteStatus (sqliteStatusToJobStatus x n) = x\<lparr>sd_ActiveRuns := n\<rparr>"
  by (cases x) (simp add: jobStatusToSQLiteStatus_def sqliteStatusToJobStatus_def)

lemma query_status_rows:
  assumes "base_ok js okid okpay t"
  shows "sql_query (SelectStatus jid) t =
    (case status_row_of t jid of
       None \<Rightarrow> []
     | Some r \<Rightarrow> [StatusRow (sr_status_json r) (sr_active_runs r) (sr_terminal r) (sr_last_sequence r)])"
  using assms filter_by_key [of sr_id "tb_status t" jid]
  by (simp add: base_ok_def status_row_of_def split: option.split)

context sqlite_store
begin

lemma load_row:
  assumes "base_ok js okid okpay t" and "status_row_of t jid = Some r"
  shows "loadStatusRecordQueryRow rt js
    (Inr (StatusRow (sr_status_json r) (sr_active_runs r) (sr_terminal r) (sr_last_sequence r))) = Inr (row_record js r)"
proof -
  from status_row_set [OF assms] obtain x where "unmarshal_status js (sr_status_json r) = Inr x"
    by (auto simp: row_ok_def)
  then show ?thesis
    by (simp add: loadStatusRecordQueryRow_def decodeSQLiteStatus_def status_data_roundtrip row_record_def)
qed

text \<open>What reading a record gives, in a transaction or not.\<close>

lemma load_result:
  assumes "base_ok js okid okpay (tab d)" and "sql_QueryRow db c (SelectStatus jid) d = (row, d')"
  shows "saved d' = saved d \<and> (saved d = None \<longrightarrow> tab d' = tab d) \<and>
    (case loadStatusRecordQueryRow rt js row of
       Inl e \<Rightarrow> storage_error e \<and> \<not> (c = None \<and> healthy d)
     | Inr rec \<Rightarrow> rec = record_of js (tab d) jid \<and> tab d' = tab d) \<and> (c = None \<longrightarrow> healthy d \<longrightarrow> healthy d')"
proof -
  obtain y d1 where y: "db_Query db c (SelectStatus jid) d = (y, d1)" by fastforce
  have d': "d' = d1" using assms(2) y by (auto simp: sql_QueryRow_def split: sum.splits list.splits)
  have ready: "query_ready (SelectStatus jid) (tab d)" using assms(1) by (simp add: base_ok_def)
  show ?thesis
  proof (cases y)
    case (Inl e)
    then have "row = Inl e" using assms(2) y by (simp add: sql_QueryRow_def)
    with Inl y d' query_err [of c "SelectStatus jid" d e d1] query_live [of "SelectStatus jid" d y d1] ready
    show ?thesis by (auto simp: loadStatusRecordQueryRow_def)
  next
    case (Inr rows)
    with y query_ok [of c "SelectStatus jid" d rows d1] query_live [of "SelectStatus jid" d y d1]
    have q: "tab d1 = tab d" "saved d1 = saved d" "rows = sql_query (SelectStatus jid) (tab d)"
      "c = None \<longrightarrow> healthy d \<longrightarrow> healthy d1" by auto
    show ?thesis
    proof (cases "status_row_of (tab d) jid")
      case None
      with q(3) query_status_rows [OF assms(1), of jid] Inr y assms(2) have "row = Inl sql_ErrNoRows"
        by (simp add: sql_QueryRow_def)
      with None q d' no_rows show ?thesis by (simp add: loadStatusRecordQueryRow_def record_of_def)
    next
      case (Some r)
      with q(3) query_status_rows [OF assms(1), of jid] Inr y assms(2)
      have "row = Inr (StatusRow (sr_status_json r) (sr_active_runs r) (sr_terminal r) (sr_last_sequence r))"
        by (simp add: sql_QueryRow_def)
      with load_row [OF assms(1) Some] Some q d' show ?thesis by (simp add: record_of_def)
    qed
  qed
qed

lemma load_rule:
  assumes "base_ok js okid okpay t"
  shows "tx_at t c (loadStatusRecordTx rt js db c jid) (\<lambda>rec t'. rec = record_of js t jid \<and> t' = t)"
proof (rule tx_atI)
  fix d t0 r d'
  assume a: "saved d = Some t0" "tab d = t" "loadStatusRecordTx rt js db c jid d = (r, d')"
  obtain row d1 where row: "sql_QueryRow db c (SelectStatus jid) d = (row, d1)" by fastforce
  then have "r = loadStatusRecordQueryRow rt js row" "d' = d1" using a(3) by (simp_all add: loadStatusRecordTx_def)
  with load_result [of d c jid row d1] assms a(1,2) row
  show "saved d' = Some t0 \<and> (\<forall>x. r = Inr x \<longrightarrow> x = record_of js t jid \<and> tab d' = t) \<and>
      (\<forall>e. r = Inl e \<longrightarrow> storage_error e) \<and> (c = None \<longrightarrow> healthy d \<longrightarrow> healthy d' \<and> (\<exists>x. r = Inr x))"
    by (auto split: sum.splits)
qed

text \<open>A record that can be stored under an identifier, over the history rows of the tables.\<close>

definition storable :: "'b tables \<Rightarrow> string \<Rightarrow> sqliteStatusRecord \<Rightarrow> bool" where
  "storable t jid rec \<longleftrightarrow>
     okid jid \<and> named_state (sd_State (re_status rec)) \<and> pred_option okpay (sd_LastRun (re_status rec)) \<and>
     0 \<le> re_lastSequence rec \<and> (\<forall>r \<in> set (tb_status t). 0 \<le> sr_last_sequence r) \<and>
     (\<forall>h \<in> set (tb_history t).
        if hr_id h = jid then hr_sequence h \<le> re_lastSequence rec else history_within t h)"

lemma upsert_rule:
  assumes "base_ok js okid okpay t" and "storable t jid rec"
    and "\<And>t'. tables_ok js okid okpay t' \<Longrightarrow>
      table_abs js t' = set_entry jid (record_entry (history_of js (tb_history t) jid) jid rec) (table_abs js t) \<Longrightarrow>
      post () t'"
  shows "tx_at t c (upsertStatusRecordTx js db c jid rec) post"
proof -
  let ?x = "(re_status rec)\<lparr>sd_JobID := jid, sd_ActiveRuns := re_activeRuns rec\<rparr>"
  have "status_repr okid okpay ?x" using assms(2) by (simp add: storable_def status_repr_def)
  from status_roundtrip [OF this] obtain b where
    b: "marshal_status js ?x = Inr b" "unmarshal_status js b = Inr ?x" by blast
  define r where "r = \<lparr>sr_id = jid, sr_status_json = b, sr_active_runs = re_activeRuns rec,
    sr_terminal = (if re_terminal rec then 1 else 0), sr_last_sequence = re_lastSequence rec\<rparr>"
  have ok: "row_ok js okid okpay r"
    using b(2) assms(2) by (simp add: r_def row_ok_def storable_def status_repr_def)
  have id: "sr_id r = jid" by (simp add: r_def)
  have "record_entry h jid (row_record js r) = record_entry h jid rec" for h
    using b(2) by (simp add: r_def record_entry_def row_record_def sqliteStatusToJobStatus_def)
  then have "table_abs js (put_row r t) =
      set_entry jid (record_entry (history_of js (tb_history t) jid) jid rec) (table_abs js t)"
    using put_row_abs [of js r t] id by simp
  moreover have "tables_ok js okid okpay (put_row r t)"
    using assms(2) id by (intro put_row_ok [OF assms(1) ok]) (auto simp: storable_def r_def)
  ultimately have "post () (put_row r t)" using assms(3) by blast
  moreover have "sql_exec (UpsertStatusRow r) t = Some (1, put_row r t)"
    using assms(1) by (intro exec_put_row) (simp add: base_ok_def)
  ultimately have "tx_at t c (tx_bind (tx_exec db c (UpsertStatusRow r) ''upsert status failed: %v'')
      (\<lambda>_. tx_return ())) post" by (intro tx_exec_rule)
  then show ?thesis by (simp add: upsertStatusRecordTx_def b(1) flip: r_def)
qed

text \<open>The record of a stored status, and what the contract sees of it.\<close>

lemma record_absent:
  assumes "as_status (table_abs js t) jid = None"
  shows "record_of js t jid = no_record"
  using assms by (simp add: table_abs_def record_of_def)

lemma record_present:
  assumes "tables_ok js okid okpay t" and "as_status (table_abs js t) jid = Some e"
  shows "re_found (record_of js t jid) \<and> storable t jid (record_of js t jid) \<and>
    e = record_entry (history_of js (tb_history t) jid) jid (record_of js t jid)"
proof -
  from assms(2) obtain r where r: "status_row_of t jid = Some r" by (auto simp: table_abs_def)
  have b: "base_ok js okid okpay t" using assms(1) by (simp add: tables_ok_def)
  from status_row_set [OF b r] obtain x where
    x: "unmarshal_status js (sr_status_json r) = Inr x" "sd_JobID x = jid" "status_repr okid okpay x"
      "r \<in> set (tb_status t)" by (auto simp: row_ok_def)
  have "\<forall>h \<in> set (tb_history t). if hr_id h = jid then hr_sequence h \<le> sr_last_sequence r else history_within t h"
    using assms(1) r by (auto simp: tables_ok_def history_within_def)
  with x assms(1) r have "storable t jid (row_record js r)"
    by (auto simp: storable_def row_record_def status_repr_def tables_ok_def)
  with r assms(2) show ?thesis by (simp add: record_of_def table_abs_def row_record_def)
qed

end

section \<open>Writes\<close>

definition sqlite_abs :: "'b codec \<Rightarrow> ('d \<Rightarrow> 'b tables) \<Rightarrow> 'd sqlite \<Rightarrow> astore" where
  "sqlite_abs js tab s = table_abs js (tab (q_db s))"

definition sqlite_invar ::
  "'b codec \<Rightarrow> (string \<Rightarrow> bool) \<Rightarrow> (CallbackPayload \<Rightarrow> bool) \<Rightarrow> ('d \<Rightarrow> 'b tables) \<Rightarrow> ('d \<Rightarrow> 'b tables option) \<Rightarrow>
     'd sqlite \<Rightarrow> bool" where
  "sqlite_invar js okid okpay tab saved s \<longleftrightarrow>
     saved (q_db s) = None \<and> tables_ok js okid okpay (tab (q_db s))"

definition sqlite_reliable :: "('d \<Rightarrow> bool) \<Rightarrow> ctx \<Rightarrow> 'd sqlite \<Rightarrow> bool" where
  "sqlite_reliable healthy c s \<longleftrightarrow> c = None \<and> healthy (q_db s)"

lemma set_entry_same: "as_status a jid = Some e \<Longrightarrow> set_entry jid e a = a"
  by (cases a) (simp add: set_entry_def map_upd_triv)

context sqlite_store
begin

abbreviation "invar \<equiv> sqlite_invar js okid okpay tab saved"
abbreviation "sabs \<equiv> sqlite_abs js tab"
abbreviation "reliable \<equiv> sqlite_reliable healthy"

text \<open>The outcome of a write with the given effect on the abstract store.\<close>

definition write_outcome ::
  "(astore \<Rightarrow> astore \<Rightarrow> bool) \<Rightarrow> ctx \<Rightarrow> 'd sqlite \<Rightarrow> goerr option \<Rightarrow> 'd sqlite \<Rightarrow> bool" where
  "write_outcome R c s r s' \<longleftrightarrow>
     invar s' \<and> (if r = None then c = None \<and> R (sabs s) (sabs s') else sabs s' = sabs s \<and> storage_error (the r)) \<and>
     (reliable c s \<longrightarrow> reliable c s' \<and> r = None)"

lemma write_rule:
  assumes "invar s" and "run_write (withWriteTx db c op m) s = (r, s')"
    and "tables_ok js okid okpay (tab (q_db s)) \<Longrightarrow> tx_at (tab (q_db s)) c m
      (\<lambda>_ t'. tables_ok js okid okpay t' \<and> R (table_abs js (tab (q_db s))) (table_abs js t'))"
  shows "write_outcome R c s r s'"
proof -
  have inv: "saved (q_db s) = None" "tables_ok js okid okpay (tab (q_db s))"
    using assms(1) by (simp_all add: sqlite_invar_def)
  obtain x d' where x: "withWriteTx db c op m (q_db s) = (x, d')" by fastforce
  from assms(2) x have r: "r = (case x of Inl e \<Rightarrow> Some e | Inr y \<Rightarrow> None)" "s' = s\<lparr>q_db := d'\<rparr>"
    by (simp_all add: run_write_def run_tx_def)
  note w = withWriteTx_rule [OF assms(3) [OF inv(2)] inv(1) x]
  show ?thesis
  proof (cases x)
    case (Inl e)
    with w r inv show ?thesis
      by (auto simp: write_outcome_def sqlite_invar_def sqlite_abs_def sqlite_reliable_def)
  next
    case (Inr y)
    with w r inv show ?thesis
      by (auto simp: write_outcome_def sqlite_invar_def sqlite_abs_def sqlite_reliable_def)
  qed
qed

text \<open>An update of an existing record.\<close>

lemma update_rule:
  assumes "tables_ok js okid okpay t"
    and "\<And>e rec. as_status (table_abs js t) jid = Some e \<Longrightarrow> rec = record_of js t jid \<Longrightarrow> re_found rec \<Longrightarrow>
      storable t jid rec \<Longrightarrow> e = record_entry (history_of js (tb_history t) jid) jid rec \<Longrightarrow>
      tx_at t c (g rec) (\<lambda>_ t'. tables_ok js okid okpay t' \<and>
        (\<exists>e'. R e e' \<and> table_abs js t' = set_entry jid e' (table_abs js t)))"
  shows "tx_at t c (tx_bind (loadStatusRecordTx rt js db c jid)
      (\<lambda>rec. if \<not> re_found rec then tx_return () else g rec))
    (\<lambda>_ t'. tables_ok js okid okpay t' \<and> update_rel R jid (table_abs js t) (table_abs js t'))"
proof (rule tx_bind_rule [OF load_rule])
  show "base_ok js okid okpay t" using assms(1) by (simp add: tables_ok_def)
  fix rec t'
  assume l: "rec = record_of js t jid \<and> t' = t"
  show "tx_at t' c (if \<not> re_found rec then tx_return () else g rec)
    (\<lambda>_ t'. tables_ok js okid okpay t' \<and> update_rel R jid (table_abs js t) (table_abs js t'))"
  proof (cases "as_status (table_abs js t) jid")
    case None
    with l record_absent have "\<not> re_found rec" by (simp add: no_record_def)
    with l assms(1) None show ?thesis by (auto intro!: tx_return_rule update_absent)
  next
    case (Some e)
    note p = record_present [OF assms(1) Some]
    have "tx_at t c (g rec) (\<lambda>_ t'. tables_ok js okid okpay t' \<and>
        (\<exists>e'. R e e' \<and> table_abs js t' = set_entry jid e' (table_abs js t)))"
      using assms(2) [OF Some] l p by blast
    then have "tx_at t c (g rec) (\<lambda>_ t'. tables_ok js okid okpay t' \<and>
        update_rel R jid (table_abs js t) (table_abs js t'))"
      by (rule tx_weaken) (use update_present [of "table_abs js t" jid e R, OF Some] in auto)
    with l p show ?thesis by simp
  qed
qed

lemma storable_cong:
  assumes "storable t jid rec" and "re_lastSequence rec' = re_lastSequence rec"
    and "named_state (sd_State (re_status rec'))" and "pred_option okpay (sd_LastRun (re_status rec'))"
  shows "storable t jid rec'"
  using assms by (simp add: storable_def)

lemma storable_state: "storable t jid rec \<Longrightarrow>
    named_state (sd_State (re_status rec)) \<and> pred_option okpay (sd_LastRun (re_status rec))"
  by (simp add: storable_def)

lemma sqlite_MarkRemoved_ok:
  assumes "invar s" and "sqlite_MarkRemoved rt js db c now jid s = (r, s')"
  shows "write_outcome (update_rel (removed_rel now) jid) c s r s'"
proof (rule write_rule [OF assms(1) assms(2) [unfolded sqlite_MarkRemoved_def]], rule update_rule)
  fix e rec
  let ?t = "tab (q_db s)"
  assume a: "tables_ok js okid okpay ?t" "storable ?t jid rec" "e = record_entry (history_of js (tb_history ?t) jid) jid rec"
  let ?rec = "rec\<lparr>re_terminal := True, re_status := (re_status rec)\<lparr>sd_State := JobStateRemoved,
      sd_ActiveRuns := re_activeRuns rec, sd_UpdatedAt := Some (now 0)\<rparr>\<rparr>"
  have "record_entry h jid ?rec = terminal_entry JobStateRemoved (now 0) (record_entry h jid rec)" for h
    by (simp add: record_entry_def terminal_entry_def sqliteStatusToJobStatus_def)
  then show "tx_at ?t c (upsertStatusRecordTx js db c jid ?rec) (\<lambda>_ t'. tables_ok js okid okpay t' \<and>
      (\<exists>e'. removed_rel now e e' \<and> table_abs js t' = set_entry jid e' (table_abs js ?t)))"
    using a storable_cong [OF a(2), of ?rec] storable_state [OF a(2)]
    by (intro upsert_rule) (auto simp: tables_ok_def removed_rel_def)
qed

lemma sqlite_MarkTerminal_ok:
  assumes "invar s" and "named_state st" and "sqlite_MarkTerminal rt js db c now jid st s = (r, s')"
  shows "write_outcome (update_rel (terminal_rel now st) jid) c s r s'"
proof -
  define up where "up rec = upsertStatusRecordTx js db c jid (rec\<lparr>re_terminal := True,
      re_status := (re_status rec)\<lparr>sd_State := st, sd_ActiveRuns := re_activeRuns rec, sd_UpdatedAt := Some (now 0)\<rparr>\<rparr>)" for rec
  have eq: "(\<lambda>rec. if \<not> re_found rec \<or> re_terminal rec then tx_return () else up rec) =
      (\<lambda>rec. if \<not> re_found rec then tx_return () else if re_terminal rec then tx_return () else up rec)" by auto
  show ?thesis
  proof (rule write_rule [OF assms(1) assms(3) [unfolded sqlite_MarkTerminal_def, folded up_def, unfolded eq]], rule update_rule)
    fix e rec
    let ?t = "tab (q_db s)"
    assume a: "tables_ok js okid okpay ?t" "storable ?t jid rec" "e = record_entry (history_of js (tb_history ?t) jid) jid rec"
      "as_status (table_abs js ?t) jid = Some e"
    let ?rec = "rec\<lparr>re_terminal := True, re_status := (re_status rec)\<lparr>sd_State := st,
        sd_ActiveRuns := re_activeRuns rec, sd_UpdatedAt := Some (now 0)\<rparr>\<rparr>"
    have e: "e_terminal e = re_terminal rec" using a(3) by (simp add: record_entry_def)
    have "record_entry h jid ?rec = terminal_entry st (now 0) (record_entry h jid rec)" for h
      by (simp add: record_entry_def terminal_entry_def sqliteStatusToJobStatus_def)
    then have "tx_at ?t c (up rec) (\<lambda>_ t'. tables_ok js okid okpay t' \<and>
        (\<exists>e'. terminal_rel now st e e' \<and> table_abs js t' = set_entry jid e' (table_abs js ?t)))" if "\<not> re_terminal rec"
      using a that e storable_cong [OF a(2), of ?rec] storable_state [OF a(2)] assms(2) unfolding up_def
      by (intro upsert_rule) (auto simp: tables_ok_def terminal_rel_def)
    moreover have "tables_ok js okid okpay ?t \<and>
        (\<exists>e'. terminal_rel now st e e' \<and> table_abs js ?t = set_entry jid e' (table_abs js ?t))" if "re_terminal rec"
    proof (intro conjI exI [of _ e])
      show "terminal_rel now st e e" using that e by (simp add: terminal_rel_def)
      show "table_abs js ?t = set_entry jid e (table_abs js ?t)" by (simp add: set_entry_same [OF a(4)])
    qed (rule a(1))
    ultimately show "tx_at ?t c (if re_terminal rec then tx_return () else up rec) (\<lambda>_ t'. tables_ok js okid okpay t' \<and>
        (\<exists>e'. terminal_rel now st e e' \<and> table_abs js t' = set_entry jid e' (table_abs js ?t)))"
      by (cases "re_terminal rec") (simp_all add: tx_return_rule)
  qed
qed

lemma sqlite_MarkExecutionStart_ok:
  assumes "invar s" and "sqlite_MarkExecutionStart rt js db c now jid s = (r, s')"
  shows "write_outcome (update_rel (start_rel now) jid) c s r s'"
proof (rule write_rule [OF assms(1) assms(2) [unfolded sqlite_MarkExecutionStart_def]], rule update_rule)
  fix e rec
  let ?t = "tab (q_db s)"
  assume a: "tables_ok js okid okpay ?t" "storable ?t jid rec" "e = record_entry (history_of js (tb_history ?t) jid) jid rec"
  let ?st = "(re_status rec)\<lparr>sd_ActiveRuns := re_activeRuns rec + 1, sd_UpdatedAt := Some (now 0)\<rparr>"
  let ?rec = "rec\<lparr>re_activeRuns := re_activeRuns rec + 1,
      re_status := (if re_terminal rec then ?st else ?st\<lparr>sd_State := JobStateRunning\<rparr>)\<rparr>"
  have "record_entry h jid ?rec = start_entry (now 0) (record_entry h jid rec)" for h
    by (simp add: record_entry_def start_entry_def sqliteStatusToJobStatus_def)
  then show "tx_at ?t c (let active = re_activeRuns rec + 1;
        status = (re_status rec)\<lparr>sd_ActiveRuns := active, sd_UpdatedAt := Some (now 0)\<rparr>;
        status1 = (if re_terminal rec then status else status\<lparr>sd_State := JobStateRunning\<rparr>)
      in upsertStatusRecordTx js db c jid (rec\<lparr>re_activeRuns := active, re_status := status1\<rparr>))
      (\<lambda>_ t'. tables_ok js okid okpay t' \<and>
      (\<exists>e'. start_rel now e e' \<and> table_abs js t' = set_entry jid e' (table_abs js ?t)))"
    using a storable_cong [OF a(2), of ?rec] storable_state [OF a(2)] unfolding Let_def
    by (intro upsert_rule) (auto simp: tables_ok_def start_rel_def)
qed

lemma sqlite_UpsertStatus_ok:
  assumes "invar s" and "okid jid" and "named_state st" and "sqlite_UpsertStatus rt js db c now jid st s = (r, s')"
  shows "write_outcome (upsert_rel now jid st) c s r s'"
proof (rule write_rule [OF assms(1) assms(4) [unfolded sqlite_UpsertStatus_def Let_def]], rule tx_bind_rule [OF load_rule])
  let ?t = "tab (q_db s)"
  assume ok: "tables_ok js okid okpay ?t"
  then show "base_ok js okid okpay ?t" by (simp add: tables_ok_def)
  fix rec t'
  assume l: "rec = record_of js ?t jid \<and> t' = ?t"
  define rec1 where "rec1 = (if re_found rec then rec else rec\<lparr>re_status := zero_status\<lparr>sd_JobID := jid,
      sd_CreatedAt := Some (now 0)\<rparr>, re_activeRuns := 0, re_terminal := False, re_lastSequence := 0\<rparr>)"
  let ?rec = "rec1\<lparr>re_status := (re_status rec1)\<lparr>sd_State := st, sd_UpdatedAt := Some (now 0)\<rparr>\<rparr>"
  have up: "record_entry h jid ?rec = upsert_entry st (now 0) (record_entry h jid rec1)" for h
    by (simp add: record_entry_def upsert_entry_def sqliteStatusToJobStatus_def)
  have "storable ?t jid ?rec \<and> upsert_rel now jid st (table_abs js ?t)
      (set_entry jid (record_entry (history_of js (tb_history ?t) jid) jid ?rec) (table_abs js ?t))"
  proof (cases "as_status (table_abs js ?t) jid")
    case None
    have nf: "\<not> re_found rec" using l record_absent [OF None] by (simp add: no_record_def)
    have nh: "\<forall>h \<in> set (tb_history ?t). hr_id h \<noteq> jid"
      using None ok by (auto simp: tables_ok_def history_within_def table_abs_def)
    then have "history_of js (tb_history ?t) jid = []" by (simp add: history_of_def filter_empty_conv)
    moreover have "record_entry [] jid rec1 = new_entry jid (now 0)"
      using nf by (simp add: rec1_def record_entry_def new_entry_def zero_status_def sqliteStatusToJobStatus_def)
    ultimately show ?thesis
      using upsert_new [OF None, of now st 0] up nh nf ok assms(2,3)
      by (auto simp: storable_def rec1_def tables_ok_def zero_status_def)
  next
    case (Some e)
    note p = record_present [OF ok Some]
    then have "rec1 = rec" using l by (simp add: rec1_def)
    with upsert_old [OF Some, of now st 0] up p l storable_cong [of ?t jid rec ?rec] storable_state [of ?t jid rec] assms(3)
    show ?thesis by auto
  qed
  then show "tx_at t' c (upsertStatusRecordTx js db c jid
      ((if re_found rec then rec else rec\<lparr>re_status := zero_status\<lparr>sd_JobID := jid, sd_CreatedAt := Some (now 0)\<rparr>,
          re_activeRuns := 0, re_terminal := False, re_lastSequence := 0\<rparr>)
       \<lparr>re_status := (re_status (if re_found rec then rec else rec\<lparr>re_status := zero_status\<lparr>sd_JobID := jid,
          sd_CreatedAt := Some (now 0)\<rparr>, re_activeRuns := 0, re_terminal := False, re_lastSequence := 0\<rparr>))
          \<lparr>sd_State := st, sd_UpdatedAt := Some (now 0)\<rparr>\<rparr>))
    (\<lambda>_ t'. tables_ok js okid okpay t' \<and> upsert_rel now jid st (table_abs js ?t) (table_abs js t'))"
    using l ok unfolding rec1_def [symmetric] by (intro upsert_rule) (auto simp: tables_ok_def)
qed

end

section \<open>Recording a result\<close>

text \<open>The history after rows of one job were removed.\<close>

definition keeps_others :: "string \<Rightarrow> ('b history_row \<Rightarrow> bool) \<Rightarrow> bool" where
  "keeps_others jid K \<longleftrightarrow> (\<forall>r. hr_id r \<noteq> jid \<longrightarrow> K r)"

definition with_history :: "'b history_row list \<Rightarrow> 'b tables \<Rightarrow> 'b tables" where
  "with_history hs t = t\<lparr>tb_history := hs\<rparr>"

lemma with_history_simps [simp]:
  "tb_history (with_history hs t) = hs" "tb_status (with_history hs t) = tb_status t"
  "tb_jobs (with_history hs t) = tb_jobs t" "status_row_of (with_history hs t) = status_row_of t"
  "with_history hs' (with_history hs t) = with_history hs' t"
  "tb_has_history (with_history hs t) = tb_has_history t" "tb_has_finished (with_history hs t) = tb_has_finished t"
  by (simp_all add: with_history_def status_row_of_def fun_eq_iff)

lemma history_within_with [simp]: "history_within (with_history hs t) = history_within t"
  by (simp add: history_within_def fun_eq_iff)

lemma base_ok_with:
  assumes "base_ok js okid okpay t" and "distinct (map (\<lambda>h. (hr_id h, hr_sequence h)) hs)"
    and "\<forall>h \<in> set hs. (\<exists>p. unmarshal_payload js (hr_payload_json h) = Inr p) \<and> 0 < hr_sequence h"
  shows "base_ok js okid okpay (with_history hs t)"
  using assms by (simp add: base_ok_def with_history_def)

lemma table_abs_with:
  assumes "\<And>i. i \<noteq> jid \<Longrightarrow> history_of js hs i = history_of js (tb_history t) i"
  shows "set_entry jid e (table_abs js (with_history hs t)) = set_entry jid e (table_abs js t)"
  using assms by (simp add: table_abs_def set_entry_def fun_eq_iff)

lemma distinct_map_filter_pairs: "distinct (map f xs) \<Longrightarrow> distinct (map f (filter P xs))"
  by (simp add: distinct_map_filter)

lemma mergeHistoryLimit_bounds:
  "0 < limit \<Longrightarrow> 0 < mergeHistoryLimit limit maxRows \<and> mergeHistoryLimit limit maxRows \<le> limit"
  by (simp add: mergeHistoryLimit_def)

text \<open>The kept history of the job: a part of the old one and the new run, within the limit.\<close>

lemma recorded_history:
  assumes ok: "tables_ok js okid okpay t" and st: "status_row_of t jid = Some r"
    and h: "hr_id h = jid" "hr_sequence h = sr_last_sequence r + 1"
    and K: "keeps_others jid K" "\<And>q. hr_id q = jid \<Longrightarrow> K q \<Longrightarrow> hr_sequence h - limit < hr_sequence q" and limit: "0 < limit"
  shows "distinct (map (\<lambda>h. (hr_id h, hr_sequence h)) (tb_history t @ [h]))"
    and "subseq (history_of js (filter K (tb_history t @ [h])) jid) (history_of js (tb_history t) jid @ [run_of js h])"
    and "int (length (history_of js (filter K (tb_history t @ [h])) jid)) \<le> limit"
    and "i \<noteq> jid \<Longrightarrow> history_of js (filter K (tb_history t @ [h])) i = history_of js (tb_history t) i"
proof -
  have le: "hr_sequence q < hr_sequence h" if "q \<in> set (tb_history t)" "hr_id q = jid" for q
    using ok st that h(2) by (auto simp: tables_ok_def history_within_def)
  show d: "distinct (map (\<lambda>h. (hr_id h, hr_sequence h)) (tb_history t @ [h]))"
    using ok h(1) le by (force simp: tables_ok_def base_ok_def)
  note sn = history_of_snoc [OF d, of js]
  have "history_of js (tb_history t @ [h]) jid = history_of js (tb_history t) jid @ [run_of js h]"
    using sn [of jid] le h(1) by fastforce
  then show "subseq (history_of js (filter K (tb_history t @ [h])) jid) (history_of js (tb_history t) jid @ [run_of js h])"
    using subseq_map_filter [of "run_of js" K "sort_key hr_sequence (filter (\<lambda>r. hr_id r = jid) (tb_history t @ [h]))"]
    unfolding history_of_filter by (simp add: history_of_def)
  have near: "hr_sequence h - limit < hr_sequence q \<and> hr_sequence q \<le> hr_sequence h"
    if "q \<in> set (tb_history t @ [h])" "K q" "hr_id q = jid" for q
    using that K(2) [of q] le [of q] by (cases "q = h") auto
  let ?xs = "map hr_sequence (filter (\<lambda>q. hr_id q = jid) (filter K (tb_history t @ [h])))"
  have "distinct ?xs" by (rule distinct_filter_key) (rule distinct_map_filter_pairs [OF d])
  moreover have "\<forall>x \<in> set ?xs. hr_sequence h - limit < x \<and> x \<le> hr_sequence h" 
    using near by auto
  ultimately have "int (length ?xs) \<le> hr_sequence h - (hr_sequence h - limit)" using limit by (intro interval_length) auto
  then show "int (length (history_of js (filter K (tb_history t @ [h])) jid)) \<le> limit" by (simp add: history_of_def)
  assume i: "i \<noteq> jid"
  have "history_of js (filter K (tb_history t @ [h])) i = history_of js (tb_history t @ [h]) i"
    by (rule history_of_other) (use K(1) i in \<open>auto simp: keeps_others_def\<close>)
  also have "\<dots> = history_of js (tb_history t) i" using i h(1) by (simp add: history_of_def)
  finally show "history_of js (filter K (tb_history t @ [h])) i = history_of js (tb_history t) i" .
qed

context sqlite_store
begin

lemma delete_rule:
  assumes "sql_exec st t = Some (delete_history P t)" and "\<And>r. P r \<Longrightarrow> hr_id r = jid"
    and "post () (with_history (filter (\<lambda>r. \<not> P r) (tb_history t)) t)"
  shows "tx_at t c (tx_bind (tx_exec db c st msg) (\<lambda>_. tx_return ())) post"
  by (rule tx_exec_rule) (use assms in \<open>simp_all add: delete_history_def with_history_def\<close>)

lemma trim_rule:
  assumes "tb_has_history t" and "\<forall>h \<in> set (tb_history t). 0 < hr_sequence h"
    and "post () (with_history (filter (\<lambda>r. \<not> (hr_id r = jid \<and> hr_sequence r \<le> n - limit)) (tb_history t)) t)"
  shows "tx_at t c (trimHistoryTx db c jid n limit) post"
proof (cases "n - limit \<le> 0")
  case True
  then have "filter (\<lambda>r. \<not> (hr_id r = jid \<and> hr_sequence r \<le> n - limit)) (tb_history t) = tb_history t"
    using assms(2) by (auto intro!: filter_True)
  with True assms(3) show ?thesis by (simp add: trimHistoryTx_def tx_return_rule with_history_def)
next
  case False
  have "tx_at t c (tx_bind (tx_exec db c (TrimHistory jid (n - limit)) ''trim execution history failed: %v'')
      (\<lambda>_. tx_return ())) post"
    by (rule delete_rule [where P = "\<lambda>r. hr_id r = jid \<and> hr_sequence r \<le> n - limit" and jid = jid]) (use assms in auto)
  with False show ?thesis by (simp add: trimHistoryTx_def)
qed

lemma prune_job_rule:
  assumes "tb_has_history t" and "tb_has_finished t"
    and "\<And>n. post n (with_history (filter (\<lambda>r. \<not> (hr_id r = jid \<and> too_old cutoff r)) (tb_history t)) t)"
  shows "tx_at t c (pruneHistoryOlderThanForJobTx db c jid cutoff) post"
  unfolding pruneHistoryOlderThanForJobTx_def
  by (rule tx_rows_rule) (use assms in \<open>simp_all add: delete_history_def with_history_def\<close>)

text \<open>The retention by age, applied to the history of one job or not at all.\<close>

lemma age_rule:
  fixes maxAge :: duration
  assumes "tb_has_history t" and "tb_has_finished t"
    and aged: "maxAge > 0 \<Longrightarrow>
      tx_at (with_history (filter (\<lambda>q. \<not> (hr_id q = jid \<and> too_old cutoff q) \<and> K q) hs) t) c m post"
    and kept: "maxAge \<le> 0 \<Longrightarrow> tx_at (with_history (filter K hs) t) c m post"
  shows "tx_at (with_history (filter K hs) t) c
    (tx_bind (if maxAge > 0 then tx_bind (pruneHistoryOlderThanForJobTx db c jid cutoff) (\<lambda>_. tx_return ())
              else tx_return ()) (\<lambda>_. m)) post"
proof (cases "maxAge > 0")
  case True
  let ?t1 = "with_history (filter K hs) t"
  let ?t2 = "with_history (filter (\<lambda>q. \<not> (hr_id q = jid \<and> too_old cutoff q)) (filter K hs)) t"
  have "tx_at ?t1 c (pruneHistoryOlderThanForJobTx db c jid cutoff) (\<lambda>_ t'. t' = ?t2)"
    using assms(1,2) by (intro prune_job_rule) simp_all
  then have "tx_at ?t1 c (tx_bind (pruneHistoryOlderThanForJobTx db c jid cutoff) (\<lambda>_. tx_return ())) (\<lambda>_ t'. t' = ?t2)"
    by (rule tx_bind_rule) (simp add: tx_return_rule)
  then have "tx_at ?t1 c (tx_bind (tx_bind (pruneHistoryOlderThanForJobTx db c jid cutoff) (\<lambda>_. tx_return ())) (\<lambda>_. m)) post"
    by (rule tx_bind_rule) (use aged [OF True] in \<open>simp add: conj_commute\<close>)
  with True show ?thesis by simp
next
  case False
  have "tx_at (with_history (filter K hs) t) c (tx_bind (tx_return ()) (\<lambda>_. m)) post"
    by (rule tx_bind_rule [OF tx_return_rule [of "\<lambda>_ t'. t' = with_history (filter K hs) t"]]) (use kept False in simp_all)
  with False show ?thesis by simp
qed

text \<open>The three statements on the history, with a retention by age or without.\<close>

lemma history_rule:
  fixes maxAge :: duration
  assumes ok: "tables_ok js okid okpay t" and st: "status_row_of t jid = Some r" and pay: "okpay payload"
    and post: "\<And>h K t'. hr_id h = jid \<Longrightarrow> hr_sequence h = sr_last_sequence r + 1 \<Longrightarrow>
      run_of js h = \<lparr>jr_Sequence = sr_last_sequence r + 1, jr_Payload = payload\<rparr> \<Longrightarrow>
      (\<exists>p. unmarshal_payload js (hr_payload_json h) = Inr p) \<Longrightarrow> keeps_others jid K \<Longrightarrow>
      (\<And>q. hr_id q = jid \<Longrightarrow> K q \<Longrightarrow> hr_sequence h - limit < hr_sequence q) \<Longrightarrow>
      (\<And>q. maxAge \<le> 0 \<Longrightarrow> hr_id q = jid \<Longrightarrow> hr_sequence h - limit < hr_sequence q \<Longrightarrow> K q) \<Longrightarrow>
      tx_at (with_history (filter K (tb_history t @ [h])) t) c m post"
  shows "tx_at t c (tx_bind (insertHistoryTx js db c jid (sr_last_sequence r + 1) payload) (\<lambda>_.
      tx_bind (trimHistoryTx db c jid (sr_last_sequence r + 1) limit) (\<lambda>_.
      tx_bind (if maxAge > 0 then tx_bind (pruneHistoryOlderThanForJobTx db c jid cutoff) (\<lambda>_. tx_return ())
               else tx_return ()) (\<lambda>_. m)))) post"
proof -
  from payload_roundtrip [OF pay] obtain b where
    b: "marshal_payload js payload = Inr b" "unmarshal_payload js b = Inr payload" by blast
  define h where "h = \<lparr>hr_id = jid, hr_sequence = sr_last_sequence r + 1, hr_payload_json = b,
    hr_finished_at = payloadFinishedAtUnixNano payload\<rparr>"
  let ?n = "sr_last_sequence r + 1"
  let ?K1 = "\<lambda>q. \<not> (hr_id q = jid \<and> hr_sequence q \<le> ?n - limit)" and ?K2 = "\<lambda>q. \<not> (hr_id q = jid \<and> too_old cutoff q)"
  have has: "tb_has_history t" "tb_has_finished t" "0 \<le> sr_last_sequence r"
    "\<forall>q \<in> set (tb_history t). 0 < hr_sequence q" "\<forall>q \<in> set (tb_history t). hr_id q = jid \<longrightarrow> hr_sequence q < ?n"
    using ok st status_row_set [of js okid okpay t jid r]
    by (auto simp: tables_ok_def base_ok_def history_within_def)
  have h: "hr_id h = jid" "hr_sequence h = ?n" "run_of js h = \<lparr>jr_Sequence = ?n, jr_Payload = payload\<rparr>"
    "\<exists>p. unmarshal_payload js (hr_payload_json h) = Inr p" using b(2) by (simp_all add: h_def run_of_def)
  define hs where "hs = tb_history t @ [h]"
  have final: "tx_at (with_history (filter K hs) t) c m post"
    if "keeps_others jid K" "\<And>q. hr_id q = jid \<Longrightarrow> K q \<Longrightarrow> ?n - limit < hr_sequence q"
      "\<And>q. maxAge \<le> 0 \<Longrightarrow> hr_id q = jid \<Longrightarrow> ?n - limit < hr_sequence q \<Longrightarrow> K q" for K
    unfolding hs_def by (rule post [OF h(1-4) that(1)]) (simp_all only: h(2) that(2,3))
  have pr: "tx_at (with_history (filter ?K1 hs) t) c
      (tx_bind (if maxAge > 0 then tx_bind (pruneHistoryOlderThanForJobTx db c jid cutoff) (\<lambda>_. tx_return ())
               else tx_return ()) (\<lambda>_. m)) post"
  proof (rule age_rule)
    show "tx_at (with_history (filter (\<lambda>q. ?K2 q \<and> ?K1 q) hs) t) c m post" if "maxAge > 0"
      by (rule final) (use that in \<open>auto simp: keeps_others_def\<close>)
    show "tx_at (with_history (filter ?K1 hs) t) c m post" if "maxAge \<le> 0"
      by (rule final) (auto simp: keeps_others_def)
  qed (use has(1,2) in simp_all)
  have tr: "tx_at (with_history hs t) c (tx_bind (trimHistoryTx db c jid ?n limit) (\<lambda>_.
      tx_bind (if maxAge > 0 then tx_bind (pruneHistoryOlderThanForJobTx db c jid cutoff) (\<lambda>_. tx_return ())
               else tx_return ()) (\<lambda>_. m))) post"
  proof (rule tx_bind_rule, rule trim_rule)
    show "tx_at t' c (tx_bind (if maxAge > 0 then tx_bind (pruneHistoryOlderThanForJobTx db c jid cutoff) (\<lambda>_. tx_return ())
               else tx_return ()) (\<lambda>_. m)) post" if "t' = with_history (filter ?K1 hs) t" for t'
      using pr that by simp
  qed (use has h(2) in \<open>auto simp: hs_def\<close>)
  have "(hr_id h, hr_sequence h) \<notin> (\<lambda>q. (hr_id q, hr_sequence q)) ` set (tb_history t)" using has(5) h(1,2) by force
  then have "sql_exec (InsertHistory h) t = Some (1, with_history hs t)"
    using has(1,2) by (simp add: with_history_def hs_def)
  then have "tx_at t c (insertHistoryTx js db c jid ?n payload) (\<lambda>_ t'. t' = with_history hs t)"
    using tx_exec_rule [of "InsertHistory h" t 1 "with_history hs t"
        "\<lambda>_ t'. t' = with_history hs t"]
    by (simp add: insertHistoryTx_def b(1) h_def)
  then show ?thesis by (rule tx_bind_rule) (use tr in simp)
qed

end

end
