(* ===== verification/Sqlite_Refinement.thy ===== *)
theory Sqlite_Refinement
  imports Sqlite_Contract
begin

text \<open>
  The remaining operations of the SQLite storage, and that it keeps the contract of \<open>JobsStorage\<close>
  over every engine and encoder that keep theirs.
\<close>

section \<open>Recording a result\<close>

text \<open>
  What is kept of the history when a result is recorded: without a retention by age, exactly the
  runs of the last sequence numbers.
\<close>

definition kept_rel ::
  "clock \<Rightarrow> duration \<Rightarrow> int \<Rightarrow> CallbackPayload \<Rightarrow> int \<Rightarrow> jobStatusEntry \<Rightarrow> jobStatusEntry \<Rightarrow> bool" where
  "kept_rel now maxAge maxRows payload limit e e' \<longleftrightarrow>
     result_rel now payload limit e e' \<and>
     (maxAge \<le> 0 \<longrightarrow> e_history e' =
        filter (\<lambda>run. e_lastSequence e + 1 - mergeHistoryLimit (effective_limit limit) maxRows < jr_Sequence run)
          (e_history e @ [next_run payload e]))"

lemma update_rel_mono:
  assumes "update_rel R jid a a'" and "\<And>e e'. R e e' \<Longrightarrow> R' e e'"
  shows "update_rel R' jid a a'"
  using assms(1) by (cases rule: update_rel.cases) (auto intro: update_rel.intros assms(2))

lemma kept_history:
  assumes ok: "tables_ok js okid okpay t" and st: "status_row_of t jid = Some r"
    and h: "hr_id h = jid" "hr_sequence h = sr_last_sequence r + 1"
    and K: "\<And>q. hr_id q = jid \<Longrightarrow> K q \<longleftrightarrow> hr_sequence h - limit < hr_sequence q"
  shows "history_of js (filter K (tb_history t @ [h])) jid =
    filter (\<lambda>run. hr_sequence h - limit < jr_Sequence run) (history_of js (tb_history t) jid @ [run_of js h])"
proof -
  have le: "hr_sequence q < hr_sequence h" if "q \<in> set (tb_history t)" "hr_id q = jid" for q
    using ok st that h(2) by (auto simp: tables_ok_def history_within_def)
  have d: "distinct (map (\<lambda>h. (hr_id h, hr_sequence h)) (tb_history t @ [h]))"
    using ok h(1) le by (force simp: tables_ok_def base_ok_def)
  let ?rows = "sort_key hr_sequence (filter (\<lambda>r. hr_id r = jid) (tb_history t @ [h]))"
  have "history_of js (tb_history t @ [h]) jid = history_of js (tb_history t) jid @ [run_of js h]"
    using history_of_snoc [OF d, of js jid] le h(1) by fastforce
  then have all: "map (run_of js) ?rows = history_of js (tb_history t) jid @ [run_of js h]" by (simp add: history_of_def)
  have "filter K ?rows = filter (\<lambda>q. hr_sequence h - limit < hr_sequence q) ?rows"
    by (intro filter_cong refl) (use K h(1) in auto)
  then have "map (run_of js) (filter K ?rows) =
      filter (\<lambda>run. hr_sequence h - limit < jr_Sequence run) (map (run_of js) ?rows)"
    by (simp add: filter_map comp_def run_of_def del: filter_append)
  then show ?thesis unfolding all by (simp only: history_of_filter)
qed

context sqlite_store
begin

lemma record_result_entry:
  "record_entry hist jid (applyExecutionResult now (rec\<lparr>re_lastSequence := re_lastSequence rec + 1\<rparr>) payload) =
     result_entry hist now payload (record_entry hist0 jid rec)"
  by (simp add: record_entry_def applyExecutionResult_def result_entry_def sqliteStatusToJobStatus_def Let_def)

text \<open>The entry of the updated record, over what is kept of the history.\<close>

lemma kept_entry:
  assumes ok: "tables_ok js okid okpay t" and r: "status_row_of t jid = Some r"
    and h: "hr_id h = jid" "hr_sequence h = sr_last_sequence r + 1"
      "run_of js h = \<lparr>jr_Sequence = sr_last_sequence r + 1, jr_Payload = payload\<rparr>"
    and K: "keeps_others jid K" "\<And>q. hr_id q = jid \<Longrightarrow> K q \<Longrightarrow> hr_sequence h - l < hr_sequence q"
    and K1: "\<And>q. maxAge \<le> 0 \<Longrightarrow> hr_id q = jid \<Longrightarrow> hr_sequence h - l < hr_sequence q \<Longrightarrow> K q"
    and l: "0 < l" "l \<le> effective_limit limit" "l = mergeHistoryLimit (effective_limit limit) maxRows"
    and e: "e = record_entry (history_of js (tb_history t) jid) jid rec" "re_lastSequence rec = sr_last_sequence r"
  shows "kept_rel now maxAge maxRows payload limit e (record_entry (history_of js (filter K (tb_history t @ [h])) jid) jid
    (applyExecutionResult (now 1) (rec\<lparr>re_lastSequence := re_lastSequence rec + 1\<rparr>) payload))"
proof -
  define hist where "hist = history_of js (filter K (tb_history t @ [h])) jid"
  let ?e' = "record_entry hist jid (applyExecutionResult (now 1) (rec\<lparr>re_lastSequence := re_lastSequence rec + 1\<rparr>) payload)"
  note rh = recorded_history(2,3) [OF ok r h(1,2) K l(1), folded hist_def]
  have nxt: "e_history e @ [next_run payload e] = history_of js (tb_history t) jid @ [run_of js h]"
    "e_lastSequence e + 1 = hr_sequence h"
    using e h(2,3) by (simp_all add: next_run_def record_entry_def)
  have e': "?e' = result_entry hist (now 1) payload e" "e_history ?e' = hist"
    using e(1) record_result_entry by (blast, simp add: record_entry_def)
  have "hist = filter (\<lambda>run. hr_sequence h - l < jr_Sequence run) (history_of js (tb_history t) jid @ [run_of js h])"
    if "maxAge \<le> 0"
    unfolding hist_def by (rule kept_history [OF ok r h(1,2)]) (use K(2) K1 [OF that] in blast)
  moreover have "result_rel now payload limit e ?e'"
    unfolding result_rel_def using rh l(2) nxt(1) e'(1)
    by (intro exI [of _ 1] exI [of _ hist] conjI) (simp_all del: append_assoc)
  ultimately show ?thesis
    unfolding kept_rel_def l(3) [symmetric] nxt e'(2) hist_def [symmetric] by blast
qed

lemma record_result_rule:
  assumes ok: "tables_ok js okid okpay t" and e: "as_status (table_abs js t) jid = Some e"
    and rec: "rec = record_of js t jid" and pay: "okpay payload"
  shows "tx_at t c (record_result_tx js db c now maxAge maxRows jid payload limit rec)
    (\<lambda>_ t'. tables_ok js okid okpay t' \<and>
       (\<exists>e'. kept_rel now maxAge maxRows payload limit e e' \<and> table_abs js t' = set_entry jid e' (table_abs js t)))"
proof -
  from e obtain r where r: "status_row_of t jid = Some r" by (auto simp: table_abs_def)
  have lseq: "re_lastSequence rec = sr_last_sequence r" using r rec by (simp add: record_of_def row_record_def)
  note p = record_present [OF ok e, folded rec]
  define lim1 where "lim1 = mergeHistoryLimit (effective_limit limit) maxRows"
  have lim1: "0 < lim1" "lim1 \<le> effective_limit limit"
    using mergeHistoryLimit_bounds [of "effective_limit limit" maxRows] by (simp_all add: lim1_def)
  let ?rec1 = "rec\<lparr>re_lastSequence := re_lastSequence rec + 1\<rparr>"
  let ?rec2 = "applyExecutionResult (now 1) ?rec1 payload"
  have "tx_at t c (tx_bind (insertHistoryTx js db c jid (sr_last_sequence r + 1) payload) (\<lambda>_.
      tx_bind (trimHistoryTx db c jid (sr_last_sequence r + 1) lim1) (\<lambda>_.
      tx_bind (if maxAge > 0 then tx_bind (pruneHistoryOlderThanForJobTx db c jid (now 0 - maxAge)) (\<lambda>_. tx_return ())
               else tx_return ()) (\<lambda>_. upsertStatusRecordTx js db c jid ?rec2))))
    (\<lambda>_ t'. tables_ok js okid okpay t' \<and>
       (\<exists>e'. kept_rel now maxAge maxRows payload limit e e' \<and> table_abs js t' = set_entry jid e' (table_abs js t)))"
  proof (rule history_rule [OF ok r pay])
    fix h :: "'b history_row" and K :: "'b history_row \<Rightarrow> bool" and t'
    assume h: "hr_id h = jid" "hr_sequence h = sr_last_sequence r + 1"
      "run_of js h = \<lparr>jr_Sequence = sr_last_sequence r + 1, jr_Payload = payload\<rparr>"
      "\<exists>p. unmarshal_payload js (hr_payload_json h) = Inr p"
      and K: "keeps_others jid K" "\<And>q. hr_id q = jid \<Longrightarrow> K q \<Longrightarrow> hr_sequence h - lim1 < hr_sequence q"
      and K1: "\<And>q. maxAge \<le> 0 \<Longrightarrow> hr_id q = jid \<Longrightarrow> hr_sequence h - lim1 < hr_sequence q \<Longrightarrow> K q"
    let ?hs = "filter K (tb_history t @ [h])"
    let ?t = "with_history ?hs t"
    note rh = recorded_history [OF ok r h(1,2) K lim1(1)]
    have b: "base_ok js okid okpay ?t"
      using ok h rh(1) status_row_set [of js okid okpay t jid r] r
      by (intro base_ok_with distinct_map_filter_pairs) (auto simp: tables_ok_def base_ok_def)
    have "re_lastSequence ?rec2 = sr_last_sequence r + 1" using lseq by (simp add: applyExecutionResult_def Let_def)
    moreover have "named_state (sd_State (re_status ?rec2)) \<and> pred_option okpay (sd_LastRun (re_status ?rec2))"
      using p pay by (auto simp: applyExecutionResult_def storable_def Let_def)
    moreover have "storable t jid rec" using p by simp
    ultimately have st: "storable ?t jid ?rec2"
      using h(1,2) lseq by (auto simp: storable_def)
    show "tx_at ?t c (upsertStatusRecordTx js db c jid ?rec2) (\<lambda>_ t'. tables_ok js okid okpay t' \<and>
       (\<exists>e'. kept_rel now maxAge maxRows payload limit e e' \<and> table_abs js t' = set_entry jid e' (table_abs js t)))"
    proof (rule upsert_rule [OF b st])
      fix t'
      assume t': "tables_ok js okid okpay t'" "table_abs js t' =
        set_entry jid (record_entry (history_of js (tb_history ?t) jid) jid ?rec2) (table_abs js ?t)"
      let ?e' = "record_entry (history_of js ?hs jid) jid ?rec2"
      have "kept_rel now maxAge maxRows payload limit e ?e'"
        by (rule kept_entry [OF ok r h(1-3) K K1 lim1 lim1_def]) (use p lseq in simp_all)
      moreover have "table_abs js t' = set_entry jid ?e' (table_abs js t)"
        using t'(2) table_abs_with [of jid js ?hs t ?e'] rh(4) by simp
      ultimately show "tables_ok js okid okpay t' \<and>
        (\<exists>e'. kept_rel now maxAge maxRows payload limit e e' \<and> table_abs js t' = set_entry jid e' (table_abs js t))"
        using t'(1) by blast
    qed
  qed
  then show ?thesis
    by (simp add: record_result_tx_def Let_def lseq lim1_def effective_limit_def)
qed

lemma sqlite_RecordExecutionResult_kept:
  assumes "invar s" and "okpay payload" and "sqlite_RecordExecutionResult rt js db c now jid payload limit s = (r, s')"
  shows "write_outcome (update_rel (kept_rel now (q_MaxAge s) (q_MaxRowsPerJob s) payload limit) jid) c s r s'"
proof (rule write_rule [OF assms(1) assms(3) [unfolded sqlite_RecordExecutionResult_def]], rule update_rule)
  let ?t = "tab (q_db s)"
  fix e rec
  assume "tables_ok js okid okpay ?t" "as_status (table_abs js ?t) jid = Some e" "rec = record_of js ?t jid"
  then show "tx_at ?t c (record_result_tx js db c now (q_MaxAge s) (q_MaxRowsPerJob s) jid payload limit rec)
      (\<lambda>_ t'. tables_ok js okid okpay t' \<and>
        (\<exists>e'. kept_rel now (q_MaxAge s) (q_MaxRowsPerJob s) payload limit e e' \<and> table_abs js t' = set_entry jid e' (table_abs js ?t)))"
    using record_result_rule assms(2) by blast
qed

lemma sqlite_RecordExecutionResult_ok:
  assumes "invar s" and "okpay payload" and "sqlite_RecordExecutionResult rt js db c now jid payload limit s = (r, s')"
  shows "write_outcome (update_rel (result_rel now payload limit) jid) c s r s'"
proof -
  have "update_rel (result_rel now payload limit) jid (sabs s) (sabs s')"
    if "update_rel (kept_rel now (q_MaxAge s) (q_MaxRowsPerJob s) payload limit) jid (sabs s) (sabs s')"
    by (rule update_rel_mono [OF that]) (simp add: kept_rel_def)
  with sqlite_RecordExecutionResult_kept [OF assms] show ?thesis unfolding write_outcome_def by presburger
qed

section \<open>Jobs\<close>

lemma with_jobs_ok:
  assumes "tables_ok js okid okpay t" and "distinct (map fst xs)"
  shows "tables_ok js okid okpay (t\<lparr>tb_jobs := xs\<rparr>)"
    and "table_abs js (t\<lparr>tb_jobs := xs\<rparr>) = (table_abs js t)\<lparr>as_jobs := fst ` set xs\<rparr>"
  using assms
  by (simp_all add: tables_ok_def base_ok_def history_within_def status_row_of_def table_abs_def)

lemma sqlite_Save_ok:
  assumes "invar s" and "sqlite_Save rt js db c job s = (r, s')"
  shows "invar s' \<and>
    (case r of
       None \<Rightarrow> j_ID job \<notin> as_jobs (sabs s) \<and> sabs s' = (sabs s)\<lparr>as_jobs := insert (j_ID job) (as_jobs (sabs s))\<rparr>
     | Some e \<Rightarrow> sabs s' = sabs s \<and>
         (j_ID job \<in> as_jobs (sabs s) \<and> e = Wrapf errJobAlreadyExists ''job ID: %s'' [FStr (j_ID job)] \<or> storage_error e)) \<and>
    (reliable c s \<longrightarrow> reliable c s' \<and>
       r = (if j_ID job \<in> as_jobs (sabs s) then Some (Wrapf errJobAlreadyExists ''job ID: %s'' [FStr (j_ID job)]) else None))"
proof -
  let ?d = "q_db s" and ?i = "j_ID job"
  have inv: "saved ?d = None" "tables_ok js okid okpay (tab ?d)" "tb_has_jobs (tab ?d)"
    using assms(1) by (auto simp: sqlite_invar_def tables_ok_def base_ok_def)
  from job_encodes obtain b where b: "marshal_job js ?i = Inr b" by blast
  obtain x d' where x: "db_Exec db c (InsertJob ?i b) ?d = (x, d')" by fastforce
  have jobs: "as_jobs (sabs s) = fst ` set (tb_jobs (tab ?d))" by (simp add: sqlite_abs_def table_abs_def)
  show ?thesis
  proof (cases x)
    case (Inl e)
    then have r: "s' = s\<lparr>q_db := d'\<rparr>" "r = Some (if isSQLiteUniqueViolation rt (Some e)
        then Wrapf errJobAlreadyExists ''job ID: %s'' [FStr ?i] else storage_failed ''insert job failed: %v'' e)"
      using assms(2) b x by (simp_all add: sqlite_Save_def)
    have t: "tab d' = tab ?d" "saved d' = None" using exec_err [of c _ ?d e d'] x Inl inv(1) by auto
    have l: "healthy d' \<and> ?i \<in> as_jobs (sabs s) \<and> isSQLiteUniqueViolation rt (Some e)" if "c = None" "healthy ?d"
    proof -
      have ex: "db_Exec db None (InsertJob ?i b) ?d = (Inl e, d')" using that(1) x Inl by simp
      have "sql_exec (InsertJob ?i b) (tab ?d) \<noteq> None" if "?i \<notin> fst ` set (tb_jobs (tab ?d))"
        using inv(3) that by simp
      with exec_live [OF ex that(2)] have "healthy d'" "?i \<in> fst ` set (tb_jobs (tab ?d))" by blast+
      with unique_reported [OF ex that(2)] jobs show ?thesis by simp
    qed
    have u: "?i \<in> as_jobs (sabs s)" if "isSQLiteUniqueViolation rt (Some e)"
      using unique_err [of c ?i b ?d e d'] that x Inl inv(3) jobs by simp
    have i': "invar s'" "sabs s' = sabs s" using r(1) t inv(2) by (simp_all add: sqlite_invar_def sqlite_abs_def)
    have l': "reliable c s \<longrightarrow> reliable c s' \<and> ?i \<in> as_jobs (sabs s) \<and> isSQLiteUniqueViolation rt (Some e)"
      using l r(1) by (simp add: sqlite_reliable_def)
    show ?thesis
    proof (cases "isSQLiteUniqueViolation rt (Some e)")
      case True
      with i' l' u [OF True] r(2) show ?thesis by simp
    next
      case False
      with i' l' r(2) show ?thesis by simp
    qed
  next
    case (Inr n)
    then have r: "s' = s\<lparr>q_db := d'\<rparr>" "r = None" using assms(2) b x by (simp_all add: sqlite_Save_def)
    from exec_ok [of c "InsertJob ?i b" ?d n d'] x Inr inv
    have t: "saved d' = None" "?i \<notin> fst ` set (tb_jobs (tab ?d))"
      "tab d' = (tab ?d)\<lparr>tb_jobs := tb_jobs (tab ?d) @ [(?i, b)]\<rparr>"
      by (auto split: if_splits)
    have "distinct (map fst (tb_jobs (tab ?d) @ [(?i, b)]))" using inv(2) t(2) by (auto simp: tables_ok_def base_ok_def)
    note w = with_jobs_ok [OF inv(2) this, folded t(3)]
    have "invar s'" using w(1) t(1) r(1) by (simp add: sqlite_invar_def)
    moreover have "sabs s' = (sabs s)\<lparr>as_jobs := insert ?i (as_jobs (sabs s))\<rparr>"
      using w(2) r(1) jobs by (simp add: sqlite_abs_def)
    moreover have "?i \<notin> as_jobs (sabs s)" using t(2) jobs by simp
    moreover have "reliable c s \<longrightarrow> reliable c s'"
      using exec_live [of "InsertJob ?i b" ?d x d'] x r(1) by (auto simp: sqlite_reliable_def)
    ultimately show ?thesis using r(2) by simp
  qed
qed

lemma sqlite_Delete_ok:
  assumes "invar s" and "sqlite_Delete db c jid s = (b, s')"
  shows "invar s' \<and> as_status (sabs s') = as_status (sabs s) \<and>
    (as_jobs (sabs s') = as_jobs (sabs s) - {jid} \<or> \<not> b \<and> as_jobs (sabs s') = as_jobs (sabs s)) \<and>
    (b \<longrightarrow> jid \<in> as_jobs (sabs s)) \<and>
    (reliable c s \<longrightarrow> reliable c s' \<and> b = (jid \<in> as_jobs (sabs s)) \<and> as_jobs (sabs s') = as_jobs (sabs s) - {jid})"
proof -
  let ?d = "q_db s"
  have inv: "saved ?d = None" "tables_ok js okid okpay (tab ?d)" "tb_has_jobs (tab ?d)"
    using assms(1) by (auto simp: sqlite_invar_def tables_ok_def base_ok_def)
  obtain x d' where x: "db_Exec db c (DeleteJob jid) ?d = (x, d')" by fastforce
  have s': "s' = s\<lparr>q_db := d'\<rparr>" using assms(2) x by (simp add: sqlite_Delete_def)
  have jobs: "as_jobs (sabs s) = fst ` set (tb_jobs (tab ?d))" by (simp add: sqlite_abs_def table_abs_def)
  have hit: "0 < length (filter (\<lambda>r. fst r = jid) (tb_jobs (tab ?d))) \<longleftrightarrow> jid \<in> as_jobs (sabs s)"
    unfolding jobs length_greater_0_conv filter_empty_conv by (auto simp: image_iff)
  have live: "healthy d' \<and> (\<exists>n. x = Inr (Inr n))" if "c = None" "healthy ?d"
    using exec_live [of "DeleteJob jid" ?d x d'] that x inv(3) by auto
  show ?thesis
  proof (cases x)
    case (Inl e)
    have "\<not> b" using Inl x assms(2) by (simp add: sqlite_Delete_def)
    moreover have t: "tab d' = tab ?d" "saved d' = None" using exec_err [of c "DeleteJob jid" ?d e d'] x Inl inv(1) by simp_all
    moreover have "invar s'" "sabs s' = sabs s" using s' t inv by (simp_all add: sqlite_invar_def sqlite_abs_def)
    moreover have "\<not> reliable c s" using live Inl by (auto simp: sqlite_reliable_def)
    ultimately show ?thesis by simp
  next
    case (Inr n)
    from exec_ok [of c "DeleteJob jid" ?d n d'] x Inr inv
    have t: "saved d' = None" "tab d' = (tab ?d)\<lparr>tb_jobs := filter (\<lambda>r. fst r \<noteq> jid) (tb_jobs (tab ?d))\<rparr>"
      "\<And>k. n = Inr k \<Longrightarrow> k = int (length (filter (\<lambda>r. fst r = jid) (tb_jobs (tab ?d))))" by auto
    have b: "b \<longleftrightarrow> (\<exists>k. n = Inr k \<and> 0 < k)" using assms(2) x Inr by (cases n) (auto simp: sqlite_Delete_def)
    have "distinct (map fst (filter (\<lambda>r. fst r \<noteq> jid) (tb_jobs (tab ?d))))"
      using inv(2) by (simp add: tables_ok_def base_ok_def distinct_map_filter)
    note w = with_jobs_ok [OF inv(2) this]
    have im: "fst ` set (filter (\<lambda>r. fst r \<noteq> jid) (tb_jobs (tab ?d))) = as_jobs (sabs s) - {jid}"
      unfolding jobs by force
    have bk: "b = (jid \<in> as_jobs (sabs s))" if "n = Inr k" for k
      using b t(3) [OF that] that unfolding hit [symmetric] by simp
    have bi: "b \<longrightarrow> jid \<in> as_jobs (sabs s)" using b bk by blast
    have lv: "reliable c s \<longrightarrow> b = (jid \<in> as_jobs (sabs s))"
      using live bk Inr by (auto simp: sqlite_reliable_def)
    have "invar s'" using w(1) t(1,2) s' by (simp add: sqlite_invar_def)
    moreover have "as_status (sabs s') = as_status (sabs s)" "as_jobs (sabs s') = as_jobs (sabs s) - {jid}"
      using w(2) t(2) s' im by (simp_all add: sqlite_abs_def)
    moreover have "reliable c s \<longrightarrow> reliable c s'" using live s' by (simp add: sqlite_reliable_def)
    ultimately show ?thesis using bi lv by simp
  qed
qed

end

section \<open>Reads\<close>

lemma scan_rows_map: "(\<And>r. r \<in> set rs \<Longrightarrow> f (g r) = Some (h r)) \<Longrightarrow> scan_rows f (map g rs) = Some (map h rs)"
  by (induction rs) simp_all

context sqlite_store
begin

text \<open>A read leaves the tables alone; on a healthy engine with a live context it succeeds.\<close>

lemma query_result:
  assumes "invar s" and "run_tx (db_Query db c q) s = (y, s')" and "query_ready q (tab (q_db s))"
  shows "invar s' \<and> sabs s' = sabs s \<and> tab (q_db s') = tab (q_db s) \<and>
    (\<forall>rows. y = Inr rows \<longrightarrow> rows = sql_query q (tab (q_db s))) \<and>
    (reliable c s \<longrightarrow> reliable c s' \<and> (\<exists>rows. y = Inr rows))"
proof -
  obtain d' where d: "db_Query db c q (q_db s) = (y, d')" "s' = s\<lparr>q_db := d'\<rparr>"
    using assms(2) by (auto simp: run_tx_def split: prod.splits)
  have sv: "saved (q_db s) = None" using assms(1) by (simp add: sqlite_invar_def)
  have t: "tab d' = tab (q_db s) \<and> saved d' = None \<and> (\<forall>rows. y = Inr rows \<longrightarrow> rows = sql_query q (tab (q_db s)))"
  proof (cases y)
    case (Inl e)
    with d(1) query_err [of c q "q_db s" e d'] sv show ?thesis by simp
  next
    case (Inr rows)
    with d(1) query_ok [of c q "q_db s" rows d'] sv show ?thesis by simp
  qed
  moreover have "c = None \<Longrightarrow> healthy (q_db s) \<Longrightarrow> healthy d' \<and> (\<exists>rows. y = Inr rows)"
    using query_live [of q "q_db s" y d'] d(1) assms(3) by simp
  ultimately show ?thesis using d(2) assms(1) by (simp add: sqlite_invar_def sqlite_abs_def sqlite_reliable_def)
qed

lemma query_row_result:
  assumes "invar s" and "run_tx (sql_QueryRow db c q) s = (y, s')" and "query_ready q (tab (q_db s))"
  shows "invar s' \<and> sabs s' = sabs s \<and> tab (q_db s') = tab (q_db s) \<and>
    (\<forall>row. y = Inr row \<longrightarrow> (\<exists>rs. sql_query q (tab (q_db s)) = row # rs)) \<and>
    (reliable c s \<longrightarrow> reliable c s' \<and> (\<forall>row rs. sql_query q (tab (q_db s)) = row # rs \<longrightarrow> y = Inr row))"
proof -
  obtain x s1 where x: "run_tx (db_Query db c q) s = (x, s1)" by fastforce
  obtain d' where d: "db_Query db c q (q_db s) = (x, d')" "s1 = s\<lparr>q_db := d'\<rparr>"
    using x by (auto simp: run_tx_def split: prod.splits)
  note r = query_result [OF assms(1) x assms(3)]
  show ?thesis
  proof (cases x)
    case (Inl e)
    with assms(2) d have "y = Inl e" "s' = s1" by (simp_all add: run_tx_def sql_QueryRow_def)
    with r Inl show ?thesis by simp
  next
    case (Inr rows)
    show ?thesis
    proof (cases rows)
      case Nil
      with Inr assms(2) d have "y = Inl sql_ErrNoRows" "s' = s1" by (simp_all add: run_tx_def sql_QueryRow_def)
      moreover have "sql_query q (tab (q_db s)) = []" using r Inr Nil by simp
      ultimately show ?thesis using r by simp
    next
      case (Cons row rs)
      with Inr assms(2) d have "y = Inr row" "s' = s1" by (simp_all add: run_tx_def sql_QueryRow_def)
      moreover have "sql_query q (tab (q_db s)) = row # rs" using r Inr Cons by simp
      ultimately show ?thesis using r by simp
    qed
  qed
qed

lemma invar_tables:
  assumes "invar s"
  shows "tables_ok js okid okpay (tab (q_db s))" "base_ok js okid okpay (tab (q_db s))"
    "query_ready q (tab (q_db s))"
  using assms by (cases q; simp add: sqlite_invar_def tables_ok_def base_ok_def)+

lemma sqlite_Exists_ok:
  assumes "invar s" and "sqlite_Exists db c jid s = (b, s')"
  shows "invar s' \<and> sabs s' = sabs s \<and> (b \<longrightarrow> jid \<in> as_jobs (sabs s)) \<and>
    (reliable c s \<longrightarrow> reliable c s' \<and> b = (jid \<in> as_jobs (sabs s)))"
proof -
  obtain y where y: "run_tx (sql_QueryRow db c (JobExists jid)) s = (y, s')" "b = (y = Inr One)"
    using assms(2) by (auto simp: sqlite_Exists_def split: prod.splits)
  note q = query_row_result [OF assms(1) y(1) invar_tables(3) [OF assms(1)]]
  let ?xs = "filter (\<lambda>r. fst r = jid) (tb_jobs (tab (q_db s)))"
  have jobs: "jid \<in> as_jobs (sabs s) \<longleftrightarrow> ?xs \<noteq> []"
    by (auto simp: sqlite_abs_def table_abs_def filter_empty_conv image_iff)
  have rows: "sql_query (JobExists jid) (tab (q_db s)) = (if ?xs = [] then [] else [One])" by (cases ?xs) auto
  from q y(2) jobs rows show ?thesis by (cases "?xs = []") auto
qed

lemma sqlite_Count_ok:
  assumes "invar s" and "sqlite_Count db c s = (n, s')"
  shows "invar s' \<and> sabs s' = sabs s \<and> (n = 0 \<or> n = int (card (as_jobs (sabs s)))) \<and>
    (reliable c s \<longrightarrow> reliable c s' \<and> n = int (card (as_jobs (sabs s))))"
proof -
  obtain y where y: "run_tx (sql_QueryRow db c CountJobs) s = (y, s')"
    "n = (case y of Inr (Counted n) \<Rightarrow> n | _ \<Rightarrow> 0)"
    using assms(2) by (auto simp: sqlite_Count_def split: prod.splits)
  note q = query_row_result [OF assms(1) y(1) invar_tables(3) [OF assms(1)]]
  have "card (as_jobs (sabs s)) = length (tb_jobs (tab (q_db s)))"
    using invar_tables(2) [OF assms(1)] distinct_card [of "map fst (tb_jobs (tab (q_db s)))"]
    by (simp add: base_ok_def sqlite_abs_def table_abs_def)
  then have rows: "sql_query CountJobs (tab (q_db s)) = [Counted (int (card (as_jobs (sabs s))))]" by simp
  define N where "N = int (card (as_jobs (sabs s)))"
  have some: "y = Inr row \<Longrightarrow> row = Counted N" for row using q rows unfolding N_def by (metis list.inject)
  have live: "reliable c s \<Longrightarrow> y = Inr (Counted N)" using q rows unfolding N_def by blast
  have frame: "invar s'" "sabs s' = sabs s" "reliable c s \<longrightarrow> reliable c s'" using q by blast+
  have "n = 0 \<or> n = N" using y(2) some by (cases y) auto
  moreover have "reliable c s \<longrightarrow> n = N" using y(2) live by simp
  ultimately show ?thesis using frame unfolding N_def by blast
qed

lemma query_rows_ok:
  assumes "invar s" and "query_rows db c q f s = (x, s')"
    and "scan_rows f (sql_query q (tab (q_db s))) = Some ys"
  shows "invar s' \<and> sabs s' = sabs s \<and> tab (q_db s') = tab (q_db s) \<and> (x = None \<or> x = Some ys) \<and>
    (reliable c s \<longrightarrow> reliable c s' \<and> x = Some ys)"
proof -
  obtain y where y: "run_tx (db_Query db c q) s = (y, s')" "x = (case y of Inl e \<Rightarrow> None | Inr rs \<Rightarrow> scan_rows f rs)"
    using assms(2) by (auto simp: query_rows_def split: prod.splits)
  from query_result [OF assms(1) y(1) invar_tables(3) [OF assms(1)]] y(2) assms(3) show ?thesis
    by (cases y) auto
qed

lemma sqlite_IDs_ok:
  assumes "invar s" and "sqlite_IDs db c s = (xs, s')"
  shows "invar s' \<and> sabs s' = sabs s \<and> (xs = [] \<or> xs = sorted_list_of_set (as_jobs (sabs s))) \<and>
    (reliable c s \<longrightarrow> reliable c s' \<and> xs = sorted_list_of_set (as_jobs (sabs s)))"
proof -
  obtain x where x: "query_rows db c SelectJobIds scan_id s = (x, s')" "xs = (case x of None \<Rightarrow> [] | Some ys \<Rightarrow> ys)"
    using assms(2) by (auto simp: sqlite_IDs_def split: prod.splits)
  let ?ids = "map fst (tb_jobs (tab (q_db s)))"
  have sc: "scan_rows scan_id (sql_query SelectJobIds (tab (q_db s))) = Some (sort ?ids)"
    using scan_rows_map [of "sort ?ids" scan_id JobId "\<lambda>i. i"] by (simp add: scan_id_def)
  have "distinct ?ids" using invar_tables(2) [OF assms(1)] by (simp add: base_ok_def)
  then have "sort ?ids = sorted_list_of_set (as_jobs (sabs s))"
    by (simp add: sqlite_abs_def table_abs_def sorted_list_of_set_sort_remdups distinct_remdups_id flip: set_map)
  with query_rows_ok [OF assms(1) x(1) sc] x(2) show ?thesis by auto
qed

lemma loadStatusRecord_ok:
  assumes "invar s" and "loadStatusRecord rt js db c jid (q_db s) = (x, d')" and "s' = s\<lparr>q_db := d'\<rparr>"
  shows "invar s' \<and> sabs s' = sabs s \<and>
    (x = None \<or> re_found (record_of js (tab (q_db s)) jid) \<and> x = Some (record_of js (tab (q_db s)) jid)) \<and>
    (reliable c s \<longrightarrow> reliable c s' \<and>
       x = (if re_found (record_of js (tab (q_db s)) jid) then Some (record_of js (tab (q_db s)) jid) else None))"
proof -
  obtain row where row: "sql_QueryRow db c (SelectStatus jid) (q_db s) = (row, d')"
    using assms(2) by (auto simp: loadStatusRecord_def split: prod.splits)
  note l = load_result [OF invar_tables(2) [OF assms(1)] row]
  have x: "x = (case loadStatusRecordQueryRow rt js row of Inl e \<Rightarrow> None
      | Inr record \<Rightarrow> if re_found record then Some record else None)"
    using assms(2) row by (simp add: loadStatusRecord_def)
  have sv: "saved (q_db s) = None" using assms(1) by (simp add: sqlite_invar_def)
  show ?thesis
  proof (cases "loadStatusRecordQueryRow rt js row")
    case (Inl e)
    with l x sv assms(1,3) show ?thesis by (simp add: sqlite_invar_def sqlite_abs_def sqlite_reliable_def)
  next
    case (Inr rec)
    with l x sv assms(1,3) show ?thesis by (simp add: sqlite_invar_def sqlite_abs_def sqlite_reliable_def)
  qed
qed

text \<open>The record of a job, seen through the abstract store.\<close>

lemma record_abs:
  assumes "invar s"
  shows "as_status (sabs s) jid = None \<and> \<not> re_found (record_of js (tab (q_db s)) jid) \<or>
    (\<exists>e. as_status (sabs s) jid = Some e \<and> re_found (record_of js (tab (q_db s)) jid) \<and>
       e_status e = sqliteStatusToJobStatus (re_status (record_of js (tab (q_db s)) jid))
         (re_activeRuns (record_of js (tab (q_db s)) jid)))"
proof (cases "as_status (sabs s) jid")
  case None
  with record_absent [of "tab (q_db s)" jid] show ?thesis by (simp add: sqlite_abs_def no_record_def)
next
  case (Some e)
  have ok: "tables_ok js okid okpay (tab (q_db s))" by (rule invar_tables(1) [OF assms])
  from Some obtain r where r: "status_row_of (tab (q_db s)) jid = Some r" by (auto simp: sqlite_abs_def table_abs_def)
  from status_row_set [OF invar_tables(2) [OF assms] r] have "sd_JobID (re_status (row_record js r)) = jid"
    by (auto simp: row_ok_def row_record_def)
  then have "(re_status (row_record js r))\<lparr>sd_JobID := jid\<rparr> = re_status (row_record js r)"
    by (cases "re_status (row_record js r)") simp
  with r record_present [OF ok, of jid e] Some show ?thesis
    by (simp add: sqlite_abs_def record_entry_def record_of_def)
qed

lemma sqlite_State_ok:
  assumes "invar s" and "sqlite_State rt js db c jid s = (x, s')"
  shows "invar s' \<and> sabs s' = sabs s \<and>
    (x = None \<or> x = map_option (\<lambda>e. st_State (e_status e)) (as_status (sabs s) jid)) \<and>
    (reliable c s \<longrightarrow> reliable c s' \<and> x = map_option (\<lambda>e. st_State (e_status e)) (as_status (sabs s) jid))"
proof -
  obtain y d' where y: "loadStatusRecord rt js db c jid (q_db s) = (y, d')" by fastforce
  with assms(2) have x: "x = map_option (\<lambda>r. sd_State (re_status r)) y" "s' = s\<lparr>q_db := d'\<rparr>"
    by (simp_all add: sqlite_State_def)
  from loadStatusRecord_ok [OF assms(1) y x(2)] record_abs [OF assms(1), of jid] x(1) show ?thesis
    by (auto simp: sqliteStatusToJobStatus_def)
qed

lemma sqlite_Status_ok:
  assumes "invar s" and "sqlite_Status rt js db c jid s = (x, s')"
  shows "invar s' \<and> sabs s' = sabs s \<and> (x = None \<or> x = map_option e_status (as_status (sabs s) jid)) \<and>
    (reliable c s \<longrightarrow> reliable c s' \<and> x = map_option e_status (as_status (sabs s) jid))"
proof -
  obtain y d' where y: "loadStatusRecord rt js db c jid (q_db s) = (y, d')" by fastforce
  with assms(2) have x: "x = map_option (\<lambda>r. cloneJobStatus (sqliteStatusToJobStatus (re_status r) (re_activeRuns r))) y"
    "s' = s\<lparr>q_db := d'\<rparr>" by (simp_all add: sqlite_Status_def)
  from loadStatusRecord_ok [OF assms(1) y x(2)] record_abs [OF assms(1), of jid] x(1) show ?thesis by auto
qed

end

section \<open>Statuses and histories\<close>

context sqlite_store
begin

lemma scan_status_row:
  assumes "base_ok js okid okpay t" and "r \<in> set (tb_status t)"
  shows "scan_status js (StatusOf (sr_id r) (sr_status_json r) (sr_active_runs r)) =
    Some (e_status (the (as_status (table_abs js t) (sr_id r))))"
proof -
  have d: "distinct (map sr_id (tb_status t))" using assms(1) by (simp add: base_ok_def)
  have r: "status_row_of t (sr_id r) = Some r"
    using find_some_iff [OF d, of "sr_id r" r] assms(2) by (simp add: status_row_of_def)
  from status_row_set [OF assms(1) r] obtain x where x: "unmarshal_status js (sr_status_json r) = Inr x"
    by (auto simp: row_ok_def)
  with r show ?thesis
    by (simp add: scan_status_def decodeSQLiteStatus_def table_abs_def record_entry_def row_record_def
        sqliteStatusToJobStatus_def)
qed

lemma sqlite_Statuses_ok:
  assumes "invar s" and "sqlite_Statuses js db c s = (ys, s')"
  shows "invar s' \<and> sabs s' = sabs s \<and> (ys = [] \<or> ys = all_statuses (sabs s)) \<and>
    (reliable c s \<longrightarrow> reliable c s' \<and> ys = all_statuses (sabs s))"
proof -
  let ?t = "tab (q_db s)"
  have b: "base_ok js okid okpay ?t" by (rule invar_tables(2) [OF assms(1)])
  then have d: "distinct (map sr_id (tb_status ?t))" by (simp add: base_ok_def)
  obtain x where x: "query_rows db c SelectStatuses (scan_status js) s = (x, s')" "ys = (case x of None \<Rightarrow> [] | Some ys \<Rightarrow> ys)"
    using assms(2) by (auto simp: sqlite_Statuses_def split: prod.splits)
  have sc: "scan_rows (scan_status js) (sql_query SelectStatuses ?t) =
      Some (map (\<lambda>r. e_status (the (as_status (table_abs js ?t) (sr_id r)))) (sort_key sr_id (tb_status ?t)))"
    using scan_rows_map [of "sort_key sr_id (tb_status ?t)" "scan_status js"] scan_status_row [OF b] by simp
  have "dom (as_status (sabs s)) = sr_id ` set (tb_status ?t)"
    using find_none_iff [of sr_id _ "tb_status ?t"] by (auto simp: sqlite_abs_def table_abs_def status_row_of_def dom_def)
  then have "sorted_list_of_set (dom (as_status (sabs s))) = sort (map sr_id (tb_status ?t))"
    using d by (simp add: sorted_list_of_set_sort_remdups distinct_remdups_id flip: set_map)
  also have "\<dots> = map sr_id (sort_key sr_id (tb_status ?t))"
    by (rule sort_key_eqI [where f = "\<lambda>x. x", simplified]) (use d in \<open>auto simp: distinct_map\<close>)
  finally have all: "all_statuses (sabs s) =
      map (\<lambda>r. e_status (the (as_status (table_abs js ?t) (sr_id r)))) (sort_key sr_id (tb_status ?t))"
    by (simp add: all_statuses_def sqlite_abs_def)
  show ?thesis using query_rows_ok [OF assms(1) x(1) sc] x(2) unfolding all by auto
qed

lemma sqlite_History_ok:
  assumes "invar s" and "sqlite_History js db c jid s = (x, s')"
  shows "invar s' \<and> sabs s' = sabs s \<and> (x = None \<or> x = map_option e_history (as_status (sabs s) jid)) \<and>
    (reliable c s \<longrightarrow> reliable c s' \<and> x = map_option e_history (as_status (sabs s) jid))"
proof -
  let ?t = "tab (q_db s)" and ?hist = "history_of js (tb_history (tab (q_db s))) jid"
  have ok: "tables_ok js okid okpay ?t" by (rule invar_tables(1) [OF assms(1)])
  obtain h s1 where h: "query_rows db c (SelectHistory jid) (scan_run js) s = (h, s1)" by fastforce
  have "scan_run js (Run (hr_sequence r) (hr_payload_json r)) = Some (run_of js r)" if "r \<in> set (tb_history ?t)" for r
    using ok that by (fastforce simp: tables_ok_def base_ok_def scan_run_def run_of_def)
  then have "scan_rows (scan_run js) (sql_query (SelectHistory jid) ?t) = Some ?hist"
    unfolding history_of_def sql_query.simps by (intro scan_rows_map) simp
  note q = query_rows_ok [OF assms(1) h this]
  have ex: "as_status (sabs s) jid = None \<Longrightarrow> ?hist = []"
  proof -
    assume "as_status (sabs s) jid = None"
    then have "status_row_of ?t jid = None" by (simp add: sqlite_abs_def table_abs_def split: option.splits)
    then have "hr_id r \<noteq> jid" if "r \<in> set (tb_history ?t)" for r
      using ok that by (auto simp: tables_ok_def history_within_def)
    then have "filter (\<lambda>r. hr_id r = jid) (tb_history ?t) = []" by (simp add: filter_empty_conv)
    then show "?hist = []" by (simp add: history_of_def)
  qed
  have hist: "as_status (sabs s) jid = Some e \<Longrightarrow> e_history e = ?hist" for e
    by (auto simp: sqlite_abs_def table_abs_def record_entry_def)
  show ?thesis
  proof (cases "h = None \<or> ?hist \<noteq> []")
    case True
    then have x: "x = h" "s' = s1" using assms(2) h q
      by (auto simp: sqlite_History_def split: list.splits option.splits)
    have "map_option e_history (as_status (sabs s) jid) = Some ?hist" if "h \<noteq> None"
      using True that ex hist by (cases "as_status (sabs s) jid") auto
    with q x show ?thesis by (cases h) auto
  next
    case False
    then have e: "h = Some []" "?hist = []" using q by auto
    obtain y where y: "run_tx (sql_QueryRow db c (StatusExists jid)) s1 = (y, s')" "x = (if y = Inr One then Some [] else None)"
      using assms(2) h e by (auto simp: sqlite_History_def statusExists_def run_tx_def split: prod.splits)
    have i1: "invar s1" "sabs s1 = sabs s" "tab (q_db s1) = ?t" "reliable c s \<Longrightarrow> reliable c s1" using q by auto
    note q2 = query_row_result [OF i1(1) y(1) invar_tables(3) [OF i1(1)]]
    let ?rs = "filter (\<lambda>r. sr_id r = jid) (tb_status ?t)"
    have dom: "as_status (sabs s) jid \<noteq> None \<longleftrightarrow> ?rs \<noteq> []"
      using find_none_iff [of sr_id jid "tb_status ?t"]
      by (auto simp: sqlite_abs_def table_abs_def status_row_of_def filter_empty_conv)
    have rows: "sql_query (StatusExists jid) (tab (q_db s1)) = (if ?rs = [] then [] else [One])"
      unfolding i1(3) by (cases ?rs) auto
    have some: "y = Inr row \<Longrightarrow> row = One \<and> ?rs \<noteq> []" for row using q2 rows by (metis list.distinct(1) list.inject)
    have live: "reliable c s \<Longrightarrow> ?rs \<noteq> [] \<Longrightarrow> y = Inr One" using q2 rows i1(4) by simp
    have mo: "map_option e_history (as_status (sabs s) jid) = (if ?rs = [] then None else Some [])"
      using dom hist e(2) by (cases "as_status (sabs s) jid") auto
    have "invar s'" "sabs s' = sabs s" "reliable c s \<longrightarrow> reliable c s'" using q2 i1 by auto
    moreover have "x = None \<or> x = map_option e_history (as_status (sabs s) jid)" using y(2) some mo by auto
    moreover have "reliable c s \<longrightarrow> x = map_option e_history (as_status (sabs s) jid)"
      using y(2) some live mo by auto
    ultimately show ?thesis by blast
  qed
qed

text \<open>The writes as the contract states them.\<close>

lemma write_outcomeD:
  "write_outcome R c s r s' \<Longrightarrow> invar s' \<and> (if r = None then R (sabs s) (sabs s') else sabs s' = sabs s) \<and>
     (reliable c s \<longrightarrow> reliable c s' \<and> r = None)"
  unfolding write_outcome_def if_bool_eq_conj by blast

lemmas sqlite_writes =
  write_outcomeD [OF sqlite_UpsertStatus_ok] write_outcomeD [OF sqlite_MarkRemoved_ok]
  write_outcomeD [OF sqlite_MarkTerminal_ok] write_outcomeD [OF sqlite_MarkExecutionStart_ok]
  write_outcomeD [OF sqlite_RecordExecutionResult_ok]

lemma sqlite_finite: "finite (as_jobs (sabs s)) \<and> finite (dom (as_status (sabs s)))"
  by (auto simp: sqlite_abs_def table_abs_def status_row_of_def dom_def find_None_iff
      intro: finite_subset [of _ "sr_id ` set (tb_status (tab (q_db s)))"])

end

section \<open>The contract\<close>

sublocale sqlite_store < contract: reliable_jobs_store "SQLiteJobsStorage rt js db" "sqlite_abs js tab"
  "sqlite_invar js okid okpay tab saved" okid okpay "sqlite_reliable healthy"
proof (unfold_locales, unfold SQLiteJobsStorage_def JobsStorage.simps)
qed (rule sqlite_finite |
    (frule (1) sqlite_Save_ok | frule (1) sqlite_Delete_ok | frule (1) sqlite_Exists_ok | frule (1) sqlite_Count_ok |
     frule (1) sqlite_IDs_ok | frule (1) sqlite_State_ok | frule (1) sqlite_Status_ok | frule (1) sqlite_Statuses_ok |
     frule (1) sqlite_History_ok | frule (3) sqlite_writes(1) | frule (1) sqlite_writes(2) | frule (2) sqlite_writes(3) |
     frule (1) sqlite_writes(4) | frule (2) sqlite_writes(5)), blast)+

end
