(* ===== verification/Sqlite_Engine.thy ===== *)
theory Sqlite_Engine
  imports Sqlite_Refinement
begin

text \<open>
  The simplest engine and encoder that keep the documented behaviour: a connection that performs
  every statement on its tables as long as its context is live, and an encoder that stores a value
  as it is. They show that the hypotheses on the engine and the encoder can hold, and the
  concrete runs of the storage are evaluated on them.
\<close>

section \<open>An engine\<close>

datatype blob = JobBlob string | StatusBlob sqliteStatusData | PayloadBlob CallbackPayload

record connection =
  cn_tab :: "blob tables"
  cn_saved :: "blob tables option"

text \<open>The error of a rejected statement.\<close>

definition rejection :: "blob statement \<Rightarrow> blob tables \<Rightarrow> goerr" where
  "rejection st t =
     (case st of
        InsertJob i data \<Rightarrow>
          if i \<in> fst ` set (tb_jobs t) then Sentinel ''sqlite.unique'' ''UNIQUE constraint failed: scheduler_jobs.id''
          else Sentinel ''sqlite'' ''no such table''
      | AlterHistoryAddFinishedAt \<Rightarrow>
          if tb_has_finished t then Sentinel ''sqlite.column'' ''duplicate column name: finished_at_unix_nano''
          else Sentinel ''sqlite'' ''no such table''
      | _ \<Rightarrow> Sentinel ''sqlite'' ''no such table'')"

definition interrupted :: goerr where
  "interrupted = Sentinel ''sqlite.interrupted'' ''interrupted''"

definition table_engine :: "(connection, blob) database" where
  "table_engine = \<lparr>
     db_BeginTx = (\<lambda>c d. if c = None then (None, d\<lparr>cn_saved := Some (cn_tab d)\<rparr>) else (Some interrupted, d)),
     db_Commit = (\<lambda>d. (None, d\<lparr>cn_saved := None\<rparr>)),
     db_Rollback = (\<lambda>d. case cn_saved d of
        None \<Rightarrow> (Some (Sentinel ''sql.ErrTxDone'' ''sql: transaction has already been committed or rolled back''), d)
      | Some t \<Rightarrow> (None, d\<lparr>cn_tab := t, cn_saved := None\<rparr>)),
     db_Exec = (\<lambda>c st d.
        if c \<noteq> None then (Inl interrupted, d)
        else case sql_exec st (cn_tab d) of
               None \<Rightarrow> (Inl (rejection st (cn_tab d)), d)
             | Some (n, t) \<Rightarrow> (Inr (Inr n), d\<lparr>cn_tab := t\<rparr>)),
     db_Query = (\<lambda>c q d.
        if c \<noteq> None then (Inl interrupted, d)
        else if query_ready q (cn_tab d) then (Inr (sql_query q (cn_tab d)), d)
        else (Inl (Sentinel ''sqlite'' ''no such table''), d)),
     db_Close = (\<lambda>d. (None, d))\<rparr>"

definition plain_codec :: "blob codec" where
  "plain_codec = \<lparr>marshal_job = (\<lambda>i. Inr (JobBlob i)), marshal_status = (\<lambda>x. Inr (StatusBlob x)),
     unmarshal_status = (\<lambda>b. case b of StatusBlob x \<Rightarrow> Inr x | _ \<Rightarrow> Inl interrupted),
     marshal_payload = (\<lambda>p. Inr (PayloadBlob p)),
     unmarshal_payload = (\<lambda>b. case b of PayloadBlob p \<Rightarrow> Inr p | _ \<Rightarrow> Inl interrupted)\<rparr>"

interpretation plain: json_codec plain_codec "\<lambda>_. True" "\<lambda>_. True"
  by unfold_locales (simp_all add: plain_codec_def)

lemma lower_texts:
  "str_ToLower ''UNIQUE constraint failed: scheduler_jobs.id'' = ''unique constraint failed: scheduler_jobs.id''"
  "str_ToLower ''interrupted'' = ''interrupted''" "str_ToLower ''no such table'' = ''no such table''"
  "str_ToLower ''duplicate column name: finished_at_unix_nano'' = ''duplicate column name: finished_at_unix_nano''"
  by code_simp+

lemma rejection_unique:
  "isSQLiteUniqueViolation chain_runtime (Some (rejection (InsertJob i data) t)) \<longleftrightarrow> i \<in> fst ` set (tb_jobs t)"
  "\<not> isSQLiteUniqueViolation chain_runtime (Some interrupted)"
  by (simp_all add: isSQLiteUniqueViolation_def chain_runtime_def rejection_def interrupted_def lower_texts)

lemma rejection_column:
  "tb_has_finished t \<Longrightarrow> isSQLiteDuplicateColumnError chain_runtime (Some (rejection AlterHistoryAddFinishedAt t))"
  "\<not> tb_has_finished t \<Longrightarrow> \<not> isSQLiteDuplicateColumnError chain_runtime (Some (rejection AlterHistoryAddFinishedAt t))"
  "\<not> isSQLiteDuplicateColumnError chain_runtime (Some interrupted)"
  by (simp_all add: isSQLiteDuplicateColumnError_def chain_runtime_def rejection_def interrupted_def lower_texts)

lemma engine_no_rows:
  "errors_Is chain_runtime sql_ErrNoRows sql_ErrNoRows"
  "\<not> errors_Is chain_runtime interrupted sql_ErrNoRows"
  "\<not> errors_Is chain_runtime (Sentinel ''sqlite'' x) sql_ErrNoRows"
  by (simp_all add: chain_runtime_def sql_ErrNoRows_def interrupted_def)

interpretation table: sql_engine chain_runtime table_engine cn_tab cn_saved "\<lambda>_. True"
proof (unfold_locales, goal_cases)
  case (15 c i data d e d')
  then show ?case using rejection_unique
    by (auto simp: table_engine_def split: if_splits option.splits)
qed (auto simp: table_engine_def rejection_unique rejection_column engine_no_rows split: if_splits option.splits)

interpretation table: sqlite_store chain_runtime table_engine cn_tab cn_saved "\<lambda>_. True" plain_codec "\<lambda>_. True" "\<lambda>_. True"
  by unfold_locales

end
