(* ===== verification/Storage_Agreement.thy ===== *)
theory Storage_Agreement
  imports Jobs_Storage Sqlite_Engine
begin

text \<open>
  The two storages are interchangeable. A reference storage performs the writes on the abstract
  store; every storage that keeps the last runs of each job follows it step by step. The in-memory
  storage does, and so does the SQLite storage on a healthy engine without a retention of its own.
\<close>

section \<open>The reference storage\<close>

definition spec_update :: "string \<Rightarrow> (jobStatusEntry \<Rightarrow> jobStatusEntry) \<Rightarrow> astore \<Rightarrow> astore" where
  "spec_update jid f a = (case as_status a jid of None \<Rightarrow> a | Some e \<Rightarrow> set_entry jid (f e) a)"

definition spec_result :: "instant \<Rightarrow> CallbackPayload \<Rightarrow> int \<Rightarrow> jobStatusEntry \<Rightarrow> jobStatusEntry" where
  "spec_result now p limit e =
     result_entry (last_n (nat (effective_limit limit)) (e_history e @ [next_run p e])) now p e"

fun spec_op :: "store_op \<Rightarrow> astore \<Rightarrow> astore" where
  "spec_op (OSave c job) a = a\<lparr>as_jobs := insert (j_ID job) (as_jobs a)\<rparr>"
| "spec_op (ODelete c jid) a = a\<lparr>as_jobs := as_jobs a - {jid}\<rparr>"
| "spec_op (OUpsert c now jid st) a =
     set_entry jid (upsert_entry st (now 0) (case as_status a jid of None \<Rightarrow> new_entry jid (now 0) | Some e \<Rightarrow> e)) a"
| "spec_op (ORemoved c now jid) a = spec_update jid (terminal_entry JobStateRemoved (now 0)) a"
| "spec_op (OTerminal c now jid st) a =
     spec_update jid (\<lambda>e. if e_terminal e then e else terminal_entry st (now 0) e) a"
| "spec_op (OStart c now jid) a = spec_update jid (start_entry (now 0)) a"
| "spec_op (OResult c now jid p limit) a = spec_update jid (spec_result (now 0) p limit) a"

text \<open>The clock does not move during a write.\<close>

fun steady :: "store_op \<Rightarrow> bool" where
  "steady (OUpsert c now jid st) = (\<exists>t. now = (\<lambda>_. t))"
| "steady (ORemoved c now jid) = (\<exists>t. now = (\<lambda>_. t))"
| "steady (OTerminal c now jid st) = (\<exists>t. now = (\<lambda>_. t))"
| "steady (OStart c now jid) = (\<exists>t. now = (\<lambda>_. t))"
| "steady (OResult c now jid p limit) = (\<exists>t. now = (\<lambda>_. t))"
| "steady x = True"

fun is_result :: "store_op \<Rightarrow> bool" where
  "is_result (OResult c now jid p limit) = True"
| "is_result x = False"

section \<open>Histories without gaps\<close>

definition contiguous :: "jobStatusEntry \<Rightarrow> bool" where
  "contiguous e \<longleftrightarrow>
     map jr_Sequence (e_history e) = [e_lastSequence e - int (length (e_history e)) + 1 .. e_lastSequence e]"

definition all_contiguous :: "astore \<Rightarrow> bool" where
  "all_contiguous a \<longleftrightarrow> (\<forall>jid e. as_status a jid = Some e \<longrightarrow> contiguous e)"

lemma contiguous_same:
  "e_history e' = e_history e \<Longrightarrow> e_lastSequence e' = e_lastSequence e \<Longrightarrow> contiguous e \<Longrightarrow> contiguous e'"
  by (simp add: contiguous_def)

lemma contiguous_next:
  assumes "contiguous e"
  shows "map jr_Sequence (e_history e @ [next_run p e]) =
    [e_lastSequence e + 1 - int (length (e_history e @ [next_run p e])) + 1 .. e_lastSequence e + 1]"
proof -
  let ?n = "e_lastSequence e" and ?k = "int (length (e_history e))"
  have "[?n - ?k + 1 .. ?n + 1] = [?n - ?k + 1 .. ?n] @ [?n + 1]"
    using upto_rec2 [of "?n - ?k + 1" "?n + 1"] by simp
  with assms show ?thesis by (simp add: contiguous_def next_run_def)
qed

lemma drop_upto: "drop n [i .. j] = [i + int n .. j]"
proof (induction n arbitrary: i)
  case (Suc n)
  then show ?case
  proof (cases "i \<le> j")
    case True
    then have "[i .. j] = i # [i + 1 .. j]" by (rule upto_rec1)
    with Suc [of "i + 1"] show ?thesis by (simp add: algebra_simps)
  qed simp
qed simp

text \<open>Keeping a number of runs and keeping a range of sequence numbers is the same thing.\<close>

lemma filter_window:
  assumes "map f xs = [j - int (length xs) + 1 .. j]" and "0 < l"
  shows "filter (\<lambda>x. j - l < f x) xs = last_n (nat l) xs"
  using assms
proof (induction xs arbitrary: l)
  case (Cons a xs)
  have up: "[j - int (length xs) .. j] = (j - int (length xs)) # [j - int (length xs) + 1 .. j]"
    by (rule upto_rec1) simp
  from Cons.prems(1) up have a: "f a = j - int (length xs)" "map f xs = [j - int (length xs) + 1 .. j]" by simp_all
  have "last_n (nat l) (a # xs) = (if int (length xs) < l then a # xs else last_n (nat l) xs)"
    using Cons.prems(2) by (auto simp: last_n_def Suc_diff_le)
  moreover have "last_n (nat l) xs = xs" if "int (length xs) < l" using that by (simp add: last_n_all)
  ultimately show ?case using Cons.IH [OF a(2) Cons.prems(2)] a(1) by auto
qed (simp add: last_n_def)

lemma result_window:
  assumes "contiguous e" and "0 < l"
  shows "filter (\<lambda>run. e_lastSequence e + 1 - l < jr_Sequence run) (e_history e @ [next_run p e]) =
    last_n (nat l) (e_history e @ [next_run p e])"
  by (rule filter_window [OF contiguous_next [OF assms(1)] assms(2)])

lemma contiguous_result:
  assumes "contiguous e"
  shows "contiguous (spec_result now p limit e)"
proof -
  define h where "h = e_history e @ [next_run p e]"
  define l where "l = nat (effective_limit limit)"
  let ?n = "e_lastSequence e + 1"
  have "map jr_Sequence (last_n l h) = drop (length h - l) [?n - int (length h) + 1 .. ?n]"
    using contiguous_next [OF assms, of p] by (simp only: h_def last_n_def drop_map [symmetric])
  also have "\<dots> = [?n - int (length (last_n l h)) + 1 .. ?n]"
    unfolding drop_upto by (cases "l \<le> length h") (simp_all add: of_nat_diff)
  finally show ?thesis by (simp add: contiguous_def spec_result_def result_entry_def Let_def h_def l_def)
qed

lemma contiguous_update:
  assumes "all_contiguous a" and "\<And>e. contiguous e \<Longrightarrow> contiguous (f e)"
  shows "all_contiguous (spec_update jid f a)"
  using assms by (auto simp: all_contiguous_def spec_update_def split: option.splits)

lemma contiguous_entries:
  "contiguous (new_entry jid t)"
  "contiguous e \<Longrightarrow> contiguous (upsert_entry st t e)" "contiguous e \<Longrightarrow> contiguous (terminal_entry st t e)"
  "contiguous e \<Longrightarrow> contiguous (start_entry t e)"
  by (simp_all add: contiguous_def new_entry_def upsert_entry_def terminal_entry_def start_entry_def)

lemma contiguous_spec:
  assumes "all_contiguous a"
  shows "all_contiguous (spec_op x a)"
proof (cases x)
  case (OUpsert c now jid st)
  with assms contiguous_entries(1,2) show ?thesis by (auto simp: all_contiguous_def split: option.splits)
next
  case (OResult c now jid p limit)
  with contiguous_update [OF assms, of "spec_result (now 0) p limit"] contiguous_result show ?thesis by simp
qed (use assms in \<open>simp_all add: contiguous_update contiguous_entries\<close>, simp_all add: all_contiguous_def)

section \<open>Storages that follow the reference\<close>

text \<open>
  \<open>unlimited\<close>: the storage has no retention of its own. What the contract leaves open, the part of
  the history that is kept, is then the last runs.
\<close>

locale following_store = reliable_jobs_store +
  fixes unlimited :: "'a \<Rightarrow> bool"
  assumes unlimited_kept: "unlimited s \<Longrightarrow> unlimited (apply_op ops x s)"
    and last_runs: "invar s \<Longrightarrow> reliable c s \<Longrightarrow> unlimited s \<Longrightarrow> okpay p \<Longrightarrow> all_contiguous (abs s) \<Longrightarrow>
      RecordExecutionResult ops c now jid p limit s = (r, s') \<Longrightarrow>
      \<exists>i. abs s' = spec_update jid (spec_result (now i) p limit) (abs s)"
begin

lemma follows_status:
  assumes "op_rel x a a'" and "steady x" and "\<not> is_result x" and "\<forall>c job. x \<noteq> OSave c job" and "\<forall>c jid. x \<noteq> ODelete c jid"
  shows "a' = spec_op x a"
  using assms
  by (cases x) (auto simp: spec_update_def removed_rel_def terminal_rel_def start_rel_def set_entry_same
      elim!: upsert_rel.cases update_rel.cases split: if_splits)

lemma follows_step:
  assumes "invar s" and "reliable (op_ctx x) s" and "unlimited s" and "op_ok okid okpay x" and "steady x"
    and "all_contiguous (abs s)"
  shows "abs (apply_op ops x s) = spec_op x (abs s)"
proof (cases x)
  case (OSave c job)
  obtain r s' where r: "Save ops c job s = (r, s')" by fastforce
  from save [OF assms(1) r] rel_save [OF assms(1) _ r] assms(2) OSave r show ?thesis
    by (cases "abs s") (auto simp: insert_absorb split: option.splits if_splits)
next
  case (ODelete c jid)
  obtain r s' where r: "Delete ops c jid s = (r, s')" by fastforce
  from delete [OF assms(1) r] rel_delete [OF assms(1) _ r] assms(2) ODelete r show ?thesis by simp
next
  case (OResult c now jid p limit)
  obtain r s' where r: "RecordExecutionResult ops c now jid p limit s = (r, s')" by fastforce
  from last_runs [OF assms(1) _ assms(3) _ assms(6) r] assms(2,4,5) OResult r show ?thesis by auto
qed (use apply_op_reliable [OF assms(1,4,2)] follows_status [OF _ assms(5)] in auto)

lemma follows_run:
  assumes "invar s" and "reliable c s" and "unlimited s" and "all_contiguous (abs s)"
    and "list_all (\<lambda>x. op_ok okid okpay x \<and> steady x \<and> op_ctx x = c) xs"
  shows "abs (run_ops ops xs s) = fold spec_op xs (abs s) \<and> invar (run_ops ops xs s) \<and> reliable c (run_ops ops xs s)"
  using assms
proof (induction xs arbitrary: s)
  case (Cons x xs)
  then have x: "op_ok okid okpay x" "steady x" "op_ctx x = c" by simp_all
  have step: "abs (apply_op ops x s) = spec_op x (abs s)"
    using follows_step [OF Cons.prems(1) _ Cons.prems(3) x(1,2) Cons.prems(4)] Cons.prems(2) x(3) by simp
  have inv: "invar (apply_op ops x s)" using apply_op_rel [OF Cons.prems(1) x(1)] by simp
  have rel: "reliable c (apply_op ops x s)"
    using apply_op_reliable [OF Cons.prems(1) x(1)] Cons.prems(2) x(3) by simp
  have cont: "all_contiguous (abs (apply_op ops x s))" using contiguous_spec [OF Cons.prems(4)] step by simp
  from Cons.IH [OF inv rel unlimited_kept [OF Cons.prems(3)] cont] Cons.prems(5) step show ?case by simp
qed simp

end

section \<open>The same answers\<close>

definition same_answers :: "'s JobsStorage \<Rightarrow> 't JobsStorage \<Rightarrow> ctx \<Rightarrow> 's \<Rightarrow> 't \<Rightarrow> bool" where
  "same_answers ops1 ops2 c s t \<longleftrightarrow>
     fst (IDs ops1 c s) = fst (IDs ops2 c t) \<and> fst (Count ops1 c s) = fst (Count ops2 c t) \<and>
     fst (Statuses ops1 c s) = fst (Statuses ops2 c t) \<and>
     (\<forall>jid. fst (Exists ops1 c jid s) = fst (Exists ops2 c jid t) \<and> fst (State ops1 c jid s) = fst (State ops2 c jid t) \<and>
        fst (Status ops1 c jid s) = fst (Status ops2 c jid t) \<and> fst (History ops1 c jid s) = fst (History ops2 c jid t))"

text \<open>The answers of a storage that cannot fail, read off its abstract store.\<close>

definition answers :: "'s JobsStorage \<Rightarrow> ctx \<Rightarrow> 's \<Rightarrow> astore \<Rightarrow> bool" where
  "answers ops c s a \<longleftrightarrow>
     fst (IDs ops c s) = sorted_list_of_set (as_jobs a) \<and> fst (Count ops c s) = int (card (as_jobs a)) \<and>
     fst (Statuses ops c s) = all_statuses a \<and>
     (\<forall>jid. fst (Exists ops c jid s) = (jid \<in> as_jobs a) \<and>
        fst (State ops c jid s) = map_option (\<lambda>e. st_State (e_status e)) (as_status a jid) \<and>
        fst (Status ops c jid s) = map_option e_status (as_status a jid) \<and>
        fst (History ops c jid s) = map_option e_history (as_status a jid))"

lemma answers_same: "answers ops1 c s a \<Longrightarrow> answers ops2 c t a \<Longrightarrow> same_answers ops1 ops2 c s t"
  by (simp add: answers_def same_answers_def)

context reliable_jobs_store
begin

lemma reliable_answers:
  assumes "invar s" and "reliable c s"
  shows "answers ops c s (abs s)"
  using rel_ids [OF assms] rel_count [OF assms] rel_statuses [OF assms] rel_exist [OF assms] rel_state [OF assms]
    rel_status [OF assms] rel_history [OF assms]
  unfolding answers_def by (metis prod.collapse)

end

section \<open>The two storages\<close>

interpretation mem_follows: following_store InMemoryJobsStorage mem_abs mem_invar
  "\<lambda>_. True" "\<lambda>_. True" "\<lambda>_ _. True" "\<lambda>_. True"
proof (unfold_locales, goal_cases)
  case (2 s c p now jid limit r s')
  then show ?case
    by (intro exI [of _ 0]) (auto simp: InMemoryJobsStorage_def mem_RecordExecutionResult_def mem_abs_def spec_update_def
        spec_result_def set_entry_def mem_record_entry_def result_entry_def next_run_def effective_limit_def
        last_n_def Let_def split: option.splits)
qed simp

definition no_retention :: "'d sqlite \<Rightarrow> bool" where
  "no_retention s \<longleftrightarrow> q_MaxAge s \<le> 0 \<and> q_MaxRowsPerJob s \<le> 0"

lemma run_write_retention: "no_retention (snd (run_write m s)) = no_retention s"
  by (simp add: run_write_def run_tx_def no_retention_def split: prod.split)

lemma sqlite_retention_kept: "no_retention (apply_op (SQLiteJobsStorage rt js db) x s) = no_retention s"
  by (cases x) (simp_all add: SQLiteJobsStorage_def sqlite_UpsertStatus_def sqlite_MarkRemoved_def sqlite_MarkTerminal_def
      sqlite_MarkExecutionStart_def sqlite_RecordExecutionResult_def run_write_retention,
      simp_all add: sqlite_Save_def sqlite_Delete_def no_retention_def split: prod.split sum.split)

lemma kept_last_runs:
  assumes "kept_rel now maxAge maxRows p limit e e'" and "maxAge \<le> 0" and "maxRows \<le> 0" and "contiguous e"
  shows "\<exists>i. e' = spec_result (now i) p limit e"
proof -
  from assms(1) obtain i hist where e': "e' = result_entry hist (now i) p e" by (auto simp: kept_rel_def result_rel_def)
  have "hist = e_history e'" by (simp add: e' result_entry_def Let_def)
  also have "\<dots> = last_n (nat (effective_limit limit)) (e_history e @ [next_run p e])"
    using assms result_window [OF assms(4), of "effective_limit limit" p]
    by (simp add: kept_rel_def mergeHistoryLimit_def)
  finally show ?thesis using e' by (auto simp: spec_result_def)
qed

sublocale sqlite_store < follows: following_store "SQLiteJobsStorage rt js db" "sqlite_abs js tab"
  "sqlite_invar js okid okpay tab saved" okid okpay "sqlite_reliable healthy" no_retention
proof (unfold_locales, goal_cases)
  case (1 s x)
  then show ?case by (simp add: sqlite_retention_kept)
next
  case (2 s c p now jid limit r s')
  have "sqlite_RecordExecutionResult rt js db c now jid p limit s = (r, s')"
    using 2(6) by (simp add: SQLiteJobsStorage_def)
  from sqlite_RecordExecutionResult_kept [OF 2(1) 2(4) this] 2(2)
  have "update_rel (kept_rel now (q_MaxAge s) (q_MaxRowsPerJob s) p limit) jid (sqlite_abs js tab s) (sqlite_abs js tab s')"
    unfolding write_outcome_def by presburger
  then show ?case
  proof (cases rule: update_rel.cases)
    case update_absent
    then show ?thesis by (simp add: spec_update_def)
  next
    case (update_present e e')
    have "contiguous e" using 2(5) update_present(2) by (simp add: all_contiguous_def)
    with kept_last_runs [OF update_present(3)] 2(3) update_present show ?thesis
      by (auto simp: spec_update_def no_retention_def)
  qed
qed

context sqlite_store
begin

lemmas sqlite_follows_run = follows.follows_run
lemmas sqlite_answers = contract.reliable_answers

end

section \<open>Properties\<close>

text \<open>
  (C6) The two storages are interchangeable. The same writes, on an in-memory storage and on a
  SQLite storage that has no retention of its own and whose engine does not fail, starting from
  the same jobs and statuses and histories without gaps, lead to storages that give the same
  answer to every read. Contexts are live, the clock stands still during a write, and the arguments
  are ones the encoder can represent.
\<close>

theorem sqlite_memory_agree:
  assumes "sqlite_store rt db tab saved healthy js okid okpay"
    and "sqlite_invar js okid okpay tab saved s" and "healthy (q_db s)" and "no_retention s"
    and "mem_invar m" and "mem_abs m = sqlite_abs js tab s" and "all_contiguous (mem_abs m)"
    and "list_all (\<lambda>x. op_ok okid okpay x \<and> steady x \<and> op_ctx x = None) xs"
  shows "same_answers (SQLiteJobsStorage rt js db) InMemoryJobsStorage None
    (run_ops (SQLiteJobsStorage rt js db) xs s) (run_ops InMemoryJobsStorage xs m)"
proof -
  note store = sqlite_store.sqlite_follows_run [OF assms(1,2)] sqlite_store.sqlite_answers [OF assms(1)]
  have rel: "sqlite_reliable healthy None s" using assms(3) by (simp add: sqlite_reliable_def)
  have cont: "all_contiguous (sqlite_abs js tab s)" using assms(6,7) by simp
  note q = store(1) [OF rel assms(4) cont assms(8)]
  have "list_all (\<lambda>x. op_ok (\<lambda>_. True) (\<lambda>_. True) x \<and> steady x \<and> op_ctx x = None) xs"
  proof -
    have "op_ok okid okpay x \<Longrightarrow> op_ok (\<lambda>_. True) (\<lambda>_. True) x" for x by (cases x) simp_all
    with assms(8) show ?thesis by (simp add: list_all_iff)
  qed
  note m = mem_follows.follows_run [OF assms(5) TrueI TrueI assms(7) this]
  let ?s = "run_ops (SQLiteJobsStorage rt js db) xs s" and ?m = "run_ops InMemoryJobsStorage xs m"
  have "answers (SQLiteJobsStorage rt js db) None ?s (sqlite_abs js tab ?s)" using q by (intro store(2)) simp_all
  moreover have "answers InMemoryJobsStorage None ?m (mem_abs ?m)" using m by (intro mem.reliable_answers) simp_all
  moreover have "mem_abs ?m = sqlite_abs js tab ?s" using q m assms(6) by simp
  ultimately show ?thesis using answers_same by metis
qed

text \<open>A database that was just created, and its storage.\<close>

definition empty_tables :: "blob tables" where
  "empty_tables = \<lparr>tb_jobs = [], tb_status = [], tb_history = [], tb_has_jobs = True, tb_has_status = True,
     tb_has_history = True, tb_has_finished = True\<rparr>"

definition fresh_sqlite :: "connection sqlite" where
  "fresh_sqlite = \<lparr>q_db = \<lparr>cn_tab = empty_tables, cn_saved = None\<rparr>, q_MaxAge = 0, q_MaxRowsPerJob = 0\<rparr>"

lemma fresh_ok:
  "sqlite_invar plain_codec (\<lambda>_. True) (\<lambda>_. True) cn_tab cn_saved fresh_sqlite" "no_retention fresh_sqlite"
  "sqlite_abs plain_codec cn_tab fresh_sqlite = mem_abs NewInMemoryJobsStorage"
  "all_contiguous (mem_abs NewInMemoryJobsStorage)"
  by (simp_all add: sqlite_invar_def fresh_sqlite_def empty_tables_def tables_ok_def base_ok_def no_retention_def
      sqlite_abs_def table_abs_def mem_abs_def NewInMemoryJobsStorage_def status_row_of_def all_contiguous_def)

theorem sqlite_memory_agree_witness:
  "same_answers (SQLiteJobsStorage chain_runtime plain_codec table_engine) InMemoryJobsStorage None
    (run_ops (SQLiteJobsStorage chain_runtime plain_codec table_engine) demo_ops fresh_sqlite)
    (run_ops InMemoryJobsStorage demo_ops NewInMemoryJobsStorage)"
  by (rule sqlite_memory_agree [OF table.sqlite_store_axioms fresh_ok(1) TrueI fresh_ok(2) mem_new(1) fresh_ok(3) [symmetric] fresh_ok(4)])
    (auto simp: demo_ops_def)

end
