(* ===== verification/Sqlite_Retention.thy ===== *)
theory Sqlite_Retention
  imports Sqlite_Engine
begin

text \<open>
  Pruning and opening. Pruning leaves, of every job, the last runs that are young enough, and
  reports how many rows went. Opening a database of any earlier version creates what is missing
  and keeps what is there.
\<close>

section \<open>The rows of a job\<close>

definition job_rows :: "'b tables \<Rightarrow> string \<Rightarrow> 'b history_row list" where
  "job_rows t jid = sort_key hr_sequence (filter (\<lambda>r. hr_id r = jid) (tb_history t))"

lemma filter_sorted_rank:
  fixes f :: "'a \<Rightarrow> int"
  assumes "sorted_wrt (<) (map f xs)"
  shows "filter (\<lambda>x. 1 + int (length (filter (\<lambda>y. f x < f y) xs)) \<le> n) xs = last_n (nat n) xs"
  using assms
proof (induction xs)
  case (Cons a xs)
  have gt: "f a < f x" if "x \<in> set xs" for x using Cons.prems that by simp
  then have "filter (\<lambda>y. f a < f y) xs = xs" by (simp add: filter_id_conv)
  moreover have "filter (\<lambda>x. 1 + int (length (filter (\<lambda>y. f x < f y) (a # xs))) \<le> n) xs =
      filter (\<lambda>x. 1 + int (length (filter (\<lambda>y. f x < f y) xs)) \<le> n) xs"
    using gt by (intro filter_cong refl) (auto dest: less_asym)
  moreover have "last_n (nat n) xs = xs" if "1 + int (length xs) \<le> n" using that by (simp add: last_n_all)
  ultimately show ?case using Cons by (simp add: last_n_def Suc_diff_le)
qed (simp add: last_n_def)

lemma job_rows_filter: "job_rows (with_history (filter K (tb_history t)) t) jid = filter K (job_rows t jid)"
  unfolding job_rows_def with_history_simps filter_sort [symmetric] by (simp add: conj_commute)

lemma job_rows_id: "r \<in> set (job_rows t jid) \<Longrightarrow> hr_id r = jid"
  by (simp add: job_rows_def)

lemma job_rows_sorted:
  assumes "distinct (map (\<lambda>h. (hr_id h, hr_sequence h)) (tb_history t))"
  shows "sorted_wrt (<) (map hr_sequence (job_rows t jid))"
  using distinct_filter_key [OF assms, of jid]
  by (simp add: job_rows_def strict_sorted_iff distinct_map)

lemma row_number_rank:
  assumes "hr_id r = jid"
  shows "row_number t r = 1 + int (length (filter (\<lambda>q. hr_sequence r < hr_sequence q) (job_rows t jid)))"
  using assms unfolding row_number_def job_rows_def filter_sort by (simp add: conj_commute)

text \<open>Deleting the rows with a number above \<open>n\<close> leaves the last \<open>n\<close> rows of each job.\<close>

lemma job_rows_numbered:
  assumes "distinct (map (\<lambda>h. (hr_id h, hr_sequence h)) (tb_history t))"
  shows "filter (\<lambda>r. row_number t r \<le> n) (job_rows t jid) = last_n (nat n) (job_rows t jid)"
proof -
  have "filter (\<lambda>r. row_number t r \<le> n) (job_rows t jid) =
      filter (\<lambda>r. 1 + int (length (filter (\<lambda>q. hr_sequence r < hr_sequence q) (job_rows t jid))) \<le> n) (job_rows t jid)"
    by (intro filter_cong refl) (simp add: row_number_rank job_rows_id)
  then show ?thesis using filter_sorted_rank [OF job_rows_sorted [OF assms]] by simp
qed

lemma filter_tables_ok:
  assumes "tables_ok js okid okpay t"
  shows "tables_ok js okid okpay (with_history (filter K (tb_history t)) t)"
  using assms base_ok_with [of js okid okpay t "filter K (tb_history t)"]
  by (auto simp: tables_ok_def base_ok_def distinct_map_filter_pairs)

lemma filter_split: "int (length (filter P xs)) = int (length xs) - int (length (filter (\<lambda>x. \<not> P x) xs))"
  using sum_length_filter_compl [of P xs] by simp

section \<open>Pruning\<close>

text \<open>What is left of the rows of a job, oldest first.\<close>

definition retained :: "instant \<Rightarrow> duration \<Rightarrow> int \<Rightarrow> 'b history_row list \<Rightarrow> 'b history_row list" where
  "retained now maxAge maxRows rows =
     (let young = (if maxAge > 0 then filter (\<lambda>r. \<not> too_old (now - maxAge) r) rows else rows)
      in if maxRows > 0 then last_n (nat maxRows) young else young)"

definition same_rest :: "'b tables \<Rightarrow> 'b tables \<Rightarrow> bool" where
  "same_rest t t' \<longleftrightarrow> tb_jobs t' = tb_jobs t \<and> tb_status t' = tb_status t"

definition pruned :: "instant \<Rightarrow> duration \<Rightarrow> int \<Rightarrow> 'b tables \<Rightarrow> 'b tables \<Rightarrow> int \<Rightarrow> bool" where
  "pruned now maxAge maxRows t t' n \<longleftrightarrow>
     same_rest t t' \<and> n = int (length (tb_history t)) - int (length (tb_history t')) \<and>
     (\<forall>jid. job_rows t' jid = retained now maxAge maxRows (job_rows t jid))"

context sqlite_store
begin

lemma prune_step:
  assumes "tables_ok js okid okpay t" and "sql_exec st t = Some (delete_history P t)"
    and "\<And>n t'. tables_ok js okid okpay t' \<Longrightarrow> t' = with_history (filter (\<lambda>r. \<not> P r) (tb_history t)) t \<Longrightarrow>
      n = int (length (tb_history t)) - int (length (tb_history t')) \<Longrightarrow> post n t'"
  shows "tx_at t c (tx_bind (tx_exec db c st msg) (\<lambda>res. tx_lift (rowsAffected res))) post"
proof (rule tx_rows_rule)
  let ?t' = "with_history (filter (\<lambda>r. \<not> P r) (tb_history t)) t"
  show "sql_exec st t = Some (int (length (filter P (tb_history t))), ?t')"
    using assms(2) by (simp add: delete_history_def with_history_def)
  show "post (int (length (filter P (tb_history t)))) ?t'"
    by (rule assms(3)) (simp_all add: filter_tables_ok assms(1) filter_split [of P "tb_history t"] del: of_nat_diff)
qed

lemma prune_rule:
  assumes ok: "tables_ok js okid okpay t"
  shows "tx_at t c (prune_tx db c now maxAge maxRows)
    (\<lambda>n t'. tables_ok js okid okpay t' \<and> pruned (now 0) maxAge maxRows t t' n)"
proof -
  let ?young = "\<lambda>rows. if maxAge > 0 then filter (\<lambda>r. \<not> too_old (now 0 - maxAge) r) rows else rows"
  define aged where "aged n t1 \<longleftrightarrow> tables_ok js okid okpay t1 \<and> same_rest t t1 \<and>
      n = int (length (tb_history t)) - int (length (tb_history t1)) \<and>
      (\<forall>jid. job_rows t1 jid = ?young (job_rows t jid))" for n t1
  have has: "tb_has_history t1 \<and> tb_has_finished t1" if "tables_ok js okid okpay t1" for t1
    using that by (simp add: tables_ok_def base_ok_def)
  have age: "tx_at t c (if maxAge > 0 then pruneHistoryOlderThanTx db c (now 0 - maxAge) else tx_return 0) aged"
  proof (cases "maxAge > 0")
    case True
    have "tx_at t c (pruneHistoryOlderThanTx db c (now 0 - maxAge)) aged"
      unfolding pruneHistoryOlderThanTx_def
      by (rule prune_step [OF ok, where P = "too_old (now 0 - maxAge)"])
        (use has [OF ok] True in \<open>simp_all add: aged_def same_rest_def job_rows_filter\<close>)
    with True show ?thesis by simp
  next
    case False
    with ok show ?thesis by (simp add: tx_return_rule aged_def same_rest_def)
  qed
  have rows: "tx_at t1 c (tx_bind (if maxRows > 0 then pruneHistoryMaxRowsPerJobTx db c maxRows else tx_return 0)
      (\<lambda>byRows. tx_return (byAge + byRows)))
      (\<lambda>n t'. tables_ok js okid okpay t' \<and> pruned (now 0) maxAge maxRows t t' n)" if a: "aged byAge t1" for byAge t1
  proof -
    define cut where "cut n t2 \<longleftrightarrow> tables_ok js okid okpay t2 \<and> same_rest t t2 \<and>
        n = int (length (tb_history t1)) - int (length (tb_history t2)) \<and>
        (\<forall>jid. job_rows t2 jid = (if maxRows > 0 then last_n (nat maxRows) (job_rows t1 jid) else job_rows t1 jid))" for n t2
    from a have ok1: "tables_ok js okid okpay t1" by (simp add: aged_def)
    from a have rest1: "same_rest t t1" by (simp add: aged_def)
    from ok1 have d1: "distinct (map (\<lambda>h. (hr_id h, hr_sequence h)) (tb_history t1))" by (simp add: tables_ok_def base_ok_def)
    have "tx_at t1 c (if maxRows > 0 then pruneHistoryMaxRowsPerJobTx db c maxRows else tx_return 0) cut"
    proof (cases "maxRows > 0")
      case True
      have "tx_at t1 c (pruneHistoryMaxRowsPerJobTx db c maxRows) cut"
        unfolding pruneHistoryMaxRowsPerJobTx_def
        by (rule prune_step [OF ok1, where P = "\<lambda>r. row_number t1 r > maxRows"])
          (use has [OF ok1] True rest1 in \<open>simp_all add: cut_def same_rest_def job_rows_filter not_less job_rows_numbered [OF d1]\<close>)
      with True show ?thesis by simp
    next
      case False
      with a show ?thesis by (simp add: tx_return_rule cut_def aged_def same_rest_def)
    qed
    then show ?thesis
    proof (rule tx_bind_rule, intro tx_return_rule)
      fix byRows t2
      assume "cut byRows t2"
      with a show "tables_ok js okid okpay t2 \<and> pruned (now 0) maxAge maxRows t t2 (byAge + byRows)"
        by (simp add: cut_def aged_def pruned_def retained_def Let_def)
    qed
  qed
  show ?thesis unfolding prune_tx_def by (rule tx_bind_rule [OF age]) (rule rows)
qed

lemma PruneHistoryWithRetention_ok:
  assumes "invar s" and "PruneHistoryWithRetention db c now maxAge maxRows s = (r, s')"
  shows "invar s' \<and> q_MaxAge s' = q_MaxAge s \<and> q_MaxRowsPerJob s' = q_MaxRowsPerJob s \<and>
    (case r of
       Inl e \<Rightarrow> storage_error e \<and> tab (q_db s') = tab (q_db s) \<and> \<not> reliable c s
     | Inr n \<Rightarrow> pruned (now 0) maxAge maxRows (tab (q_db s)) (tab (q_db s')) n)"
proof (cases "maxAge \<le> 0 \<and> maxRows \<le> 0")
  case True
  with assms show ?thesis
    by (auto simp: PruneHistoryWithRetention_def pruned_def retained_def same_rest_def)
next
  case False
  let ?m = "withWriteTx db c ''prune history'' (prune_tx db c now maxAge maxRows)"
  obtain d' where d': "?m (q_db s) = (r, d')" "s' = s\<lparr>q_db := d'\<rparr>"
    using assms(2) False by (auto simp: PruneHistoryWithRetention_def run_tx_def split: prod.splits)
  have inv: "saved (q_db s) = None" "tables_ok js okid okpay (tab (q_db s))"
    using assms(1) by (simp_all add: sqlite_invar_def)
  note w = withWriteTx_rule [OF prune_rule [OF inv(2)] inv(1) d'(1)]
  show ?thesis
    by (cases r) (use w inv d'(2) in \<open>auto simp: sqlite_invar_def sqlite_reliable_def\<close>)
qed

end

section \<open>Opening\<close>

text \<open>The tables a database is brought to: missing tables are empty, and a missing column is zero.\<close>

definition upgraded :: "'b tables \<Rightarrow> 'b tables" where
  "upgraded t = \<lparr>tb_jobs = (if tb_has_jobs t then tb_jobs t else []),
     tb_status = (if tb_has_status t then tb_status t else []),
     tb_history = (if \<not> tb_has_history t then []
                   else if tb_has_finished t then tb_history t
                   else map (\<lambda>r. r\<lparr>hr_finished_at := 0\<rparr>) (tb_history t)),
     tb_has_jobs = True, tb_has_status = True, tb_has_history = True, tb_has_finished = True\<rparr>"

text \<open>
  What already exists when the statements \<open>rest\<close> of \<open>bootstrap\<close> are still to come, and that the
  index and the new column come after the table they belong to.
\<close>

definition schema_at :: "'b statement list \<Rightarrow> 'b tables \<Rightarrow> bool" where
  "schema_at rest t \<longleftrightarrow>
     (CreateJobs \<in> set rest \<or> tb_has_jobs t) \<and> (CreateStatus \<in> set rest \<or> tb_has_status t) \<and>
     (CreateHistory \<in> set rest \<or> tb_has_history t) \<and>
     (AlterHistoryAddFinishedAt \<in> set rest \<or> tb_has_finished t)"

fun schema_statement :: "'b statement \<Rightarrow> bool" where
  "schema_statement (Pragma p) = True"
| "schema_statement CreateJobs = True"
| "schema_statement CreateStatus = True"
| "schema_statement CreateHistory = True"
| "schema_statement CreateHistoryIndex = True"
| "schema_statement AlterHistoryAddFinishedAt = True"
| "schema_statement st = False"

fun boot_order :: "'b statement list \<Rightarrow> bool" where
  "boot_order [] = True"
| "boot_order (st # rest) =
     (schema_statement st \<and> boot_order rest \<and>
      (st = CreateHistoryIndex \<or> st = AlterHistoryAddFinishedAt \<longrightarrow> CreateHistory \<notin> set rest))"

lemma upgraded_schema: "schema_at [] t \<Longrightarrow> upgraded t = t"
  by (cases t) (simp add: upgraded_def schema_at_def)

lemma boot_statement:
  assumes "schema_statement st" and "sql_exec st t = Some (n, t')"
  shows "upgraded t' = upgraded t" and "schema_at (st # rest) t \<Longrightarrow> schema_at rest t'"
proof -
  have t': "t' = snd (the (sql_exec st t))" and ne: "sql_exec st t \<noteq> None" using assms(2) by simp_all
  show "upgraded t' = upgraded t"
    unfolding t' using assms(1) ne by (cases st) (simp_all add: upgraded_def split: if_splits)
  show "schema_at rest t'" if "schema_at (st # rest) t"
    unfolding t' using assms(1) ne that by (cases st) (simp_all add: schema_at_def split: if_splits)
qed

lemma boot_possible:
  assumes "boot_order (st # rest)" and "schema_at (st # rest) t" and "st \<noteq> AlterHistoryAddFinishedAt"
  shows "sql_exec st t \<noteq> None"
  using assms by (cases st) (auto simp: schema_at_def)

lemma boot_alter:
  assumes "boot_order (AlterHistoryAddFinishedAt # rest)" and "schema_at (AlterHistoryAddFinishedAt # rest) t"
  shows "tb_has_history t \<and> (\<not> tb_has_finished t \<longrightarrow> sql_exec AlterHistoryAddFinishedAt t \<noteq> None) \<and>
    (tb_has_finished t \<longrightarrow> schema_at rest t)"
  using assms by (simp add: schema_at_def)

context sql_engine
begin

text \<open>
  The loop, on any engine: what exists stays, an interrupted upgrade can be completed later, and a
  healthy engine completes it.
\<close>

lemma boot_loop_ok:
  assumes "boot_order sts" and "schema_at sts (tab d)" and "saved d = None" and "boot_loop rt db c sts d = (r, d')"
  shows "saved d' = None \<and> upgraded (tab d') = upgraded (tab d) \<and> (r = None \<longrightarrow> schema_at [] (tab d')) \<and>
    (\<forall>e. r = Some e \<longrightarrow> storage_error e) \<and> (c = None \<longrightarrow> healthy d \<longrightarrow> r = None \<and> healthy d')"
  using assms
proof (induction sts arbitrary: d)
  case (Cons st sts)
  let ?alter = "AlterHistoryAddFinishedAt :: 'b statement"
  obtain x d1 where x: "db_Exec db c st d = (x, d1)" by fastforce
  show ?case
  proof (cases x)
    case (Inr n)
    then obtain m where m: "saved d1 = None" "sql_exec st (tab d) = Some (m, tab d1)"
      using exec_ok [of c st d n d1] x Cons.prems(3) by auto
    have up: "schema_at sts (tab d1)" "upgraded (tab d1) = upgraded (tab d)"
      using boot_statement(2) [OF _ m(2) Cons.prems(2)] boot_statement(1) [OF _ m(2)] Cons.prems(1) by simp_all
    have "boot_loop rt db c sts d1 = (r, d')" using Cons.prems(4) x Inr by simp
    from Cons.IH [OF _ up(1) m(1) this] Cons.prems(1) up(2) x exec_live [of st d x d1]
    show ?thesis by auto
  next
    case (Inl e)
    have d1: "saved d1 = None" "tab d1 = tab d" using exec_err [of c st d e d1] x Inl Cons.prems(3) by auto
    have live: "healthy d1 \<and> sql_exec st (tab d) = None" if "c = None" "healthy d"
      using exec_live [of st d x d1] x Inl that by (cases "sql_exec st (tab d) = None") simp_all
    show ?thesis
    proof (cases "st = ?alter \<and> isSQLiteDuplicateColumnError rt (Some e)")
      case True
      then have "tb_has_finished (tab d)"
        using duplicate_err [of c d e d1] boot_alter [of sts "tab d"] x Inl Cons.prems(1,2) by auto
      then have up: "schema_at sts (tab d1)" using boot_alter [of sts "tab d"] True Cons.prems(1,2) d1(2) by simp
      have "boot_loop rt db c sts d1 = (r, d')" using Cons.prems(4) x Inl True by simp
      from Cons.IH [OF _ up d1(1) this] Cons.prems(1) d1(2) live show ?thesis by auto
    next
      case False
      then have r: "r = Some (storage_failed ''sqlite init statement failed: %v'' e)" "d' = d1"
        using Cons.prems(4) x Inl by auto
      have "\<not> (c = None \<and> healthy d)"
      proof
        assume h: "c = None \<and> healthy d"
        with live have none: "sql_exec st (tab d) = None" by simp
        with boot_possible [OF Cons.prems(1,2)] have st: "st = ?alter" by blast
        with none boot_alter [of sts "tab d"] Cons.prems(1,2) have "tb_has_finished (tab d)" by metis
        with duplicate_column [of d e d1] x Inl h st False show False by simp
      qed
      with r d1 show ?thesis by (auto simp: storage_error_def storage_failed_def)
    qed
  qed
qed simp

lemma bootstrap_ok:
  assumes "saved (q_db s) = None" and "bootstrap rt db c s = (r, s')"
  shows "saved (q_db s') = None \<and> q_MaxAge s' = q_MaxAge s \<and> q_MaxRowsPerJob s' = q_MaxRowsPerJob s \<and>
    upgraded (tab (q_db s')) = upgraded (tab (q_db s)) \<and>
    (r = None \<longrightarrow> tab (q_db s') = upgraded (tab (q_db s))) \<and>
    (\<forall>e. r = Some e \<longrightarrow> storage_error e) \<and> (c = None \<longrightarrow> healthy (q_db s) \<longrightarrow> r = None \<and> healthy (q_db s'))"
proof -
  obtain d' where d': "boot_loop rt db c bootstrap_statements (q_db s) = (r, d')" "s' = s\<lparr>q_db := d'\<rparr>"
    using assms(2) by (auto simp: bootstrap_def split: prod.splits)
  have "boot_order (bootstrap_statements :: 'b statement list)" "schema_at bootstrap_statements (tab (q_db s))"
    by (simp_all add: bootstrap_statements_def schema_at_def)
  from boot_loop_ok [OF this assms(1) d'(1)] upgraded_schema [of "tab d'"] d'(2) show ?thesis by auto
qed

end

end
