(* ===== verification/Scheduler_Core.thy ===== *)
theory Scheduler_Core
  imports Jobs_Storage
begin

text \<open>
  \<open>pkg/scheduler/scheduler.go\<close> and \<open>options.go\<close>, the part that runs under the scheduler's mutex
  or without state: construction and recovery, normalization of jobs, \<open>Schedule\<close>, \<open>Remove\<close>,
  \<open>Stop\<close>, the queries, and the helpers of an execution. The definitions are polymorphic in the
  storage; they take its operations as a parameter. The loops of the jobs are in
  \<open>Scheduler_Run\<close>, one execution is in \<open>Scheduler_Execute\<close>.
\<close>

section \<open>The scheduler\<close>

text \<open>
  A URL validator (a type of another module) is a function of the context and the URL that gives an
  error or the normalized URL. A job entry is a pointer: its identity is \<open>je_ptr\<close>. The job
  contexts that the scheduler has cancelled, the goroutines it has started and its log entries are
  part of the state; \<open>s_nextPtr\<close> allocates entries. The HTTP client is known by its identity.
\<close>

type_synonym url_validator = "ctx \<Rightarrow> string \<Rightarrow> goerr + string"

record jobEntry =
  je_ptr :: nat
  je_job :: Job

datatype log_level = LevelDebug | LevelWarn

record 's Scheduler =
  s_jobs :: "(string \<times> jobEntry) list"
  s_jobsStorage :: 's
  s_historyLimit :: int
  s_client :: nat
  s_logger :: bool
  s_sem :: "int option"
  s_ctx :: ctx
  s_urlValidator :: "url_validator option"
  s_urlValidatorConfigured :: bool
  s_wg :: int
  s_counter :: "64 word"
  s_stopped :: bool
  s_canceled :: "nat set"
  s_spawned :: "jobEntry list"
  s_nextPtr :: nat
  s_log :: "(log_level \<times> string \<times> goerr) list"

section \<open>Options\<close>

type_synonym 's sched_option = "'s Scheduler \<Rightarrow> 's Scheduler"

definition WithHTTPClient :: "nat option \<Rightarrow> 's sched_option" where
  "WithHTTPClient client s = (case client of None \<Rightarrow> s | Some c \<Rightarrow> s\<lparr>s_client := c\<rparr>)"

definition sched_WithLogger :: "bool \<Rightarrow> 's sched_option" where
  "sched_WithLogger logger s = s\<lparr>s_logger := logger\<rparr>"

definition WithConcurrency :: "int \<Rightarrow> 's sched_option" where
  "WithConcurrency n s = (if n > 0 then s\<lparr>s_sem := Some n\<rparr> else s)"

definition WithHistoryLimit :: "int \<Rightarrow> 's sched_option" where
  "WithHistoryLimit limit s = (if limit > 0 then s\<lparr>s_historyLimit := limit\<rparr> else s)"

definition WithJobsStorage :: "'s option \<Rightarrow> 's sched_option" where
  "WithJobsStorage storage s = (case storage of None \<Rightarrow> s | Some st \<Rightarrow> s\<lparr>s_jobsStorage := st\<rparr>)"

definition WithURLValidator :: "url_validator option \<Rightarrow> 's sched_option" where
  "WithURLValidator validator s = s\<lparr>s_urlValidatorConfigured := True, s_urlValidator := validator\<rparr>"

section \<open>Logging\<close>

definition isNilError :: "goerr option \<Rightarrow> bool" where
  "isNilError err \<longleftrightarrow> err = None"

definition logError :: "runtime \<Rightarrow> string \<Rightarrow> goerr option \<Rightarrow> 's Scheduler \<Rightarrow> 's Scheduler" where
  "logError rt msg err s =
     (if \<not> s_logger s then s
      else if isNilError err then s
      else if errors_Is rt (the err) ctx_Canceled \<or> errors_Is rt (the err) ctx_DeadlineExceeded
      then s\<lparr>s_log := s_log s @ [(LevelDebug, msg, the err)]\<rparr>
      else s\<lparr>s_log := s_log s @ [(LevelWarn, msg, the err)]\<rparr>)"

definition logStorageWriteFailure ::
  "runtime \<Rightarrow> string \<Rightarrow> string \<Rightarrow> goerr \<Rightarrow> 's Scheduler \<Rightarrow> 's Scheduler" where
  "logStorageWriteFailure rt operation jid err s =
     logError rt ''scheduler storage write failed''
       (Some (Wrapf err ''operation=%s job_id=%s'' [FStr operation, FStr jid])) s"

text \<open>A storage write whose error is logged and dropped.\<close>

definition logged_write ::
  "runtime \<Rightarrow> string \<Rightarrow> string \<Rightarrow> ('s \<Rightarrow> goerr option \<times> 's) \<Rightarrow> 's Scheduler \<Rightarrow> 's Scheduler" where
  "logged_write rt operation jid wr s =
     (let (err, st) = wr (s_jobsStorage s);
          s1 = s\<lparr>s_jobsStorage := st\<rparr>
      in case err of None \<Rightarrow> s1 | Some e \<Rightarrow> logStorageWriteFailure rt operation jid e s1)"

definition dropped_delete :: "'s JobsStorage \<Rightarrow> ctx \<Rightarrow> string \<Rightarrow> 's Scheduler \<Rightarrow> 's Scheduler" where
  "dropped_delete ops c jid s = s\<lparr>s_jobsStorage := snd (Delete ops c jid (s_jobsStorage s))\<rparr>"

section \<open>Construction and recovery\<close>

text \<open>
  The loop of \<open>reconcileRecoveredState\<close>: jobs found scheduled or running are marked canceled, and
  all of them are deleted from the registered jobs.
\<close>

fun reconcile_ids ::
  "'s JobsStorage \<Rightarrow> ctx \<Rightarrow> clock \<Rightarrow> string list \<Rightarrow> 's Scheduler \<Rightarrow> goerr option \<times> 's Scheduler" where
  "reconcile_ids ops c now [] s = (None, s)"
| "reconcile_ids ops c now (jid # ids) s =
     (let (state, st1) = State ops c jid (s_jobsStorage s);
          s1 = s\<lparr>s_jobsStorage := st1\<rparr>;
          (err, s2) = (if state = Some JobStateScheduled \<or> state = Some JobStateRunning
                       then let (err, st2) = MarkTerminal ops c now jid JobStateCanceled st1
                            in (err, s1\<lparr>s_jobsStorage := st2\<rparr>)
                       else (None, s1))
      in case err of
           Some e \<Rightarrow> (Some (Wrapf ErrStorageOperation ''mark recovered job canceled failed: id=%s err=%v''
                              [FStr jid, FErr e]), s2)
         | None \<Rightarrow> reconcile_ids ops c now ids (dropped_delete ops c jid s2))"

definition reconcileRecoveredState ::
  "'s JobsStorage \<Rightarrow> ctx \<Rightarrow> clock \<Rightarrow> 's Scheduler \<Rightarrow> goerr option \<times> 's Scheduler" where
  "reconcileRecoveredState ops c now s =
     (let (ids, st) = IDs ops c (s_jobsStorage s)
      in reconcile_ids ops c now ids (s\<lparr>s_jobsStorage := st\<rparr>))"

text \<open>
  \<open>NewSchedulerWithError\<close>: \<open>st0\<close> is the storage before the options are applied (a new in-memory
  storage); \<open>default_validator\<close> is the result of the default validator's constructor.
\<close>

definition NewSchedulerWithError ::
  "'s JobsStorage \<Rightarrow> 's \<Rightarrow> goerr + url_validator \<Rightarrow> clock \<Rightarrow> ctx \<Rightarrow> 's sched_option list \<Rightarrow>
     's Scheduler \<times> goerr option" where
  "NewSchedulerWithError ops st0 default_validator now c opts =
     (let s0 = \<lparr>s_jobs = [], s_jobsStorage = st0, s_historyLimit = defaultHistoryLimit, s_client = 0,
                s_logger = True, s_sem = None, s_ctx = c, s_urlValidator = None,
                s_urlValidatorConfigured = False, s_wg = 0, s_counter = 0, s_stopped = False,
                s_canceled = {}, s_spawned = [], s_nextPtr = 0, s_log = []\<rparr>;
          s1 = fold (\<lambda>opt s. opt s) opts s0;
          (err, s2) = reconcileRecoveredState ops c now s1
      in case err of
           Some e \<Rightarrow> (s2, Some e)
         | None \<Rightarrow>
             if s_urlValidatorConfigured s2 then (s2, None)
             else case default_validator of
                    Inl e \<Rightarrow> (s2, Some (Errorf ''%w: %w'' [ErrURLValidatorInitialization, e]))
                  | Inr v \<Rightarrow> (s2\<lparr>s_urlValidator := Some v\<rparr>, None))"

definition NewScheduler ::
  "runtime \<Rightarrow> 's JobsStorage \<Rightarrow> 's \<Rightarrow> goerr + url_validator \<Rightarrow> clock \<Rightarrow> ctx \<Rightarrow> 's sched_option list \<Rightarrow>
     's Scheduler" where
  "NewScheduler rt ops st0 default_validator now c opts =
     (let (s, err) = NewSchedulerWithError ops st0 default_validator now c opts
      in case err of
           None \<Rightarrow> s
         | Some e \<Rightarrow>
             if \<not> s_logger s then s
             else if errors_Is rt e ErrURLValidatorInitialization
             then s\<lparr>s_log := s_log s @ [(LevelWarn,
                ''default URL validator initialization failed; URL validation disabled unless overridden'', e)]\<rparr>
             else s\<lparr>s_log := s_log s @ [(LevelWarn,
                ''scheduler initialization failed; state reconciliation skipped'', e)]\<rparr>)"

section \<open>Normalization of jobs\<close>

text \<open>
  \<open>strings.ToUpper\<close> as far as it decides which methods are supported: ASCII letters, and the two
  other characters whose upper case is an ASCII letter (the long s and the dotless i, in UTF-8).
  Go also maps other letters beyond ASCII; a method that has one is unsupported before and after.
\<close>

definition upper_char :: "char \<Rightarrow> char" where
  "upper_char c = (if 97 \<le> (of_char c :: nat) \<and> (of_char c :: nat) \<le> 122
                   then char_of ((of_char c :: nat) - 32) else c)"

fun str_ToUpper :: "string \<Rightarrow> string" where
  "str_ToUpper (c # d # cs) =
     (if (of_char c :: nat) = 197 \<and> (of_char d :: nat) = 191 then CHR ''S'' # str_ToUpper cs
      else if (of_char c :: nat) = 196 \<and> (of_char d :: nat) = 177 then CHR ''I'' # str_ToUpper cs
      else upper_char c # str_ToUpper (d # cs))"
| "str_ToUpper [c] = [upper_char c]"
| "str_ToUpper [] = []"

definition isSupportedMethod :: "string \<Rightarrow> bool" where
  "isSupportedMethod method \<longleftrightarrow> method = ''GET'' \<or> method = ''POST'' \<or> method = ''PUT''"

definition validateSchedule :: "Schedule \<Rightarrow> goerr option" where
  "validateSchedule schedule =
     (if sc_Every schedule \<le> 0 then Some (Wrap ErrInvalidJob ''schedule interval must be > 0'')
      else if sc_MaxRuns schedule < 0 then Some (Wrap ErrInvalidJob ''max runs must be >= 0'')
      else case (sc_EndAt schedule, sc_StartAt schedule) of
             (Some endAt, Some startAt) \<Rightarrow>
               if endAt < startAt then Some (Wrap ErrInvalidJob ''end time precedes start time'') else None
           | _ \<Rightarrow> None)"

definition normalizeRequest :: "'s Scheduler \<Rightarrow> Request \<Rightarrow> goerr + Request" where
  "normalizeRequest s request =
     (if rq_URL request = '''' then Inl (Wrap ErrInvalidJob ''request URL is required'')
      else
        let r1 = (if rq_Method request = '''' then request\<lparr>rq_Method := ''GET''\<rparr> else request);
            r2 = r1\<lparr>rq_Method := str_ToUpper (rq_Method r1)\<rparr>
        in if \<not> isSupportedMethod (rq_Method r2) then Inl (Wrap ErrUnsupportedMethod (rq_Method r2))
           else case s_urlValidator s of
                  None \<Rightarrow> Inr r2
                | Some v \<Rightarrow>
                    (case v (s_ctx s) (rq_URL r2) of
                       Inl err \<Rightarrow> Inl (Wrapf ErrInvalidJob ''request URL invalid: %v'' [FErr err])
                     | Inr url \<Rightarrow> Inr (r2\<lparr>rq_URL := url\<rparr>)))"

definition normalizeCallback :: "'s Scheduler \<Rightarrow> Callback \<Rightarrow> goerr + Callback" where
  "normalizeCallback s callback =
     (if cb_URL callback = '''' then Inr callback
      else
        let c1 = (if cb_Method callback = '''' then callback\<lparr>cb_Method := defaultCallbackMethod\<rparr>
                  else callback);
            c2 = c1\<lparr>cb_Method := str_ToUpper (cb_Method c1)\<rparr>;
            bounded = (\<lambda>c. if cb_MaxBodyBytes c \<le> 0
                           then c\<lparr>cb_MaxBodyBytes := defaultCallbackMaxBodySize\<rparr> else c)
        in if \<not> isSupportedMethod (cb_Method c2) then Inl (Wrap ErrUnsupportedMethod (cb_Method c2))
           else case s_urlValidator s of
                  None \<Rightarrow> Inr (bounded c2)
                | Some v \<Rightarrow>
                    (case v (s_ctx s) (cb_URL c2) of
                       Inl err \<Rightarrow> Inl (Wrapf ErrInvalidJob ''callback URL invalid: %v'' [FErr err])
                     | Inr url \<Rightarrow> Inr (bounded (c2\<lparr>cb_URL := url\<rparr>))))"

definition ensureRetrier :: "runtime \<Rightarrow> instant \<Rightarrow> ctx \<Rightarrow> Job \<Rightarrow> (goerr + Job) res" where
  "ensureRetrier rt now c job =
     (case rp_Retrier (j_RetryPolicy job) of
        Some r \<Rightarrow> Ret (Inr job)
      | None \<Rightarrow>
          res_bind (NewRetrier rt now c []) (\<lambda>(r, err).
            case err of
              Some e \<Rightarrow> Ret (Inl (Wrapf ErrInvalidJob ''failed to create retrier: %v'' [FErr e]))
            | None \<Rightarrow>
                (case Registry r of
                   None \<Rightarrow> nil_deref
                 | Some g \<Rightarrow> Ret (Inr (job\<lparr>j_RetryPolicy := (j_RetryPolicy job)\<lparr>
                     rp_Retrier := Some (r\<lparr>Registry := Some (LoadDefaults g)\<rparr>)\<rparr>\<rparr>)))))"

definition normalizeJob :: "runtime \<Rightarrow> instant \<Rightarrow> 's Scheduler \<Rightarrow> Job \<Rightarrow> (goerr + Job) res" where
  "normalizeJob rt now s job =
     (case validateSchedule (j_Schedule job) of
        Some err \<Rightarrow> Ret (Inl err)
      | None \<Rightarrow>
          (case normalizeRequest s (j_Request job) of
             Inl err \<Rightarrow> Ret (Inl err)
           | Inr request \<Rightarrow>
               (case normalizeCallback s (j_Callback job) of
                  Inl err \<Rightarrow> Ret (Inl err)
                | Inr callback \<Rightarrow>
                    ensureRetrier rt now (s_ctx s) (job\<lparr>j_Request := request, j_Callback := callback\<rparr>))))"

text \<open>\<open>fmt.Sprintf\<close> of a decimal number.\<close>

fun decimal :: "nat \<Rightarrow> string" where
  "decimal n = (if n < 10 then [char_of (48 + n)] else decimal (n div 10) @ [char_of (48 + n mod 10)])"

declare decimal.simps [simp del]

definition nextID :: "'s Scheduler \<Rightarrow> string \<times> 's Scheduler" where
  "nextID s = (let n = s_counter s + 1 in (''job-'' @ decimal (unat n), s\<lparr>s_counter := n\<rparr>))"

section \<open>Schedule, Remove and Stop\<close>

text \<open>
  \<open>Schedule\<close> under the mutex. The goroutine it starts is appended to \<open>s_spawned\<close>. The first
  clock reading is the one of the default retrier, the others go to the storage.
\<close>

definition Schedule_register ::
  "runtime \<Rightarrow> 's JobsStorage \<Rightarrow> ctx \<Rightarrow> clock \<Rightarrow> Job \<Rightarrow> 's Scheduler \<Rightarrow> (goerr + string) \<times> 's Scheduler" where
  "Schedule_register rt ops c now normalized s =
     (let jid = j_ID normalized;
          (err, st1) = Save ops c normalized (s_jobsStorage s);
          s1 = s\<lparr>s_jobsStorage := st1\<rparr>
      in case err of
           Some e \<Rightarrow>
             if errors_Is rt e errJobAlreadyExists
             then (Inl (Wrapf ErrInvalidJob ''job id already exists: %s'' [FStr jid]), s1)
             else (Inl (Wrapf ErrStorageOperation ''job storage save failed: %v'' [FErr e]), s1)
         | None \<Rightarrow>
             let (err2, st2) = UpsertStatus ops c now jid JobStateScheduled st1;
                 s2 = s1\<lparr>s_jobsStorage := st2\<rparr>
             in case err2 of
                  Some e \<Rightarrow>
                    (Inl (Wrapf ErrStorageOperation ''job status upsert failed: %v'' [FErr e]),
                     dropped_delete ops c jid s2)
                | None \<Rightarrow>
                    let entry = \<lparr>je_ptr = s_nextPtr s2, je_job = normalized\<rparr>
                    in (Inr jid, s2\<lparr>s_jobs := AList.update jid entry (s_jobs s2), s_wg := s_wg s2 + 1,
                                   s_spawned := s_spawned s2 @ [entry], s_nextPtr := Suc (s_nextPtr s2)\<rparr>))"

definition sched_Schedule ::
  "runtime \<Rightarrow> 's JobsStorage \<Rightarrow> ctx \<Rightarrow> instant \<Rightarrow> clock \<Rightarrow> Job \<Rightarrow> 's Scheduler \<Rightarrow>
     ((goerr + string) \<times> 's Scheduler) res" where
  "sched_Schedule rt ops c t now job s =
     (if s_stopped s then Ret (Inl ErrSchedulerStopped, s)
      else res_bind (normalizeJob rt t s job) (\<lambda>nj.
        case nj of
          Inl err \<Rightarrow> Ret (Inl err, s)
        | Inr normalized \<Rightarrow>
            let (normalized1, s1) =
                  (if j_ID normalized = ''''
                   then let (jid, s') = nextID s in (normalized\<lparr>j_ID := jid\<rparr>, s')
                   else (normalized, s))
            in case map_of (s_jobs s1) (j_ID normalized1) of
                 Some _ \<Rightarrow> Ret (Inl (Wrapf ErrInvalidJob ''job id already exists: %s''
                                       [FStr (j_ID normalized1)]), s1)
               | None \<Rightarrow> Ret (Schedule_register rt ops c now normalized1 s1)))"

definition sched_Remove ::
  "runtime \<Rightarrow> 's JobsStorage \<Rightarrow> ctx \<Rightarrow> clock \<Rightarrow> string \<Rightarrow> 's Scheduler \<Rightarrow> bool \<times> 's Scheduler" where
  "sched_Remove rt ops c now jid s =
     (case map_of (s_jobs s) jid of
        None \<Rightarrow> (False, s)
      | Some entry \<Rightarrow>
          let s1 = s\<lparr>s_canceled := insert (je_ptr entry) (s_canceled s), s_jobs := AList.delete jid (s_jobs s)\<rparr>;
              s2 = dropped_delete ops c jid s1
          in (True, logged_write rt ''mark removed'' jid (MarkRemoved ops c now jid) s2))"

text \<open>
  \<open>Stop\<close> up to its final wait for the goroutines, and the loop over the registered jobs in it. The
  scheduler's own context is cancelled as well.
\<close>

fun stop_jobs ::
  "runtime \<Rightarrow> 's JobsStorage \<Rightarrow> ctx \<Rightarrow> clock \<Rightarrow> (string \<times> jobEntry) list \<Rightarrow> 's Scheduler \<Rightarrow> 's Scheduler" where
  "stop_jobs rt ops c now [] s = s"
| "stop_jobs rt ops c now ((k, entry) # es) s =
     (let jid = j_ID (je_job entry);
          s1 = s\<lparr>s_canceled := insert (je_ptr entry) (s_canceled s)\<rparr>;
          s2 = dropped_delete ops c jid s1;
          s3 = logged_write rt ''mark stopped'' jid (MarkTerminal ops c now jid JobStateStopped) s2
      in stop_jobs rt ops c now es s3)"

definition sched_Stop ::
  "runtime \<Rightarrow> 's JobsStorage \<Rightarrow> ctx \<Rightarrow> clock \<Rightarrow> 's Scheduler \<Rightarrow> 's Scheduler" where
  "sched_Stop rt ops c now s =
     (if s_stopped s then s
      else
        let s1 = s\<lparr>s_stopped := True, s_ctx := (case s_ctx s of None \<Rightarrow> Some ctx_Canceled | Some e \<Rightarrow> Some e)\<rparr>;
            s2 = stop_jobs rt ops c now (s_jobs s1) s1
        in s2\<lparr>s_jobs := []\<rparr>)"

section \<open>Queries\<close>

definition JobCount :: "'s JobsStorage \<Rightarrow> ctx \<Rightarrow> 's Scheduler \<Rightarrow> int \<times> 's Scheduler" where
  "JobCount ops c s = (let (n, st) = Count ops c (s_jobsStorage s) in (n, s\<lparr>s_jobsStorage := st\<rparr>))"

definition JobIDs :: "'s JobsStorage \<Rightarrow> ctx \<Rightarrow> 's Scheduler \<Rightarrow> string list \<times> 's Scheduler" where
  "JobIDs ops c s = (let (xs, st) = IDs ops c (s_jobsStorage s) in (xs, s\<lparr>s_jobsStorage := st\<rparr>))"

definition sched_JobStatus ::
  "'s JobsStorage \<Rightarrow> ctx \<Rightarrow> string \<Rightarrow> 's Scheduler \<Rightarrow> JobStatus option \<times> 's Scheduler" where
  "sched_JobStatus ops c jid s =
     (let (x, st) = Status ops c jid (s_jobsStorage s) in (x, s\<lparr>s_jobsStorage := st\<rparr>))"

definition JobStatuses :: "'s JobsStorage \<Rightarrow> ctx \<Rightarrow> 's Scheduler \<Rightarrow> JobStatus list \<times> 's Scheduler" where
  "JobStatuses ops c s = (let (xs, st) = Statuses ops c (s_jobsStorage s) in (xs, s\<lparr>s_jobsStorage := st\<rparr>))"

definition JobHistory ::
  "'s JobsStorage \<Rightarrow> ctx \<Rightarrow> string \<Rightarrow> 's Scheduler \<Rightarrow> JobRun list option \<times> 's Scheduler" where
  "JobHistory ops c jid s = (let (h, st) = History ops c jid (s_jobsStorage s) in (h, s\<lparr>s_jobsStorage := st\<rparr>))"

text \<open>A filter is the list of its members; the nil filter is the empty one.\<close>

definition makeIDFilter :: "string list \<Rightarrow> string list" where
  "makeIDFilter ids = remdups ids"

definition makeStateFilter :: "JobState list \<Rightarrow> JobState list" where
  "makeStateFilter states = remdups states"

definition select_statuses :: "JobStatusQuery \<Rightarrow> JobStatus list \<Rightarrow> JobStatus list" where
  "select_statuses query statuses =
     (let idFilter = makeIDFilter (sq_IDs query);
          stateFilter = makeStateFilter (sq_States query)
      in filter (\<lambda>status. \<not> (length idFilter > 0 \<and> \<not> List.member idFilter (st_JobID status)) \<and>
                          \<not> (length stateFilter > 0 \<and> \<not> List.member stateFilter (st_State status)))
           statuses)"

text \<open>The upper bound never exceeds the length, so a slice panics exactly when it is below the offset.\<close>

definition page_statuses :: "JobStatusQuery \<Rightarrow> JobStatus list \<Rightarrow> JobStatus list res" where
  "page_statuses query filtered =
     (let offset = max (sq_Offset query) 0;
          len = int (length filtered)
      in if offset \<ge> len then Ret []
         else
           let stop = (if sq_Limit query > 0 \<and> wrap64 (offset + sq_Limit query) < len
                       then wrap64 (offset + sq_Limit query) else len)
           in go_slice filtered offset stop)"

definition QueryJobStatuses ::
  "'s JobsStorage \<Rightarrow> ctx \<Rightarrow> JobStatusQuery \<Rightarrow> 's Scheduler \<Rightarrow> JobStatus list res \<times> 's Scheduler" where
  "QueryJobStatuses ops c query s =
     (let (statuses, st) = Statuses ops c (s_jobsStorage s);
          s1 = s\<lparr>s_jobsStorage := st\<rparr>
      in if statuses = [] then (Ret [], s1)
         else (page_statuses query (select_statuses query statuses), s1))"

definition QueryJobHistory ::
  "'s JobsStorage \<Rightarrow> ctx \<Rightarrow> string \<Rightarrow> JobHistoryQuery \<Rightarrow> 's Scheduler \<Rightarrow>
     JobRun list option res \<times> 's Scheduler" where
  "QueryJobHistory ops c jid query s =
     (let (h, st) = History ops c jid (s_jobsStorage s);
          s1 = s\<lparr>s_jobsStorage := st\<rparr>
      in case h of
           None \<Rightarrow> (Ret None, s1)
         | Some history \<Rightarrow>
             let filtered = (if hq_FromSequence query > 0
                             then filter (\<lambda>run. jr_Sequence run \<ge> hq_FromSequence query) history
                             else history)
             in (if hq_Limit query > 0 \<and> int (length filtered) > hq_Limit query
                 then map_res Some (go_slice filtered (int (length filtered) - hq_Limit query) (int (length filtered)))
                 else Ret (Some filtered), s1))"

declare Schedule_register_def [scheduler_defs] sched_Schedule_def [scheduler_defs]
  sched_Remove_def [scheduler_defs] sched_Stop_def [scheduler_defs] logError_def [scheduler_defs]
  logStorageWriteFailure_def [scheduler_defs] logged_write_def [scheduler_defs]
  dropped_delete_def [scheduler_defs] normalizeJob_def [scheduler_defs]
  normalizeRequest_def [scheduler_defs] normalizeCallback_def [scheduler_defs]
  validateSchedule_def [scheduler_defs] nextID_def [scheduler_defs]
  isSupportedMethod_def [scheduler_defs] isNilError_def [scheduler_defs]

end
