(* ===== verification/Scheduler_Facts.thy ===== *)
theory Scheduler_Facts
  imports Scheduler_Core
begin

text \<open>
  What \<open>Schedule\<close>, \<open>Remove\<close>, \<open>Stop\<close> and recovery do, proved against the storage contract: the
  lemmas stand in the contract locales and hold for every storage that implements them.
\<close>

section \<open>Normalized jobs\<close>

text \<open>A job that \<open>normalizeJob\<close> returns.\<close>

definition job_normal :: "Job \<Rightarrow> bool" where
  "job_normal job \<longleftrightarrow>
     validateSchedule (j_Schedule job) = None \<and> isSupportedMethod (rq_Method (j_Request job)) \<and>
     (cb_URL (j_Callback job) \<noteq> '''' \<longrightarrow>
        isSupportedMethod (cb_Method (j_Callback job)) \<and> 0 < cb_MaxBodyBytes (j_Callback job)) \<and>
     rp_Retrier (j_RetryPolicy job) \<noteq> None"

text \<open>The errors \<open>Schedule\<close> reports for a bad job.\<close>

definition job_error :: "goerr \<Rightarrow> bool" where
  "job_error e \<longleftrightarrow> (\<exists>f as. e = Wrapf ErrInvalidJob f as) \<or> (\<exists>m. e = Wrap ErrUnsupportedMethod m)"

lemma default_retrier:
  "\<exists>r. NewRetrier rt now c [] = Ret (r, None) \<and> Registry r = Some NewRegistry"
  using NewTimerPool_Ret [of 6 now 20000000000]
  by (auto simp: NewRetrier_def retrier_defs wrap64_def Let_def)

lemma ensureRetrier_ok:
  "\<exists>job'. ensureRetrier rt now c job = Ret (Inr job') \<and> j_ID job' = j_ID job \<and>
     j_Schedule job' = j_Schedule job \<and> j_Request job' = j_Request job \<and>
     j_Callback job' = j_Callback job \<and> rp_Retrier (j_RetryPolicy job') \<noteq> None"
  using default_retrier [of rt now c]
  by (auto simp: ensureRetrier_def split: option.split)

lemma validateSchedule_error: "validateSchedule sc = Some e \<Longrightarrow> job_error e"
  by (auto simp: validateSchedule_def job_error_def split: if_splits option.splits)

lemma normalizeRequest_result:
  "case normalizeRequest s rq of
     Inl e \<Rightarrow> job_error e
   | Inr rq' \<Rightarrow> isSupportedMethod (rq_Method rq')"
  by (auto simp: normalizeRequest_def job_error_def Let_def split: option.splits sum.splits)

lemma normalizeCallback_result:
  "case normalizeCallback s cb of
     Inl e \<Rightarrow> job_error e
   | Inr cb' \<Rightarrow> cb_URL cb' = '''' \<or> isSupportedMethod (cb_Method cb') \<and> 0 < cb_MaxBodyBytes cb'"
  by (auto simp: normalizeCallback_def job_error_def Let_def defaultCallbackMaxBodySize_def
      split: option.splits sum.splits)

lemma normalizeJob_result:
  "\<exists>nj. normalizeJob rt now s job = Ret nj \<and>
     (case nj of Inl e \<Rightarrow> job_error e | Inr job' \<Rightarrow> job_normal job' \<and> j_ID job' = j_ID job)"
proof (cases "validateSchedule (j_Schedule job)")
  case None
  show ?thesis
  proof (cases "normalizeRequest s (j_Request job)")
    case (Inr rq)
    show ?thesis
    proof (cases "normalizeCallback s (j_Callback job)")
      case (Inr cb)
      from ensureRetrier_ok [of rt now "s_ctx s" "job\<lparr>j_Request := rq, j_Callback := cb\<rparr>"]
      obtain job' where j: "ensureRetrier rt now (s_ctx s) (job\<lparr>j_Request := rq, j_Callback := cb\<rparr>) =
          Ret (Inr job')" "j_ID job' = j_ID job" "j_Schedule job' = j_Schedule job"
          "j_Request job' = rq" "j_Callback job' = cb" "rp_Retrier (j_RetryPolicy job') \<noteq> None" by auto
      with None \<open>normalizeRequest s (j_Request job) = Inr rq\<close> Inr
        normalizeRequest_result [of s "j_Request job"] normalizeCallback_result [of s "j_Callback job"]
      show ?thesis by (auto simp: normalizeJob_def job_normal_def)
    qed (use None Inr normalizeCallback_result [of s "j_Callback job"] in \<open>auto simp: normalizeJob_def\<close>)
  qed (use None normalizeRequest_result [of s "j_Request job"] in \<open>auto simp: normalizeJob_def\<close>)
qed (use validateSchedule_error in \<open>auto simp: normalizeJob_def\<close>)

section \<open>Which jobs are accepted\<close>

text \<open>
  The conditions on a job, stated independently of the order and the form of the checks: a
  positive interval, a run limit that is not negative, an end that does not precede the start, a
  request URL, a supported method after defaulting and upper-casing, and URLs that the validator
  accepts, when there is one. A job without a callback URL has no further conditions.
\<close>

definition schedule_valid :: "Schedule \<Rightarrow> bool" where
  "schedule_valid sc \<longleftrightarrow> 0 < sc_Every sc \<and> 0 \<le> sc_MaxRuns sc \<and>
     (\<forall>from till. sc_StartAt sc = Some from \<and> sc_EndAt sc = Some till \<longrightarrow> from \<le> till)"

definition effective_method :: "string \<Rightarrow> string \<Rightarrow> string" where
  "effective_method dflt m = (if m = '''' then dflt else str_ToUpper m)"

definition supported :: "string \<Rightarrow> bool" where
  "supported m \<longleftrightarrow> m \<in> {''GET'', ''POST'', ''PUT''}"

definition url_accepted :: "'s Scheduler \<Rightarrow> string \<Rightarrow> string \<Rightarrow> bool" where
  "url_accepted s url url' \<longleftrightarrow>
     (case s_urlValidator s of None \<Rightarrow> url' = url | Some v \<Rightarrow> v (s_ctx s) url = Inr url')"

definition request_valid :: "'s Scheduler \<Rightarrow> Request \<Rightarrow> bool" where
  "request_valid s rq \<longleftrightarrow> rq_URL rq \<noteq> '''' \<and> supported (effective_method ''GET'' (rq_Method rq)) \<and>
     (\<exists>url. url_accepted s (rq_URL rq) url)"

definition callback_valid :: "'s Scheduler \<Rightarrow> Callback \<Rightarrow> bool" where
  "callback_valid s cb \<longleftrightarrow> cb_URL cb = '''' \<or>
     supported (effective_method ''POST'' (cb_Method cb)) \<and> (\<exists>url. url_accepted s (cb_URL cb) url)"

definition job_acceptable :: "'s Scheduler \<Rightarrow> Job \<Rightarrow> bool" where
  "job_acceptable s job \<longleftrightarrow>
     schedule_valid (j_Schedule job) \<and> request_valid s (j_Request job) \<and> callback_valid s (j_Callback job)"

text \<open>The first thing wrong with a job is a method that is not supported.\<close>

definition method_unsupported :: "'s Scheduler \<Rightarrow> Job \<Rightarrow> bool" where
  "method_unsupported s job \<longleftrightarrow>
     schedule_valid (j_Schedule job) \<and> rq_URL (j_Request job) \<noteq> '''' \<and>
     (\<not> supported (effective_method ''GET'' (rq_Method (j_Request job))) \<or>
      request_valid s (j_Request job) \<and> cb_URL (j_Callback job) \<noteq> '''' \<and>
      \<not> supported (effective_method ''POST'' (cb_Method (j_Callback job))))"

text \<open>
  The job that is stored and run: the request with its effective method and the URL the validator
  returned, the callback likewise and with its default body limit, and the retrier given, or else
  one made by \<open>NewRetrier\<close> without options and with the default temporary errors.
\<close>

definition request_normalized :: "'s Scheduler \<Rightarrow> Request \<Rightarrow> Request \<Rightarrow> bool" where
  "request_normalized s rq rq' \<longleftrightarrow>
     (\<exists>url. url_accepted s (rq_URL rq) url \<and>
        rq' = rq\<lparr>rq_Method := effective_method ''GET'' (rq_Method rq), rq_URL := url\<rparr>)"

definition callback_normalized :: "'s Scheduler \<Rightarrow> Callback \<Rightarrow> Callback \<Rightarrow> bool" where
  "callback_normalized s cb cb' \<longleftrightarrow>
     (if cb_URL cb = '''' then cb' = cb
      else \<exists>url. url_accepted s (cb_URL cb) url \<and>
        cb' = cb\<lparr>cb_Method := effective_method ''POST'' (cb_Method cb), cb_URL := url,
                 cb_MaxBodyBytes := (if cb_MaxBodyBytes cb \<le> 0 then 4096 else cb_MaxBodyBytes cb)\<rparr>)"

definition policy_completed :: "runtime \<Rightarrow> instant \<Rightarrow> 's Scheduler \<Rightarrow> RetryPolicy \<Rightarrow> RetryPolicy \<Rightarrow> bool" where
  "policy_completed rt t s rp rp' \<longleftrightarrow>
     (if rp_Retrier rp \<noteq> None then rp' = rp
      else \<exists>r. NewRetrier rt t (s_ctx s) [] = Ret (r, None) \<and>
        rp' = rp\<lparr>rp_Retrier := Some (r\<lparr>Registry := Some (LoadDefaults NewRegistry)\<rparr>)\<rparr>)"

definition job_normalized :: "runtime \<Rightarrow> instant \<Rightarrow> 's Scheduler \<Rightarrow> Job \<Rightarrow> Job \<Rightarrow> bool" where
  "job_normalized rt t s job job' \<longleftrightarrow>
     j_Schedule job' = j_Schedule job \<and> request_normalized s (j_Request job) (j_Request job') \<and>
     callback_normalized s (j_Callback job) (j_Callback job') \<and>
     policy_completed rt t s (j_RetryPolicy job) (j_RetryPolicy job')"

lemma upper_defaults: "str_ToUpper ''GET'' = ''GET''" "str_ToUpper ''POST'' = ''POST''"
  by code_simp+

lemma supported_iff: "isSupportedMethod m = supported m"
  by (simp add: isSupportedMethod_def supported_def)

lemma validateSchedule_iff: "validateSchedule sc = None \<longleftrightarrow> schedule_valid sc"
  by (auto simp: validateSchedule_def schedule_valid_def split: option.splits)

lemma validateSchedule_invalid: "validateSchedule sc = Some e \<Longrightarrow> \<exists>f as. e = Wrapf ErrInvalidJob f as"
  by (auto simp: validateSchedule_def split: if_splits option.splits)

lemma normalizeRequest_spec:
  "case normalizeRequest s rq of
     Inr rq' \<Rightarrow> request_valid s rq \<and> request_normalized s rq rq'
   | Inl e \<Rightarrow> \<not> request_valid s rq \<and>
       (if rq_URL rq \<noteq> '''' \<and> \<not> supported (effective_method ''GET'' (rq_Method rq))
        then e = Wrap ErrUnsupportedMethod (effective_method ''GET'' (rq_Method rq))
        else \<exists>f as. e = Wrapf ErrInvalidJob f as)"
proof -
  have m: "(if rq_Method rq = '''' then rq\<lparr>rq_Method := ''GET''\<rparr> else rq)\<lparr>rq_Method := str_ToUpper
      (rq_Method (if rq_Method rq = '''' then rq\<lparr>rq_Method := ''GET''\<rparr> else rq))\<rparr> =
      rq\<lparr>rq_Method := effective_method ''GET'' (rq_Method rq)\<rparr>"
    by (simp add: effective_method_def upper_defaults del: str_ToUpper.simps)
  show ?thesis
    unfolding normalizeRequest_def Let_def m
    by (auto simp: supported_iff request_valid_def request_normalized_def
        url_accepted_def split: option.splits sum.splits)
qed

lemma normalizeCallback_spec:
  "case normalizeCallback s cb of
     Inr cb' \<Rightarrow> callback_valid s cb \<and> callback_normalized s cb cb'
   | Inl e \<Rightarrow> \<not> callback_valid s cb \<and>
       (if cb_URL cb \<noteq> '''' \<and> \<not> supported (effective_method ''POST'' (cb_Method cb))
        then e = Wrap ErrUnsupportedMethod (effective_method ''POST'' (cb_Method cb))
        else \<exists>f as. e = Wrapf ErrInvalidJob f as)"
proof -
  have m: "(if cb_Method cb = '''' then cb\<lparr>cb_Method := defaultCallbackMethod\<rparr> else cb)\<lparr>cb_Method := str_ToUpper
      (cb_Method (if cb_Method cb = '''' then cb\<lparr>cb_Method := defaultCallbackMethod\<rparr> else cb))\<rparr> =
      cb\<lparr>cb_Method := effective_method ''POST'' (cb_Method cb)\<rparr>"
    by (simp add: effective_method_def upper_defaults defaultCallbackMethod_def del: str_ToUpper.simps)
  show ?thesis
    unfolding normalizeCallback_def Let_def m
    by (auto simp: supported_iff callback_valid_def callback_normalized_def
        url_accepted_def defaultCallbackMaxBodySize_def split: option.splits sum.splits)
qed

lemma ensureRetrier_spec:
  "\<exists>rp'. ensureRetrier rt t (s_ctx s) job = Ret (Inr (job\<lparr>j_RetryPolicy := rp'\<rparr>)) \<and>
     policy_completed rt t s (j_RetryPolicy job) rp'"
proof (cases "rp_Retrier (j_RetryPolicy job)")
  case (Some r)
  then show ?thesis by (intro exI [of _ "j_RetryPolicy job"]) (simp add: ensureRetrier_def policy_completed_def)
next
  case None
  obtain r where "NewRetrier rt t (s_ctx s) [] = Ret (r, None)" "Registry r = Some NewRegistry"
    using default_retrier by blast
  with None show ?thesis by (simp add: ensureRetrier_def policy_completed_def)
qed

lemma normalizeJob_spec:
  "\<exists>nj. normalizeJob rt t s job = Ret nj \<and>
     (case nj of
        Inr job' \<Rightarrow> job_acceptable s job \<and> job_normalized rt t s job job' \<and> j_ID job' = j_ID job
      | Inl e \<Rightarrow> \<not> job_acceptable s job \<and>
          (if method_unsupported s job then \<exists>m. e = Wrap ErrUnsupportedMethod m
           else \<exists>f as. e = Wrapf ErrInvalidJob f as))"
proof (cases "validateSchedule (j_Schedule job)")
  case (Some e)
  with validateSchedule_iff [of "j_Schedule job"] validateSchedule_invalid [OF Some] show ?thesis
    by (auto simp: normalizeJob_def job_acceptable_def method_unsupported_def)
next
  case None
  then have v: "schedule_valid (j_Schedule job)" by (simp add: validateSchedule_iff)
  note rs = normalizeRequest_spec [of s "j_Request job"]
  show ?thesis
  proof (cases "normalizeRequest s (j_Request job)")
    case (Inl e)
    with None v rs show ?thesis
      by (auto simp: normalizeJob_def job_acceptable_def method_unsupported_def split: if_splits)
  next
    case (Inr rq)
    note cs = normalizeCallback_spec [of s "j_Callback job"]
    show ?thesis
    proof (cases "normalizeCallback s (j_Callback job)")
      case (Inl e)
      with None v rs cs Inr show ?thesis
        by (auto simp: normalizeJob_def job_acceptable_def method_unsupported_def request_valid_def
            split: if_splits)
    next
      case cb: (Inr cb)
      from ensureRetrier_spec [of rt t s "job\<lparr>j_Request := rq, j_Callback := cb\<rparr>"] None v rs cs Inr cb
      show ?thesis by (auto simp: normalizeJob_def job_acceptable_def job_normalized_def)
    qed
  qed
qed

section \<open>The scheduler invariant\<close>

text \<open>
  The registered jobs are those of the storage, each under its own identifier and with a status;
  their entries are distinct allocated pointers.
\<close>

definition sched_ok :: "('s \<Rightarrow> astore) \<Rightarrow> ('s \<Rightarrow> bool) \<Rightarrow> 's Scheduler \<Rightarrow> bool" where
  "sched_ok ab ok s \<longleftrightarrow>
     ok (s_jobsStorage s) \<and> distinct (map fst (s_jobs s)) \<and>
     list_all (\<lambda>(k, e). j_ID (je_job e) = k) (s_jobs s) \<and>
     dom (map_of (s_jobs s)) = as_jobs (ab (s_jobsStorage s)) \<and>
     as_jobs (ab (s_jobsStorage s)) \<subseteq> dom (as_status (ab (s_jobsStorage s))) \<and>
     (s_stopped s \<longrightarrow> s_jobs s = [])"

lemma log_frame [simp]:
  "s_jobsStorage (logError rt m e s) = s_jobsStorage s" "s_jobs (logError rt m e s) = s_jobs s"
  "s_stopped (logError rt m e s) = s_stopped s" "s_canceled (logError rt m e s) = s_canceled s"
  "s_spawned (logError rt m e s) = s_spawned s" "s_wg (logError rt m e s) = s_wg s"
  by (simp_all add: logError_def)

lemma logged_write_eq:
  "s_jobsStorage (logged_write rt o1 jid w s) = snd (w (s_jobsStorage s))"
  "s_jobs (logged_write rt o1 jid w s) = s_jobs s"
  "s_stopped (logged_write rt o1 jid w s) = s_stopped s"
  "s_canceled (logged_write rt o1 jid w s) = s_canceled s"
  "s_spawned (logged_write rt o1 jid w s) = s_spawned s"
  "s_wg (logged_write rt o1 jid w s) = s_wg s"
  by (auto simp: logged_write_def logStorageWriteFailure_def Let_def split: prod.split option.split)

lemma update_rel_jobs: "update_rel R jid a a' \<Longrightarrow> as_jobs a' = as_jobs a \<and> dom (as_status a') = dom (as_status a)"
  by (auto elim!: update_rel.cases split: if_splits)

lemma upsert_rel_jobs:
  "upsert_rel now jid st a a' \<Longrightarrow> as_jobs a' = as_jobs a \<and> dom (as_status a') = insert jid (dom (as_status a)) \<and>
     (\<exists>e. as_status a' jid = Some e \<and> st_State (e_status e) = st)"
  by (auto simp: upsert_entry_def elim!: upsert_rel.cases split: if_splits)

lemma list_all_AList_delete: "list_all P al \<Longrightarrow> list_all P (AList.delete k al)"
  by (induction al) auto

text \<open>One job in the loop of \<open>Stop\<close>: it is deleted, cancelled and terminal afterwards.\<close>

definition stop_one ::
  "runtime \<Rightarrow> 's JobsStorage \<Rightarrow> ctx \<Rightarrow> clock \<Rightarrow> jobEntry \<Rightarrow> 's Scheduler \<Rightarrow> 's Scheduler" where
  "stop_one rt ops c now entry s =
     logged_write rt ''mark stopped'' (j_ID (je_job entry))
       (MarkTerminal ops c now (j_ID (je_job entry)) JobStateStopped)
       (dropped_delete ops c (j_ID (je_job entry))
          (s\<lparr>s_canceled := insert (je_ptr entry) (s_canceled s)\<rparr>))"

lemma stop_jobs_Cons:
  "stop_jobs rt ops c now ((k, entry) # es) s = stop_jobs rt ops c now es (stop_one rt ops c now entry s)"
  by (simp add: stop_one_def Let_def)

lemma stop_jobs_frame:
  "s_jobs (stop_jobs rt ops c now es s) = s_jobs s \<and>
   s_stopped (stop_jobs rt ops c now es s) = s_stopped s \<and>
   s_canceled (stop_jobs rt ops c now es s) = s_canceled s \<union> set (map (\<lambda>ke. je_ptr (snd ke)) es)"
proof (induction es arbitrary: s)
  case (Cons ke es)
  obtain k e where ke: "ke = (k, e)" by fastforce
  from Cons.IH [of "stop_one rt ops c now e s"] show ?case
    unfolding ke stop_jobs_Cons by (simp add: stop_one_def logged_write_eq dropped_delete_def)
qed simp

context reliable_jobs_store
begin

text \<open>\<open>Schedule\<close> past its checks: it registers the job, or reports that the identifier is taken.\<close>

lemma Schedule_register_ok:
  assumes "sched_ok abs invar s" and "reliable c (s_jobsStorage s)" and "error_matching rt"
    and "okid (j_ID job)" and "map_of (s_jobs s) (j_ID job) = None" and "\<not> s_stopped s"
  shows "\<exists>s'. Schedule_register rt ops c now job s = (Inr (j_ID job), s') \<and>
    sched_ok abs invar s' \<and> reliable c (s_jobsStorage s') \<and>
    as_jobs (abs (s_jobsStorage s')) = insert (j_ID job) (as_jobs (abs (s_jobsStorage s))) \<and>
    (\<exists>e. as_status (abs (s_jobsStorage s')) (j_ID job) = Some e \<and> st_State (e_status e) = JobStateScheduled) \<and>
    s_jobs s' = AList.update (j_ID job) \<lparr>je_ptr = s_nextPtr s, je_job = job\<rparr> (s_jobs s) \<and>
    s_spawned s' = s_spawned s @ [\<lparr>je_ptr = s_nextPtr s, je_job = job\<rparr>] \<and>
    s_wg s' = s_wg s + 1 \<and> s_nextPtr s' = Suc (s_nextPtr s) \<and> s_canceled s' = s_canceled s \<and>
    (\<forall>i. i \<noteq> j_ID job \<longrightarrow> as_status (abs (s_jobsStorage s')) i = as_status (abs (s_jobsStorage s)) i)"
proof -
  let ?st = "s_jobsStorage s" and ?j = "j_ID job"
  have inv: "invar ?st" and nj: "?j \<notin> as_jobs (abs ?st)"
    using assms(1,5) by (auto simp: sched_ok_def)
  obtain e1 st1 where sv: "Save ops c job ?st = (e1, st1)" by fastforce
  from rel_save [OF inv assms(2) sv] nj have e1: "e1 = None" and rel1: "reliable c st1" by auto
  from save [OF inv sv] e1 have st1: "invar st1" "as_jobs (abs st1) = insert ?j (as_jobs (abs ?st))"
    "as_status (abs st1) = as_status (abs ?st)" by auto
  obtain e2 st2 where up: "UpsertStatus ops c now ?j JobStateScheduled st1 = (e2, st2)" by fastforce
  from rel_upsert [OF st1(1) rel1 assms(4) _ up] have e2: "e2 = None" and rel2: "reliable c st2" by auto
  from upsert [OF st1(1) assms(4) _ up] e2 have inv2: "invar st2"
    and u: "upsert_rel now ?j JobStateScheduled (abs st1) (abs st2)" by auto
  note ur = upsert_rel_jobs [OF u]
  have frame: "as_status (abs st2) i = as_status (abs ?st) i" if "i \<noteq> ?j" for i
    using u st1(3) that by (auto simp: set_entry_def elim!: upsert_rel.cases)
  let ?e = "\<lparr>je_ptr = s_nextPtr s, je_job = job\<rparr>"
  let ?s' = "s\<lparr>s_jobsStorage := st2, s_jobs := AList.update ?j ?e (s_jobs s), s_wg := s_wg s + 1,
      s_spawned := s_spawned s @ [?e], s_nextPtr := Suc (s_nextPtr s)\<rparr>"
  have "Schedule_register rt ops c now job s = (Inr ?j, ?s')"
    using sv e1 up e2 by (simp add: Schedule_register_def Let_def)
  moreover have "sched_ok abs invar ?s'"
    using assms(1,6) inv2 ur st1
    by (auto simp: sched_ok_def distinct_update list_all_AList_update)
  ultimately show ?thesis using ur st1 rel2 frame by auto
qed

text \<open>\<open>Remove\<close> unregisters the job, cancels its context and marks its status removed.\<close>

lemma Remove_ok:
  assumes "sched_ok abs invar s" and "reliable c (s_jobsStorage s)"
    and "sched_Remove rt ops c now jid s = (b, s')"
  shows "sched_ok abs invar s' \<and> reliable c (s_jobsStorage s') \<and> b = (jid \<in> as_jobs (abs (s_jobsStorage s))) \<and>
    map_of (s_jobs s') = (map_of (s_jobs s))(jid := None) \<and> (\<not> b \<longrightarrow> s' = s) \<and>
    (b \<longrightarrow> is_terminal jid JobStateRemoved (abs (s_jobsStorage s')) \<and>
          as_jobs (abs (s_jobsStorage s')) = as_jobs (abs (s_jobsStorage s)) - {jid} \<and>
          (\<forall>i. i \<noteq> jid \<longrightarrow> as_status (abs (s_jobsStorage s')) i = as_status (abs (s_jobsStorage s)) i) \<and>
          (\<exists>e. map_of (s_jobs s) jid = Some e \<and> s_canceled s' = insert (je_ptr e) (s_canceled s)) \<and>
          s_stopped s' = s_stopped s \<and> s_spawned s' = s_spawned s \<and> s_wg s' = s_wg s)"
proof (cases "map_of (s_jobs s) jid")
  case None
  then have "jid \<notin> as_jobs (abs (s_jobsStorage s))" using assms(1) by (auto simp: sched_ok_def)
  with None assms show ?thesis by (auto simp: sched_Remove_def fun_upd_idem)
next
  case (Some entry)
  let ?st = "s_jobsStorage s"
  have inv: "invar ?st" and j: "jid \<in> as_jobs (abs ?st)" using assms(1) Some by (auto simp: sched_ok_def)
  obtain b1 st1 where d: "Delete ops c jid ?st = (b1, st1)" by fastforce
  from rel_delete [OF inv assms(2) d] delete [OF inv d]
  have st1: "reliable c st1" "invar st1" "as_jobs (abs st1) = as_jobs (abs ?st) - {jid}"
    "as_status (abs st1) = as_status (abs ?st)" by auto
  obtain e2 st2 where r: "MarkRemoved ops c now jid st1 = (e2, st2)" by fastforce
  from rel_removed [OF st1(2,1) r] removed [OF st1(2) r]
  have st2: "reliable c st2" "invar st2" "update_rel (removed_rel now) jid (abs st1) (abs st2)" by auto
  obtain e where e: "as_status (abs st1) jid = Some e" using j st1(4) assms(1) by (auto simp: sched_ok_def)
  have trm: "is_terminal jid JobStateRemoved (abs st2)"
    using st2(3) e by (auto simp: is_terminal_def removed_rel_def terminal_entry_def elim!: update_rel.cases)
  from assms(3) Some d r have s': "b" "s_jobsStorage s' = st2" "s_jobs s' = AList.delete jid (s_jobs s)"
    "s_canceled s' = insert (je_ptr entry) (s_canceled s)" "s_stopped s' = s_stopped s"
    "s_spawned s' = s_spawned s" "s_wg s' = s_wg s"
    by (auto simp: sched_Remove_def logged_write_eq dropped_delete_def)
  have frame: "as_status (abs st2) i = as_status (abs ?st) i" if "i \<noteq> jid" for i
    using st2(3) st1(4) that by (auto simp: set_entry_def elim!: update_rel.cases)
  have "sched_ok abs invar s'"
    using assms(1) s' st1 st2 update_rel_jobs [OF st2(3)]
    by (auto simp: sched_ok_def distinct_delete list_all_AList_delete)
  with s' st1(3) st2 j trm frame Some update_rel_jobs [OF st2(3)] show ?thesis by auto
qed

lemma stop_one_ok:
  fixes rt now e
  assumes "invar (s_jobsStorage s)" and "reliable c (s_jobsStorage s)"
  defines "a \<equiv> abs (s_jobsStorage s)"
    and "a' \<equiv> abs (s_jobsStorage (stop_one rt ops c now e s))"
    and "k \<equiv> j_ID (je_job e)"
  shows "invar (s_jobsStorage (stop_one rt ops c now e s))"
    and "reliable c (s_jobsStorage (stop_one rt ops c now e s))"
    and "as_jobs a' = as_jobs a - {k}" and "dom (as_status a') = dom (as_status a)"
    and "is_terminal jid st a \<Longrightarrow> is_terminal jid st a'"
    and "k \<in> dom (as_status a) \<Longrightarrow> \<exists>st. is_terminal k st a'"
proof -
  let ?st = "s_jobsStorage s"
  obtain b1 st1 where d: "Delete ops c k ?st = (b1, st1)" by fastforce
  from rel_delete [OF assms(1,2) d] delete [OF assms(1) d]
  have st1: "reliable c st1" "invar st1" "as_jobs (abs st1) = as_jobs (abs ?st) - {k}"
    "as_status (abs st1) = as_status (abs ?st)" by auto
  obtain e2 st2 where r: "MarkTerminal ops c now k JobStateStopped st1 = (e2, st2)" by fastforce
  from rel_terminal [OF st1(2,1) _ r] terminal [OF st1(2) _ r]
  have st2: "reliable c st2" "invar st2" "update_rel (terminal_rel now JobStateStopped) k (abs st1) (abs st2)"
    by auto
  have one: "s_jobsStorage (stop_one rt ops c now e s) = st2"
    using d r by (simp add: stop_one_def logged_write_eq dropped_delete_def k_def)
  show "invar (s_jobsStorage (stop_one rt ops c now e s))"
    "reliable c (s_jobsStorage (stop_one rt ops c now e s))" using st2 one by auto
  show "as_jobs a' = as_jobs a - {k}" "dom (as_status a') = dom (as_status a)"
    using update_rel_jobs [OF st2(3)] st1 one by (auto simp: a_def a'_def)
  show "is_terminal jid st a \<Longrightarrow> is_terminal jid st a'"
    using op_rel_terminal [of "OTerminal c now k JobStateStopped" "abs st1" "abs st2" jid st] st2(3) st1(4) one
    by (simp add: is_terminal_def a_def a'_def)
  show "k \<in> dom (as_status a) \<Longrightarrow> \<exists>st. is_terminal k st a'"
    using st2(3) st1(4) one
    by (auto simp: is_terminal_def terminal_rel_def terminal_entry_def a_def a'_def
        elim!: update_rel.cases split: if_splits)
qed

lemma stop_jobs_ok:
  assumes "invar (s_jobsStorage s)" and "reliable c (s_jobsStorage s)"
    and "list_all (\<lambda>(k, e). j_ID (je_job e) = k) es"
  shows "invar (s_jobsStorage (stop_jobs rt ops c now es s)) \<and>
    as_jobs (abs (s_jobsStorage (stop_jobs rt ops c now es s))) = as_jobs (abs (s_jobsStorage s)) - fst ` set es \<and>
    dom (as_status (abs (s_jobsStorage (stop_jobs rt ops c now es s)))) = dom (as_status (abs (s_jobsStorage s)))"
  using assms
proof (induction es arbitrary: s)
  case (Cons ke es)
  obtain k e where ke: "ke = (k, e)" by fastforce
  note one = stop_one_ok [where rt = rt and now = now and e = e, OF Cons.prems(1,2)]
  have "list_all (\<lambda>(k, e). j_ID (je_job e) = k) es" "j_ID (je_job e) = k" using Cons.prems(3) ke by auto
  with Cons.IH [OF one(1,2)] one(3,4) show ?case unfolding ke stop_jobs_Cons by auto
qed simp

lemma stop_jobs_terminal:
  assumes "invar (s_jobsStorage s)" and "reliable c (s_jobsStorage s)"
    and "list_all (\<lambda>(k, e). j_ID (je_job e) = k) es"
    and "(\<exists>st. is_terminal jid st (abs (s_jobsStorage s))) \<or>
         jid \<in> fst ` set es \<and> jid \<in> dom (as_status (abs (s_jobsStorage s)))"
  shows "\<exists>st. is_terminal jid st (abs (s_jobsStorage (stop_jobs rt ops c now es s)))"
  using assms
proof (induction es arbitrary: s)
  case (Cons ke es)
  obtain k e where ke: "ke = (k, e)" by fastforce
  note one = stop_one_ok [where rt = rt and now = now and e = e, OF Cons.prems(1,2)]
  have es: "list_all (\<lambda>(k, e). j_ID (je_job e) = k) es" "j_ID (je_job e) = k" using Cons.prems(3) ke by auto
  have "(\<exists>st. is_terminal jid st (abs (s_jobsStorage (stop_one rt ops c now e s)))) \<or>
      jid \<in> fst ` set es \<and> jid \<in> dom (as_status (abs (s_jobsStorage (stop_one rt ops c now e s))))"
    using Cons.prems(4) one(4,6) es(2) ke one(5) [where jid = jid]
    by (metis fst_conv image_insert insert_iff list.simps(15))
  from Cons.IH [OF one(1,2) es(1) this] show ?case unfolding ke stop_jobs_Cons .
qed auto

lemma Stop_ok:
  assumes "sched_ok abs invar s" and "reliable c (s_jobsStorage s)"
  shows "sched_ok abs invar (sched_Stop rt ops c now s) \<and> s_stopped (sched_Stop rt ops c now s) \<and>
    as_jobs (abs (s_jobsStorage (sched_Stop rt ops c now s))) = {} \<and>
    set (map (\<lambda>ke. je_ptr (snd ke)) (s_jobs s)) \<subseteq> s_canceled (sched_Stop rt ops c now s) \<and>
    (\<forall>jid \<in> as_jobs (abs (s_jobsStorage s)).
       \<exists>st. is_terminal jid st (abs (s_jobsStorage (sched_Stop rt ops c now s)))) \<and>
    sched_Stop rt ops c now' (sched_Stop rt ops c now s) = sched_Stop rt ops c now s"
proof (cases "s_stopped s")
  case True
  with assms show ?thesis by (auto simp: sched_Stop_def sched_ok_def)
next
  case False
  define s1 where "s1 = s\<lparr>s_stopped := True,
      s_ctx := (case s_ctx s of None \<Rightarrow> Some ctx_Canceled | Some e \<Rightarrow> Some e)\<rparr>"
  have a: "invar (s_jobsStorage s1)" "reliable c (s_jobsStorage s1)"
    "list_all (\<lambda>(k, e). j_ID (je_job e) = k) (s_jobs s1)"
    using assms by (auto simp: s1_def sched_ok_def)
  have keys: "fst ` set (s_jobs s) = as_jobs (abs (s_jobsStorage s))"
    using assms(1) by (simp add: sched_ok_def dom_map_of_conv_image_fst)
  have st: "sched_Stop rt ops c now s = (stop_jobs rt ops c now (s_jobs s1) s1)\<lparr>s_jobs := []\<rparr>"
    using False by (simp add: sched_Stop_def s1_def Let_def)
  have "\<exists>st. is_terminal jid st (abs (s_jobsStorage (stop_jobs rt ops c now (s_jobs s1) s1)))"
    if "jid \<in> as_jobs (abs (s_jobsStorage s))" for jid
    by (rule stop_jobs_terminal [OF a]) (use that keys assms(1) in \<open>auto simp: s1_def sched_ok_def\<close>)
  with stop_jobs_ok [OF a, of rt now] stop_jobs_frame [of rt ops c now "s_jobs s1" s1] keys assms(1)
  show ?thesis unfolding st by (auto simp: s1_def sched_ok_def sched_Stop_def)
qed

end

section \<open>Recovery\<close>

text \<open>One recovered job: the status it has afterwards.\<close>

definition recovered :: "string \<Rightarrow> astore \<Rightarrow> astore \<Rightarrow> bool" where
  "recovered jid a a' \<longleftrightarrow>
     (\<forall>e. as_status a jid = Some e \<longrightarrow>
        (\<not> e_terminal e \<and> st_State (e_status e) \<in> {JobStateScheduled, JobStateRunning} \<longrightarrow>
           is_terminal jid JobStateCanceled a'))"

definition recover_one :: "'s JobsStorage \<Rightarrow> ctx \<Rightarrow> clock \<Rightarrow> string \<Rightarrow> 's \<Rightarrow> goerr option \<times> 's" where
  "recover_one ops c now jid st =
     (let (state, st1) = State ops c jid st;
          (err, st2) = (if state = Some JobStateScheduled \<or> state = Some JobStateRunning
                        then MarkTerminal ops c now jid JobStateCanceled st1 else (None, st1))
      in case err of None \<Rightarrow> (None, snd (Delete ops c jid st2)) | Some e \<Rightarrow> (Some e, st2))"

lemma reconcile_Cons:
  "reconcile_ids ops c now (jid # ids) s =
     (case recover_one ops c now jid (s_jobsStorage s) of
        (Some e, st) \<Rightarrow> (Some (Wrapf ErrStorageOperation
            ''mark recovered job canceled failed: id=%s err=%v'' [FStr jid, FErr e]), s\<lparr>s_jobsStorage := st\<rparr>)
      | (None, st) \<Rightarrow> reconcile_ids ops c now ids (s\<lparr>s_jobsStorage := st\<rparr>))"
  by (auto simp: recover_one_def dropped_delete_def Let_def split: prod.split option.split)

context reliable_jobs_store
begin

lemma recover_one_ok:
  assumes "invar st" and "reliable c st"
  shows "\<exists>st'. recover_one ops c now jid st = (None, st') \<and> invar st' \<and> reliable c st' \<and>
    as_jobs (abs st') = as_jobs (abs st) - {jid} \<and> recovered jid (abs st) (abs st') \<and>
    (\<forall>i. i \<noteq> jid \<longrightarrow> as_status (abs st') i = as_status (abs st) i) \<and>
    (\<forall>i x. is_terminal i x (abs st) \<longrightarrow> is_terminal i x (abs st'))"
proof -
  obtain x st1 where x: "State ops c jid st = (x, st1)" by fastforce
  from rel_state [OF assms x] state [OF assms(1) x] have
    st1: "reliable c st1" "invar st1" "abs st1 = abs st"
      "x = map_option (\<lambda>e. st_State (e_status e)) (as_status (abs st) jid)" by auto
  define b where "b \<longleftrightarrow> x = Some JobStateScheduled \<or> x = Some JobStateRunning"
  obtain e2 st2 where m: "(if b then MarkTerminal ops c now jid JobStateCanceled st1 else (None, st1)) = (e2, st2)"
    by fastforce
  have st2: "e2 = None" "reliable c st2" "invar st2"
    "if b then update_rel (terminal_rel now JobStateCanceled) jid (abs st1) (abs st2) else abs st2 = abs st1"
    using m rel_terminal [OF st1(2,1), of JobStateCanceled now jid e2 st2]
      terminal [OF st1(2), of JobStateCanceled c now jid e2 st2] st1 by (auto split: if_splits)
  obtain d st3 where d: "Delete ops c jid st2 = (d, st3)" by fastforce
  from rel_delete [OF st2(3,2) d] delete [OF st2(3) d] have
    st3: "reliable c st3" "invar st3" "as_jobs (abs st3) = as_jobs (abs st2) - {jid}"
      "as_status (abs st3) = as_status (abs st2)" by auto
  have "recover_one ops c now jid st = (None, st3)"
    using x m st2(1) d by (simp add: recover_one_def b_def)
  moreover have "as_jobs (abs st3) = as_jobs (abs st) - {jid}"
    using st3(3) st2(4) st1(3) update_rel_jobs by (auto split: if_splits)
  moreover have "recovered jid (abs st) (abs st3)"
    using st2(4) st1(3,4) st3(4)
    by (auto simp: recovered_def is_terminal_def b_def terminal_rel_def terminal_entry_def
        elim!: update_rel.cases split: if_splits)
  moreover have "as_status (abs st3) i = as_status (abs st) i" if "i \<noteq> jid" for i
    using st2(4) st1(3) st3(4) that by (auto elim!: update_rel.cases split: if_splits)
  moreover have "is_terminal i y (abs st3)" if "is_terminal i y (abs st)" for i y
    using op_rel_terminal [of "OTerminal c now jid JobStateCanceled" "abs st1" "abs st2" i y] that
      st2(4) st1(3) st3(4) by (auto simp: is_terminal_def split: if_splits)
  ultimately show ?thesis using st3(1,2) by blast
qed

lemma reconcile_ids_ok:
  assumes "invar (s_jobsStorage s)" and "reliable c (s_jobsStorage s)" and "distinct ids"
  shows "\<exists>st'. reconcile_ids ops c now ids s = (None, s\<lparr>s_jobsStorage := st'\<rparr>) \<and> invar st' \<and> reliable c st' \<and>
    as_jobs (abs st') = as_jobs (abs (s_jobsStorage s)) - set ids \<and>
    (\<forall>i \<in> set ids. recovered i (abs (s_jobsStorage s)) (abs st')) \<and>
    (\<forall>i x. is_terminal i x (abs (s_jobsStorage s)) \<longrightarrow> is_terminal i x (abs st'))"
  using assms
proof (induction ids arbitrary: s)
  case Nil
  then show ?case by (intro exI [of _ "s_jobsStorage s"]) simp
next
  case (Cons jid ids)
  let ?a = "abs (s_jobsStorage s)"
  from recover_one_ok [OF Cons.prems(1,2), of now jid] obtain st1 where
    one: "recover_one ops c now jid (s_jobsStorage s) = (None, st1)" "invar st1" "reliable c st1"
      "as_jobs (abs st1) = as_jobs ?a - {jid}" "recovered jid ?a (abs st1)"
      "\<And>i. i \<noteq> jid \<Longrightarrow> as_status (abs st1) i = as_status ?a i"
      "\<And>i x. is_terminal i x ?a \<Longrightarrow> is_terminal i x (abs st1)" by blast
  from Cons.IH [of "s\<lparr>s_jobsStorage := st1\<rparr>"] one(2,3) Cons.prems(3) obtain st' where
    rest: "reconcile_ids ops c now ids (s\<lparr>s_jobsStorage := st1\<rparr>) = (None, s\<lparr>s_jobsStorage := st'\<rparr>)"
      "invar st'" "reliable c st'" "as_jobs (abs st') = as_jobs (abs st1) - set ids"
      "\<And>i. i \<in> set ids \<Longrightarrow> recovered i (abs st1) (abs st')"
      "\<And>i x. is_terminal i x (abs st1) \<Longrightarrow> is_terminal i x (abs st')" by auto
  have "recovered jid ?a (abs st')" using one(5) rest(6) by (auto simp: recovered_def)
  moreover have "recovered i ?a (abs st')" if "i \<in> set ids" for i
  proof -
    have "i \<noteq> jid" using that Cons.prems(3) by auto
    with rest(5) [OF that] one(6) [of i] show ?thesis by (auto simp: recovered_def)
  qed
  ultimately show ?case
    using one(1,4,7) rest by (intro exI [of _ st']) (auto simp: reconcile_Cons simp del: reconcile_ids.simps)
qed

lemma reconcile_ok:
  assumes "invar (s_jobsStorage s)" and "reliable c (s_jobsStorage s)"
  shows "\<exists>st'. reconcileRecoveredState ops c now s = (None, s\<lparr>s_jobsStorage := st'\<rparr>) \<and> invar st' \<and> reliable c st' \<and>
    as_jobs (abs st') = {} \<and>
    (\<forall>i \<in> as_jobs (abs (s_jobsStorage s)). recovered i (abs (s_jobsStorage s)) (abs st')) \<and>
    (\<forall>i x. is_terminal i x (abs (s_jobsStorage s)) \<longrightarrow> is_terminal i x (abs st'))"
proof -
  obtain ids st where i: "IDs ops c (s_jobsStorage s) = (ids, st)" by fastforce
  from rel_ids [OF assms i] ids [OF assms(1) i] have
    st: "reliable c st" "invar st" "abs st = abs (s_jobsStorage s)"
      "ids = sorted_list_of_set (as_jobs (abs (s_jobsStorage s)))" by auto
  have "finite (as_jobs (abs (s_jobsStorage s)))" using fin [OF assms(1)] by simp
  then have set: "set ids = as_jobs (abs (s_jobsStorage s))" and "distinct ids"
    using st(4) by simp_all
  from reconcile_ids_ok [of "s\<lparr>s_jobsStorage := st\<rparr>" c ids now] this st i show ?thesis
    by (auto simp: reconcileRecoveredState_def)
qed

end

end
