(* ===== verification/Scheduler_Properties.thy ===== *)
theory Scheduler_Properties
  imports Scheduler_Facts
begin

text \<open>
  The properties of the scheduler's operations under its mutex. Where a property depends on the
  storage it is stated for every storage that implements the contract \<open>reliable_jobs_store\<close>; the
  witnesses use the in-memory storage.
\<close>

section \<open>A scheduler for the witnesses\<close>

definition demo_sched :: "mem_store Scheduler" where
  "demo_sched = fst (NewSchedulerWithError InMemoryJobsStorage NewInMemoryJobsStorage
     (Inr (\<lambda>_ url. Inr url)) (\<lambda>_. 0) None [])"

definition demo_job :: Job where
  "demo_job = \<lparr>j_ID = ''a'',
     j_Schedule = \<lparr>sc_Every = 10, sc_StartAt = None, sc_EndAt = None, sc_MaxRuns = 2\<rparr>,
     j_Request = \<lparr>rq_Method = ''get'', rq_URL = ''http://x'', rq_Headers = [], rq_Body = '''', rq_Timeout = 0\<rparr>,
     j_Callback = \<lparr>cb_URL = '''', cb_Method = '''', cb_Headers = [], cb_Timeout = 0, cb_MaxBodyBytes = 0\<rparr>,
     j_RetryPolicy = \<lparr>rp_Retrier = None, rp_TemporaryErrors = [], rp_RetryStatusCodes = []\<rparr>\<rparr>"

lemma demo_sched_eq:
  "s_jobs demo_sched = []" "s_jobsStorage demo_sched = NewInMemoryJobsStorage"
  "\<not> s_stopped demo_sched" "s_urlValidator demo_sched = Some (\<lambda>_ url. Inr url)" "s_ctx demo_sched = None"
  "s_nextPtr demo_sched = 0" "s_canceled demo_sched = {}"
  by (simp_all add: demo_sched_def NewSchedulerWithError_def reconcileRecoveredState_def
      InMemoryJobsStorage_def mem_IDs_def NewInMemoryJobsStorage_def)

lemma demo_sched_ok: "sched_ok mem_abs mem_invar demo_sched"
  using mem_new by (simp add: sched_ok_def demo_sched_eq) (simp add: mem_abs_def NewInMemoryJobsStorage_def)

lemma upper_get: "str_ToUpper ''get'' = ''GET''"
  by code_simp

lemma demo_normal: "\<exists>job'. normalizeJob rt t demo_sched demo_job = Ret (Inr job') \<and> j_ID job' = ''a''"
proof -
  have "validateSchedule (j_Schedule demo_job) = None"
    by (simp add: demo_job_def validateSchedule_def)
  moreover have "\<exists>rq. normalizeRequest demo_sched (j_Request demo_job) = Inr rq"
    by (simp add: demo_job_def normalizeRequest_def demo_sched_eq isSupportedMethod_def upper_get
        Let_def del: str_ToUpper.simps)
  moreover have "normalizeCallback demo_sched (j_Callback demo_job) = Inr (j_Callback demo_job)"
    by (simp add: demo_job_def normalizeCallback_def)
  ultimately show ?thesis
    using ensureRetrier_ok [of rt t None] by (fastforce simp: normalizeJob_def demo_sched_eq demo_job_def)
qed

section \<open>Schedule\<close>

text \<open>The identifier under which a normalized job is registered, and the state after choosing it.\<close>

definition chosen_id :: "'s Scheduler \<Rightarrow> Job \<Rightarrow> string" where
  "chosen_id s job = (if j_ID job = '''' then fst (nextID s) else j_ID job)"

lemma Schedule_cases:
  assumes "normalizeJob rt t s job = Ret (Inr job')" and "\<not> s_stopped s"
  shows "sched_Schedule rt ops c t now job s =
    (let s1 = (if j_ID job' = '''' then snd (nextID s) else s);
         job1 = (if j_ID job' = '''' then job'\<lparr>j_ID := fst (nextID s)\<rparr> else job')
     in case map_of (s_jobs s1) (j_ID job1) of
          Some _ \<Rightarrow> Ret (Inl (Wrapf ErrInvalidJob ''job id already exists: %s'' [FStr (j_ID job1)]), s1)
        | None \<Rightarrow> Ret (Schedule_register rt ops c now job1 s1))"
  using assms by (cases "nextID s") (auto simp: sched_Schedule_def Let_def split: option.split)

lemma nextID_frame: "snd (nextID s) = s\<lparr>s_counter := s_counter s + 1\<rparr>"
  by (simp add: nextID_def Let_def)

text \<open>
  (C8) \<open>Schedule\<close>. On a storage that does not fail and can represent the job's identifier, a call
  always returns. It accepts the job exactly when the scheduler is not stopped, the job is
  acceptable (positive interval, run limit not negative, end not before start, a request URL, a
  supported method, URLs that the validator accepts, and the same for a callback with a URL) and its
  identifier, or the new one when it has none, is not registered. Then it registers the job under
  that identifier in the scheduler and in the storage, with the status \<open>scheduled\<close>, starts exactly one
  goroutine on the normalized job, whose URLs are the validator's and whose methods are the effective
  ones, and leaves the other jobs alone. Otherwise it reports \<open>ErrSchedulerStopped\<close> after \<open>Stop\<close>, an error
  that wraps \<open>ErrUnsupportedMethod\<close> when the first thing wrong is a method, and one that wraps
  \<open>ErrInvalidJob\<close> in all other cases, and it registers nothing and starts nothing.
\<close>

theorem schedule_spec:
  assumes "reliable_jobs_store ops ab inv1 okid okpay reliable" and "error_matching rt"
    and "sched_ok ab inv1 s" and "reliable c (s_jobsStorage s)" and "okid (chosen_id s job)"
  shows "\<exists>r s'. sched_Schedule rt ops c t now job s = Ret (r, s') \<and> sched_ok ab inv1 s' \<and>
    ((\<exists>jid. r = Inr jid) \<longleftrightarrow>
       \<not> s_stopped s \<and> job_acceptable s job \<and> chosen_id s job \<notin> as_jobs (ab (s_jobsStorage s))) \<and>
    (case r of
       Inl e \<Rightarrow>
         (if s_stopped s then e = ErrSchedulerStopped
          else if method_unsupported s job then \<exists>m. e = Wrap ErrUnsupportedMethod m
          else \<exists>f as. e = Wrapf ErrInvalidJob f as) \<and>
         s_jobs s' = s_jobs s \<and> s_jobsStorage s' = s_jobsStorage s \<and> s_spawned s' = s_spawned s \<and>
         s_wg s' = s_wg s
     | Inr jid \<Rightarrow>
         jid = chosen_id s job \<and>
         as_jobs (ab (s_jobsStorage s')) = insert jid (as_jobs (ab (s_jobsStorage s))) \<and>
         (\<exists>e. as_status (ab (s_jobsStorage s')) jid = Some e \<and> st_State (e_status e) = JobStateScheduled) \<and>
         (\<forall>i. i \<noteq> jid \<longrightarrow> as_status (ab (s_jobsStorage s')) i = as_status (ab (s_jobsStorage s)) i) \<and>
         (\<exists>entry. map_of (s_jobs s') = (map_of (s_jobs s))(jid \<mapsto> entry) \<and>
            s_spawned s' = s_spawned s @ [entry] \<and> s_wg s' = s_wg s + 1 \<and>
            j_ID (je_job entry) = jid \<and> job_normalized rt t s job (je_job entry)))"
proof (cases "s_stopped s")
  case True
  then show ?thesis using assms(3) by (simp add: sched_Schedule_def)
next
  case False
  from normalizeJob_spec [of rt t s job] obtain nj where n: "normalizeJob rt t s job = Ret nj"
    "case nj of
        Inr job' \<Rightarrow> job_acceptable s job \<and> job_normalized rt t s job job' \<and> j_ID job' = j_ID job
      | Inl e \<Rightarrow> \<not> job_acceptable s job \<and>
          (if method_unsupported s job then \<exists>m. e = Wrap ErrUnsupportedMethod m
           else \<exists>f as. e = Wrapf ErrInvalidJob f as)" by blast
  show ?thesis
  proof (cases nj)
    case (Inl e)
    with n False assms(3) show ?thesis by (auto simp: sched_Schedule_def)
  next
    case (Inr job')
    define s1 where "s1 = (if j_ID job' = '''' then snd (nextID s) else s)"
    define job1 where "job1 = (if j_ID job' = '''' then job'\<lparr>j_ID := fst (nextID s)\<rparr> else job')"
    have s1: "s_jobs s1 = s_jobs s" "s_jobsStorage s1 = s_jobsStorage s" "s_spawned s1 = s_spawned s"
      "s_stopped s1 = s_stopped s" "s_wg s1 = s_wg s" by (auto simp: s1_def nextID_frame)
    have ok1: "sched_ok ab inv1 s1" using assms(3) by (simp add: sched_ok_def s1)
    have norm: "job_acceptable s job" "job_normalized rt t s job job1" "j_ID job1 = chosen_id s job"
      using n(2) Inr by (auto simp: job1_def job_normalized_def chosen_id_def)
    have okj: "okid (j_ID job1)" using assms(5) norm(3) by simp
    have "\<not> method_unsupported s job"
      using norm(1) by (auto simp: job_acceptable_def method_unsupported_def request_valid_def callback_valid_def)
    note unf = Schedule_cases [of rt t s job job' ops c now, folded s1_def job1_def]
    have taken: "chosen_id s job \<in> as_jobs (ab (s_jobsStorage s)) \<longleftrightarrow> map_of (s_jobs s1) (j_ID job1) \<noteq> None"
      using assms(3) s1(1) norm(3) unfolding sched_ok_def by (metis domIff)
    show ?thesis
    proof (cases "map_of (s_jobs s1) (j_ID job1)")
      case (Some e)
      with unf n(1) Inr False ok1 s1 taken \<open>\<not> method_unsupported s job\<close> show ?thesis
        by (simp add: Let_def)
    next
      case None
      from reliable_jobs_store.Schedule_register_ok [OF assms(1) ok1 _ assms(2) okj None, of c now]
        assms(4) s1 False obtain s' where
        r: "Schedule_register rt ops c now job1 s1 = (Inr (j_ID job1), s')" "sched_ok ab inv1 s'"
          "as_jobs (ab (s_jobsStorage s')) = insert (j_ID job1) (as_jobs (ab (s_jobsStorage s)))"
          "\<exists>e. as_status (ab (s_jobsStorage s')) (j_ID job1) = Some e \<and> st_State (e_status e) = JobStateScheduled"
          "s_jobs s' = AList.update (j_ID job1) \<lparr>je_ptr = s_nextPtr s1, je_job = job1\<rparr> (s_jobs s)"
          "s_spawned s' = s_spawned s @ [\<lparr>je_ptr = s_nextPtr s1, je_job = job1\<rparr>]" "s_wg s' = s_wg s + 1"
          "\<forall>i. i \<noteq> j_ID job1 \<longrightarrow> as_status (ab (s_jobsStorage s')) i = as_status (ab (s_jobsStorage s)) i" by auto
      with unf n(1) Inr False None norm taken show ?thesis by (simp add: Let_def update_conv')
    qed
  qed
qed

lemma demo_schedule:
  "\<exists>s'. sched_Schedule chain_runtime InMemoryJobsStorage None 0 (\<lambda>_. 1) demo_job demo_sched = Ret (Inr ''a'', s') \<and>
     sched_ok mem_abs mem_invar s' \<and> as_jobs (mem_abs (s_jobsStorage s')) = {''a''} \<and>
     map_of (s_jobs s') ''a'' \<noteq> None"
proof -
  obtain job' where j: "normalizeJob chain_runtime 0 demo_sched demo_job = Ret (Inr job')" "j_ID job' = ''a''"
    using demo_normal by blast
  have "map_of (s_jobs demo_sched) (j_ID job') = None" by (simp add: demo_sched_eq)
  from mem.Schedule_register_ok [OF demo_sched_ok TrueI chain.error_matching_axioms TrueI this demo_sched_eq(3),
      of None "\<lambda>_. 1"] j(2)
  obtain s' where s': "Schedule_register chain_runtime InMemoryJobsStorage None (\<lambda>_. 1) job' demo_sched = (Inr ''a'', s')"
    "sched_ok mem_abs mem_invar s'"
    "as_jobs (mem_abs (s_jobsStorage s')) = insert ''a'' (as_jobs (mem_abs (s_jobsStorage demo_sched)))"
    "map_of (s_jobs s') ''a'' \<noteq> None" by auto
  moreover have "as_jobs (mem_abs (s_jobsStorage demo_sched)) = {}"
    by (simp add: demo_sched_eq mem_abs_def NewInMemoryJobsStorage_def)
  ultimately show ?thesis
    using Schedule_cases [OF j(1) demo_sched_eq(3), of InMemoryJobsStorage None "\<lambda>_. 1"] j(2)
    by (auto simp: demo_sched_eq)
qed

lemma demo_acceptable: "job_acceptable demo_sched demo_job"
  by (simp add: job_acceptable_def demo_job_def schedule_valid_def request_valid_def callback_valid_def
      url_accepted_def supported_def effective_method_def upper_get demo_sched_eq del: str_ToUpper.simps)

theorem schedule_spec_witness:
  "\<exists>s' entry. sched_Schedule chain_runtime InMemoryJobsStorage None 0 (\<lambda>_. 1) demo_job demo_sched = Ret (Inr ''a'', s') \<and>
     sched_ok mem_abs mem_invar s' \<and> s_spawned s' = s_spawned demo_sched @ [entry] \<and>
     job_normalized chain_runtime 0 demo_sched demo_job (je_job entry)"
proof -
  have "chosen_id demo_sched demo_job = ''a''" "as_jobs (mem_abs (s_jobsStorage demo_sched)) = {}"
    by (simp_all add: chosen_id_def demo_job_def demo_sched_eq mem_abs_def NewInMemoryJobsStorage_def)
  with schedule_spec [OF mem.reliable_jobs_store_axioms chain.error_matching_axioms demo_sched_ok TrueI TrueI,
      of None 0 "\<lambda>_. 1" demo_job] demo_acceptable demo_sched_eq(3) show ?thesis
    by auto
qed

section \<open>Remove and Stop\<close>

text \<open>
  (C12) \<open>Remove\<close> returns true exactly for a registered identifier. Then that job, and no other, is
  no longer registered in the scheduler and the storage, its context is cancelled and no other, its
  status is \<open>removed\<close> and terminal, and the statuses of all other identifiers, the running
  goroutines and the flag \<open>stopped\<close> are as before. For any other identifier, a finished job's
  included, nothing changes at all, neither in the scheduler nor in the storage.
\<close>

theorem remove_spec:
  assumes "reliable_jobs_store ops ab inv1 okid okpay reliable"
    and "sched_ok ab inv1 s" and "reliable c (s_jobsStorage s)"
    and "sched_Remove rt ops c now jid s = (b, s')"
  shows "sched_ok ab inv1 s' \<and> b = (jid \<in> as_jobs (ab (s_jobsStorage s))) \<and>
    map_of (s_jobs s') = (map_of (s_jobs s))(jid := None) \<and> (\<not> b \<longrightarrow> s' = s) \<and>
    (b \<longrightarrow> is_terminal jid JobStateRemoved (ab (s_jobsStorage s')) \<and>
          as_jobs (ab (s_jobsStorage s')) = as_jobs (ab (s_jobsStorage s)) - {jid} \<and>
          (\<forall>i. i \<noteq> jid \<longrightarrow> as_status (ab (s_jobsStorage s')) i = as_status (ab (s_jobsStorage s)) i) \<and>
          (\<exists>e. map_of (s_jobs s) jid = Some e \<and> s_canceled s' = insert (je_ptr e) (s_canceled s)) \<and>
          s_stopped s' = s_stopped s \<and> s_spawned s' = s_spawned s \<and> s_wg s' = s_wg s)"
  using reliable_jobs_store.Remove_ok [OF assms] by blast

theorem remove_spec_witness:
  "\<exists>s s'. map_of (s_jobs s) ''a'' \<noteq> None \<and>
     sched_Remove chain_runtime InMemoryJobsStorage None (\<lambda>_. 2) ''a'' s = (True, s') \<and>
     map_of (s_jobs s') ''a'' = None \<and> is_terminal ''a'' JobStateRemoved (mem_abs (s_jobsStorage s'))"
proof -
  from demo_schedule obtain s where s: "sched_ok mem_abs mem_invar s"
    "as_jobs (mem_abs (s_jobsStorage s)) = {''a''}" "map_of (s_jobs s) ''a'' \<noteq> None" by blast
  obtain b s' where r: "sched_Remove chain_runtime InMemoryJobsStorage None (\<lambda>_. 2) ''a'' s = (b, s')" by fastforce
  note spec = remove_spec [OF mem.reliable_jobs_store_axioms s(1) TrueI r]
  then have "b" using s(2) by blast
  with spec s(3) r show ?thesis by (intro exI [of _ s] exI [of _ s']) simp
qed

text \<open>
  (C11) \<open>Stop\<close> leaves no registered job in the scheduler or the storage, cancels the context of
  every job that was registered and leaves its status terminal; a second \<open>Stop\<close> changes nothing
  and every later \<open>Schedule\<close> is refused with \<open>ErrSchedulerStopped\<close>.
\<close>

theorem stop_spec:
  assumes "reliable_jobs_store ops ab inv1 okid okpay reliable"
    and "sched_ok ab inv1 s" and "reliable c (s_jobsStorage s)"
  shows "sched_ok ab inv1 (sched_Stop rt ops c now s) \<and>
    s_jobs (sched_Stop rt ops c now s) = [] \<and>
    as_jobs (ab (s_jobsStorage (sched_Stop rt ops c now s))) = {} \<and>
    (\<forall>jid e. map_of (s_jobs s) jid = Some e \<longrightarrow> je_ptr e \<in> s_canceled (sched_Stop rt ops c now s) \<and>
       (\<exists>st. is_terminal jid st (ab (s_jobsStorage (sched_Stop rt ops c now s))))) \<and>
    sched_Stop rt ops c now' (sched_Stop rt ops c now s) = sched_Stop rt ops c now s \<and>
    sched_Schedule rt ops c' t now' job (sched_Stop rt ops c now s) =
      Ret (Inl ErrSchedulerStopped, sched_Stop rt ops c now s)"
proof -
  have k: "je_ptr e \<in> set (map (\<lambda>ke. je_ptr (snd ke)) (s_jobs s))" "jid \<in> as_jobs (ab (s_jobsStorage s))"
    if "map_of (s_jobs s) jid = Some e" for jid e
    using that assms(2) map_of_SomeD [OF that] by (force simp: sched_ok_def)+
  from reliable_jobs_store.Stop_ok [OF assms, of rt now now'] k show ?thesis
    by (auto simp: sched_Schedule_def sched_ok_def)
qed

theorem stop_spec_witness:
  "\<exists>s. map_of (s_jobs s) ''a'' \<noteq> None \<and>
     s_jobs (sched_Stop chain_runtime InMemoryJobsStorage None (\<lambda>_. 2) s) = [] \<and>
     (\<exists>st. is_terminal ''a'' st (mem_abs (s_jobsStorage (sched_Stop chain_runtime InMemoryJobsStorage None (\<lambda>_. 2) s))))"
proof -
  from demo_schedule obtain s where s: "sched_ok mem_abs mem_invar s" "map_of (s_jobs s) ''a'' \<noteq> None" by blast
  from stop_spec [OF mem.reliable_jobs_store_axioms s(1) TrueI, of chain_runtime None "\<lambda>_. 2"] s(2)
  show ?thesis by (intro exI [of _ s]) auto
qed

section \<open>Recovery\<close>

text \<open>
  (C13) Recovery. A scheduler constructed on a storage that a previous process left behind starts
  with no registered job: every identifier found is deleted from the storage, a job whose status
  was scheduled or running and not terminal becomes \<open>canceled\<close>, and terminal states stay.
\<close>

theorem recovery_spec:
  assumes "reliable_jobs_store ops ab inv1 okid okpay reliable" and "inv1 st" and "reliable c st"
    and "NewSchedulerWithError ops st0 v now c [WithJobsStorage (Some st)] = (s, err)"
  shows "sched_ok ab inv1 s \<and> s_jobs s = [] \<and> as_jobs (ab (s_jobsStorage s)) = {} \<and>
    (\<forall>i \<in> as_jobs (ab st). recovered i (ab st) (ab (s_jobsStorage s))) \<and>
    (\<forall>i x. is_terminal i x (ab st) \<longrightarrow> is_terminal i x (ab (s_jobsStorage s))) \<and>
    (err = None \<longleftrightarrow> (\<exists>w. v = Inr w))"
proof -
  define s1 where "s1 = \<lparr>s_jobs = [], s_jobsStorage = st, s_historyLimit = defaultHistoryLimit, s_client = 0,
                s_logger = True, s_sem = None, s_ctx = c, s_urlValidator = None,
                s_urlValidatorConfigured = False, s_wg = 0, s_counter = 0, s_stopped = False,
                s_canceled = {}, s_spawned = [], s_nextPtr = 0, s_log = []\<rparr>"
  have "inv1 (s_jobsStorage s1)" "reliable c (s_jobsStorage s1)" using assms(2,3) by (simp_all add: s1_def)
  from reliable_jobs_store.reconcile_ok [OF assms(1) this, of now] obtain st' where
    r: "reconcileRecoveredState ops c now s1 = (None, s1\<lparr>s_jobsStorage := st'\<rparr>)" "inv1 st'"
      "as_jobs (ab st') = {}" "\<forall>i \<in> as_jobs (ab st). recovered i (ab st) (ab st')"
      "\<forall>i x. is_terminal i x (ab st) \<longrightarrow> is_terminal i x (ab st')"
    by (auto simp: s1_def)
  have "s_jobsStorage s = st'" "s_jobs s = []" "\<not> s_stopped s" "err = None \<longleftrightarrow> (\<exists>w. v = Inr w)"
    using assms(4) r(1)
    by (auto simp: NewSchedulerWithError_def WithJobsStorage_def s1_def Let_def split: sum.splits)
  with r(2-5) show ?thesis by (auto simp: sched_ok_def)
qed

theorem recovery_spec_witness:
  "\<exists>st s. as_jobs (mem_abs st) = {''a''} \<and>
     NewSchedulerWithError InMemoryJobsStorage NewInMemoryJobsStorage (Inr (\<lambda>_ u. Inr u)) (\<lambda>_. 5) None
       [WithJobsStorage (Some st)] = (s, None) \<and> as_jobs (mem_abs (s_jobsStorage s)) = {}"
proof -
  from demo_schedule obtain s0 where s0: "sched_ok mem_abs mem_invar s0"
    "as_jobs (mem_abs (s_jobsStorage s0)) = {''a''}" by blast
  then have i: "mem_invar (s_jobsStorage s0)" by (simp add: sched_ok_def)
  obtain s err where n: "NewSchedulerWithError InMemoryJobsStorage NewInMemoryJobsStorage (Inr (\<lambda>_ u. Inr u))
      (\<lambda>_. 5) None [WithJobsStorage (Some (s_jobsStorage s0))] = (s, err)" by fastforce
  from recovery_spec [OF mem.reliable_jobs_store_axioms i TrueI n] s0(2) n show ?thesis by auto
qed

section \<open>Queries\<close>

lemma member_filter: "\<not> (0 < length (remdups xs) \<and> \<not> List.member (remdups xs) x) \<longleftrightarrow> xs = [] \<or> x \<in> set xs"
  by (auto simp: List.member_iff)

lemma select_statuses_eq:
  "select_statuses q sts =
     filter (\<lambda>st. (sq_IDs q = [] \<or> st_JobID st \<in> set (sq_IDs q)) \<and>
                  (sq_States q = [] \<or> st_State st \<in> set (sq_States q))) sts"
  unfolding select_statuses_def makeIDFilter_def makeStateFilter_def Let_def member_filter ..

lemma page_statuses_eq:
  assumes "is_int64 (max (sq_Offset q) 0 + sq_Limit q)"
  shows "page_statuses q xs =
    Ret (let ys = drop (nat (sq_Offset q)) xs in if sq_Limit q > 0 then take (nat (sq_Limit q)) ys else ys)"
proof -
  have "nat (max (sq_Offset q) 0) = nat (sq_Offset q)" by simp
  then show ?thesis
    using wrap64_id [OF assms]
    by (auto simp: page_statuses_def go_slice_def Let_def max_def nat_le_iff)
qed

text \<open>
  (C39) Status queries. Unless offset plus limit leaves the 64-bit range, \<open>QueryJobStatuses\<close>
  returns, in order of the identifiers, the statuses whose identifier and state pass the filters
  (an empty filter passes everything), without the first \<open>Offset\<close> of them and cut at \<open>Limit\<close>
  when that is positive.
\<close>

theorem query_statuses:
  assumes "reliable_jobs_store ops ab inv1 okid okpay reliable" and "inv1 (s_jobsStorage s)"
    and "reliable c (s_jobsStorage s)" and "is_int64 (max (sq_Offset q) 0 + sq_Limit q)"
  shows "fst (QueryJobStatuses ops c q s) =
    Ret (let ys = drop (nat (sq_Offset q))
           (filter (\<lambda>st. (sq_IDs q = [] \<or> st_JobID st \<in> set (sq_IDs q)) \<and>
                         (sq_States q = [] \<or> st_State st \<in> set (sq_States q)))
              (all_statuses (ab (s_jobsStorage s))))
         in if sq_Limit q > 0 then take (nat (sq_Limit q)) ys else ys)"
proof -
  obtain xs st where x: "Statuses ops c (s_jobsStorage s) = (xs, st)" by fastforce
  from reliable_jobs_store.rel_statuses [OF assms(1-3) x] have xs: "xs = all_statuses (ab (s_jobsStorage s))" by simp
  show ?thesis
    unfolding QueryJobStatuses_def x xs [symmetric] Let_def
    by (simp add: page_statuses_eq [OF assms(4)] select_statuses_eq Let_def)
qed

definition demo_query :: JobStatusQuery where
  "demo_query = \<lparr>sq_IDs = [''a''], sq_States = [], sq_Offset = 0, sq_Limit = 5\<rparr>"

theorem query_statuses_witness:
  "fst (QueryJobStatuses InMemoryJobsStorage None demo_query demo_sched) = Ret []"
proof -
  have "is_int64 (max (sq_Offset demo_query) 0 + sq_Limit demo_query)"
    by (simp add: demo_query_def is_int64_def)
  moreover have "mem_invar (s_jobsStorage demo_sched)" using demo_sched_ok by (simp add: sched_ok_def)
  moreover have "all_statuses (mem_abs (s_jobsStorage demo_sched)) = []"
    by (simp add: all_statuses_def demo_sched_eq mem_abs_def NewInMemoryJobsStorage_def)
  ultimately show ?thesis
    using query_statuses [OF mem.reliable_jobs_store_axioms _ TrueI, of demo_sched demo_query None] by simp
qed

text \<open>
  (C40) The overflow in that query. Whenever a positive limit and a non-negative offset, both 64-bit
  integers, have a sum above the largest integer, the query panics as soon as more statuses pass the
  filters than the offset skips: the sum wraps around to a negative upper slice bound. The largest
  limit, a natural way to ask for all results, is thus unsafe with every offset but zero.
\<close>

theorem query_statuses_overflow:
  assumes "reliable_jobs_store ops ab inv1 okid okpay reliable" and "inv1 (s_jobsStorage s)"
    and "reliable c (s_jobsStorage s)"
    and "is_int64 (sq_Limit q)" and "is_int64 (sq_Offset q)" and "0 < sq_Limit q" and "0 \<le> sq_Offset q"
    and "maxInt64 < sq_Offset q + sq_Limit q"
    and "sq_Offset q < int (length (filter (\<lambda>st. (sq_IDs q = [] \<or> st_JobID st \<in> set (sq_IDs q)) \<and>
                                                 (sq_States q = [] \<or> st_State st \<in> set (sq_States q)))
                                      (all_statuses (ab (s_jobsStorage s)))))"
  shows "fst (QueryJobStatuses ops c q s) = Panic ''slice bounds out of range''"
proof -
  obtain xs st where x: "Statuses ops c (s_jobsStorage s) = (xs, st)" by fastforce
  from reliable_jobs_store.rel_statuses [OF assms(1-3) x] have xs: "xs = all_statuses (ab (s_jobsStorage s))" by simp
  have len: "sq_Offset q < int (length (select_statuses q xs))" using assms(9) by (simp add: xs select_statuses_eq)
  have "select_statuses q [] = []" by (simp add: select_statuses_eq)
  then have "xs \<noteq> []" using len assms(7) by auto
  then have q: "fst (QueryJobStatuses ops c q s) = page_statuses q (select_statuses q xs)"
    by (simp add: QueryJobStatuses_def x)
  have "is_int64 (sq_Offset q + sq_Limit q - 2 ^ 64)"
    using assms(4,5,8) by (simp add: is_int64_def)
  from wrap64_shift [OF this, of 1] have w: "wrap64 (sq_Offset q + sq_Limit q) < 0"
    using assms(4,5) by (simp add: is_int64_def)
  with assms(6,7) len show ?thesis
    unfolding q by (simp add: page_statuses_def go_slice_def Let_def max_def)
qed

definition wide_query :: JobStatusQuery where
  "wide_query = \<lparr>sq_IDs = [], sq_States = [], sq_Offset = 1, sq_Limit = maxInt64\<rparr>"

definition two_jobs :: mem_store where
  "two_jobs = run_ops InMemoryJobsStorage
     [OUpsert None (\<lambda>_. 1) ''a'' JobStateScheduled, OUpsert None (\<lambda>_. 2) ''b'' JobStateScheduled] NewInMemoryJobsStorage"

lemma two_statuses: "length (all_statuses (mem_abs two_jobs)) = 2"
proof -
  have "dom (as_status (mem_abs two_jobs)) = {''a'', ''b''}"
    by (auto simp: two_jobs_def mem_abs_def InMemoryJobsStorage_def mem_UpsertStatus_def
        NewInMemoryJobsStorage_def Let_def split: if_splits)
  then show ?thesis by (simp add: all_statuses_def)
qed

theorem query_statuses_overflow_witness:
  "fst (QueryJobStatuses InMemoryJobsStorage None wide_query (demo_sched\<lparr>s_jobsStorage := two_jobs\<rparr>)) =
     Panic ''slice bounds out of range''"
proof -
  have "mem_invar two_jobs"
    using mem_run_invar [of "[OUpsert None (\<lambda>_. 1) ''a'' JobStateScheduled, OUpsert None (\<lambda>_. 2) ''b'' JobStateScheduled]"]
    by (simp add: two_jobs_def)
  then show ?thesis
    by (intro query_statuses_overflow [OF mem.reliable_jobs_store_axioms _ TrueI])
      (simp_all add: wide_query_def is_int64_def two_statuses)
qed

text \<open>
  History queries never panic: they return the retained runs from \<open>FromSequence\<close> on, the
  latest \<open>Limit\<close> of them when that is positive, in ascending order, or nothing for a job without
  a status.
\<close>

lemma query_history:
  assumes "reliable_jobs_store ops ab inv1 okid okpay reliable" and "inv1 (s_jobsStorage s)"
    and "reliable c (s_jobsStorage s)"
  shows "fst (QueryJobHistory ops c jid q s) =
    Ret (map_option (\<lambda>e. let ys = (if hq_FromSequence q > 0
            then filter (\<lambda>run. hq_FromSequence q \<le> jr_Sequence run) (e_history e) else e_history e)
          in if hq_Limit q > 0 then last_n (nat (hq_Limit q)) ys else ys)
      (as_status (ab (s_jobsStorage s)) jid))"
proof -
  obtain h st where h: "History ops c jid (s_jobsStorage s) = (h, st)" by fastforce
  from reliable_jobs_store.rel_history [OF assms h]
  have h': "h = map_option e_history (as_status (ab (s_jobsStorage s)) jid)" by simp
  have cut: "(if 0 < l \<and> l < int (length ys) then map_res Some (go_slice ys (int (length ys) - l) (int (length ys)))
      else Ret (Some ys)) = Ret (Some (if 0 < l then last_n (nat l) ys else ys))"
    for l and ys :: "JobRun list"
    by (auto simp: go_slice_def last_n_def nat_diff_distrib')
  show ?thesis
    by (cases "as_status (ab (s_jobsStorage s)) jid")
      (simp_all add: QueryJobHistory_def h h' Let_def cut)
qed

section \<open>Scheduling an identifier again\<close>

text \<open>
  (C38) The status of a rescheduled job is frozen. \<open>UpsertStatus\<close> sets the state of an existing
  entry but keeps its terminal flag. When a job was removed and its identifier is scheduled
  again, its status reads \<open>scheduled\<close>, and from then on neither an execution, a result nor the
  job's own end changes it any more.
\<close>

theorem reschedule_frozen:
  assumes "mem_invar s" and "is_terminal jid st0 (mem_abs s)"
    and "list_all (op_ok (\<lambda>_. True) (\<lambda>_. True)) xs" and "list_all (\<lambda>x. \<not> overrides jid x) xs"
  shows "fst (mem_State c jid (run_ops InMemoryJobsStorage (OUpsert c0 now jid JobStateScheduled # xs) s)) =
           Some JobStateScheduled"
proof -
  let ?s = "apply_op InMemoryJobsStorage (OUpsert c0 now jid JobStateScheduled) s"
  have i: "mem_invar ?s" using mem.apply_op_rel [OF assms(1), of "OUpsert c0 now jid JobStateScheduled"] by simp
  have "is_terminal jid JobStateScheduled (mem_abs ?s)"
    using assms(2)
    by (auto simp: is_terminal_def mem_abs_def InMemoryJobsStorage_def mem_UpsertStatus_def Let_def)
  from mem.terminal_final [OF i assms(3,4) this] show ?thesis
    by (auto simp: is_terminal_def mem_abs_def mem_State_def)
qed

theorem reschedule_frozen_witness:
  "fst (mem_State None ''a'' (run_ops InMemoryJobsStorage
     [OUpsert None (\<lambda>_. 7) ''a'' JobStateScheduled, OStart None (\<lambda>_. 8) ''a'',
      OResult None (\<lambda>_. 9) ''a'' demo_payload 5, OTerminal None (\<lambda>_. 9) ''a'' JobStateCompleted]
     (run_ops InMemoryJobsStorage demo_ops NewInMemoryJobsStorage))) = Some JobStateScheduled"
proof -
  let ?s = "run_ops InMemoryJobsStorage demo_ops NewInMemoryJobsStorage"
  let ?xs = "[OStart None (\<lambda>_. 8) ''a'', OResult None (\<lambda>_. 9) ''a'' demo_payload 5,
      OTerminal None (\<lambda>_. 9) ''a'' JobStateCompleted]"
  have "mem_invar ?s" using mem_run_invar [OF demo_ops_ok] by simp
  moreover have "is_terminal ''a'' JobStateCompleted (mem_abs ?s)"
    by (simp add: run_demo is_terminal_def mem_abs_def)
  moreover have "list_all (op_ok (\<lambda>_. True) (\<lambda>_. True)) ?xs" "list_all (\<lambda>x. \<not> overrides ''a'' x) ?xs"
    by simp_all
  ultimately show ?thesis using reschedule_frozen by blast
qed

end
