(* ===== verification/Scheduler_Execute.thy ===== *)
theory Scheduler_Execute
  imports Scheduler_Properties Retrier_Context
begin

text \<open>
  One execution of a job: \<open>execute\<close> of \<open>scheduler.go\<close> with its helpers. The HTTP exchanges, the
  JSON encoder and the clock are observed through an environment; the retries go through the
  model of \<open>DoWithContext\<close>, and the bookkeeping through the storage.
\<close>

section \<open>Response bodies\<close>

text \<open>
  A response body is the bytes it delivers and the error that ends it, if it does not end with
  \<open>EOF\<close>. A limited reader never reaches that error when the limit is not above the data.
\<close>

record body_stream =
  bs_data :: string
  bs_err :: "goerr option"

definition readBody :: "body_stream \<Rightarrow> bool \<Rightarrow> int \<Rightarrow> string \<times> goerr option" where
  "readBody body incl limit =
     (if \<not> incl then
        (case bs_err body of
           Some e \<Rightarrow> ([], Some (Wrap e ''draining body failed''))
         | None \<Rightarrow> ([], None))
      else
        let lim = (if limit \<le> 0 then defaultCallbackMaxBodySize else limit);
            n = wrap64 (lim + 1);
            got = take (nat n) (bs_data body)
        in if int (length (bs_data body)) < n \<and> bs_err body \<noteq> None
           then ([], Some (Wrap (the (bs_err body)) ''reading body failed''))
           else
             let data = (if int (length got) > lim then take (nat lim) got else got)
             in (case bs_err body of
                   Some e \<Rightarrow> (data, Some (Wrap e ''draining body failed''))
                 | None \<Rightarrow> (data, None)))"

section \<open>The state an execution collects\<close>

record executionState =
  x_attempts :: int
  x_lastStatus :: int
  x_lastBody :: string

definition incrementAttempts :: "executionState \<Rightarrow> executionState" where
  "incrementAttempts st = st\<lparr>x_attempts := x_attempts st + 1\<rparr>"

definition setLastResponse :: "int \<Rightarrow> string \<Rightarrow> executionState \<Rightarrow> executionState" where
  "setLastResponse status body st = st\<lparr>x_lastStatus := status, x_lastBody := body\<rparr>"

record executionSnapshot =
  sn_attempts :: int
  sn_status :: int
  sn_body :: string

definition exec_snapshot :: "executionState \<Rightarrow> executionSnapshot" where
  "exec_snapshot st = \<lparr>sn_attempts = x_attempts st, sn_status = x_lastStatus st, sn_body = x_lastBody st\<rparr>"

section \<open>One attempt\<close>

text \<open>
  How an HTTP exchange went: the request could not be built, it could not be sent, or there was a
  response with a status, a body and possibly an error when the body was closed.
\<close>

datatype http_outcome =
    NewRequestFails goerr
  | DoFails goerr
  | Responds int body_stream "goerr option"

definition isRetryableStatus :: "int \<Rightarrow> int list \<Rightarrow> bool" where
  "isRetryableStatus code statuses \<longleftrightarrow> List.member statuses code"

definition errorString :: "runtime \<Rightarrow> goerr option \<Rightarrow> string" where
  "errorString rt err = (case err of None \<Rightarrow> '''' | Some e \<Rightarrow> err_Error rt e)"

text \<open>The function given to the retrier: the error it returns and its effect on the collected state.\<close>

definition attempt_error :: "Job \<Rightarrow> http_outcome \<Rightarrow> goerr option" where
  "attempt_error job outcome =
     (case outcome of
        NewRequestFails e \<Rightarrow>
          Some (Wrapf e ''failed to create request for %s %s''
                  [FStr (rq_Method (j_Request job)), FStr (rq_URL (j_Request job))])
      | DoFails e \<Rightarrow> Some (Wrap e ''request failed'')
      | Responds code body closeErr \<Rightarrow>
          if 200 \<le> code \<and> code < 300 then None
          else if isRetryableStatus code (rp_RetryStatusCodes (j_RetryPolicy job))
          then Some (Wrapf ErrRetryableStatus ''status %d'' [FInt code])
          else Some (StatusError code))"

definition attempt_state :: "Job \<Rightarrow> http_outcome \<Rightarrow> executionState \<Rightarrow> executionState" where
  "attempt_state job outcome st =
     (let st1 = incrementAttempts st in
      case outcome of
        Responds code body closeErr \<Rightarrow>
          setLastResponse code
            (fst (readBody body (cb_URL (j_Callback job) \<noteq> '''') (cb_MaxBodyBytes (j_Callback job)))) st1
      | _ \<Rightarrow> st1)"

definition attempt_logs :: "runtime \<Rightarrow> Job \<Rightarrow> http_outcome \<Rightarrow> 's Scheduler \<Rightarrow> 's Scheduler" where
  "attempt_logs rt job outcome s =
     (case outcome of
        Responds code body closeErr \<Rightarrow>
          logError rt ''response body close failed'' closeErr
            (logError rt ''response body read failed''
               (snd (readBody body (cb_URL (j_Callback job) \<noteq> '''') (cb_MaxBodyBytes (j_Callback job)))) s)
      | _ \<Rightarrow> s)"

section \<open>Helpers of an execution\<close>

definition buildTemporaryErrors :: "retrier \<Rightarrow> RetryPolicy \<Rightarrow> goerr list" where
  "buildTemporaryErrors retr policy =
     (let temp1 = (if length (rp_RetryStatusCodes policy) > 0 then [ErrRetryableStatus] else []);
          temp2 = (if length (rp_TemporaryErrors policy) > 0 then temp1 @ rp_TemporaryErrors policy else temp1)
      in if length temp2 > 0
         then (case Registry retr of
                 None \<Rightarrow> temp2
               | Some g \<Rightarrow> if reg_Len g > 0 then temp2 @ ListTemporaryErrors g else temp2)
         else temp2)"

definition markExecutionStart ::
  "runtime \<Rightarrow> 's JobsStorage \<Rightarrow> ctx \<Rightarrow> clock \<Rightarrow> string \<Rightarrow> 's Scheduler \<Rightarrow> 's Scheduler" where
  "markExecutionStart rt ops c now jid s =
     logged_write rt ''mark execution start'' jid (MarkExecutionStart ops c now jid) s"

definition recordExecutionResult ::
  "runtime \<Rightarrow> 's JobsStorage \<Rightarrow> ctx \<Rightarrow> clock \<Rightarrow> string \<Rightarrow> CallbackPayload \<Rightarrow> 's Scheduler \<Rightarrow> 's Scheduler" where
  "recordExecutionResult rt ops c now jid payload s =
     logged_write rt ''record execution result'' jid
       (RecordExecutionResult ops c now jid payload (s_historyLimit s)) s"

definition finalizeJobState ::
  "runtime \<Rightarrow> 's JobsStorage \<Rightarrow> ctx \<Rightarrow> clock \<Rightarrow> string \<Rightarrow> JobState \<Rightarrow> 's Scheduler \<Rightarrow> 's Scheduler" where
  "finalizeJobState rt ops c now jid state s =
     logged_write rt ''mark terminal'' jid (MarkTerminal ops c now jid state) s"

definition contextTerminalState ::
  "'s JobsStorage \<Rightarrow> ctx \<Rightarrow> string \<Rightarrow> 's Scheduler \<Rightarrow> JobState \<times> 's Scheduler" where
  "contextTerminalState ops c jid s =
     (let stopped = s_stopped s;
          (state, st) = State ops c jid (s_jobsStorage s);
          s1 = s\<lparr>s_jobsStorage := st\<rparr>
      in if state = Some JobStateRemoved then (JobStateRemoved, s1)
         else if stopped then (JobStateStopped, s1)
         else (JobStateCanceled, s1))"

definition cleanupJob ::
  "'s JobsStorage \<Rightarrow> ctx \<Rightarrow> jobEntry \<Rightarrow> 's Scheduler \<Rightarrow> 's Scheduler" where
  "cleanupJob ops c entry s =
     (let jid = j_ID (je_job entry) in
      case map_of (s_jobs s) jid of
        None \<Rightarrow> s
      | Some current \<Rightarrow>
          if je_ptr current \<noteq> je_ptr entry then s
          else dropped_delete ops c jid (s\<lparr>s_jobs := AList.delete jid (s_jobs s)\<rparr>))"

section \<open>The callback\<close>

text \<open>
  A request given to the HTTP client: method, URL, headers in the order in which they are set, body,
  and the timeout its context got in addition, if any.
\<close>

record sent_request =
  sr_method :: string
  sr_url :: string
  sr_headers :: "(string \<times> string) list"
  sr_body :: string
  sr_timeout :: "duration option"

definition request_timeout :: "duration \<Rightarrow> duration option" where
  "request_timeout d = (if d > 0 then Some d else None)"

text \<open>The request of an attempt, unless it could not be built.\<close>

definition attempt_request :: "Job \<Rightarrow> http_outcome \<Rightarrow> sent_request list" where
  "attempt_request job outcome =
     (case outcome of
        NewRequestFails e \<Rightarrow> []
      | _ \<Rightarrow> [\<lparr>sr_method = rq_Method (j_Request job), sr_url = rq_URL (j_Request job),
               sr_headers = rq_Headers (j_Request job), sr_body = rq_Body (j_Request job),
               sr_timeout = request_timeout (rq_Timeout (j_Request job))\<rparr>])"

definition sendCallback ::
  "runtime \<Rightarrow> (CallbackPayload \<Rightarrow> goerr + string) \<Rightarrow> http_outcome \<Rightarrow> Job \<Rightarrow> CallbackPayload \<Rightarrow> 's Scheduler \<Rightarrow>
     sent_request list \<times> 's Scheduler" where
  "sendCallback rt json_Marshal outcome job payload s =
     (if cb_URL (j_Callback job) = '''' then ([], s)
      else case json_Marshal payload of
             Inl e \<Rightarrow> ([], logError rt ''callback marshal failed'' (Some e) s)
           | Inr body \<Rightarrow>
               let req = \<lparr>sr_method = cb_Method (j_Callback job), sr_url = cb_URL (j_Callback job),
                          sr_headers = (''Content-Type'', ''application/json'') # cb_Headers (j_Callback job),
                          sr_body = body, sr_timeout = request_timeout (cb_Timeout (j_Callback job))\<rparr>
               in (case outcome of
                     NewRequestFails e \<Rightarrow> ([], logError rt ''callback request failed'' (Some e) s)
                   | DoFails e \<Rightarrow> ([req], logError rt ''callback send failed'' (Some e) s)
                   | Responds code rbody closeErr \<Rightarrow>
                       ([req], logError rt ''callback response close failed'' closeErr
                          (logError rt ''callback response drain failed'' (bs_err rbody) s))))"

section \<open>Executions\<close>

text \<open>
  How far the goroutine of an attempt has got when its result is needed or, for an attempt that the
  retrier abandons, when the collected state is read.
\<close>

datatype progress = NotStarted | Started | Responded | Delivered

record exec_env =
  ee_do :: do_env
  ee_obs :: "nat \<Rightarrow> attempt_obs"
  ee_progress :: "nat \<Rightarrow> progress"
  ee_http :: "nat \<Rightarrow> http_outcome"
  ee_callback :: http_outcome
  ee_marshal :: "CallbackPayload \<Rightarrow> goerr + string"
  ee_started :: instant
  ee_finished :: instant
  ee_clock_start :: clock
  ee_clock_result :: clock

definition exec_attempts :: "exec_env \<Rightarrow> Job \<Rightarrow> nat \<Rightarrow> attempt_obs" where
  "exec_attempts env job i =
     (ee_obs env i)\<lparr>a_result :=
        (if ee_progress env i = Delivered then Some (attempt_error job (ee_http env i)) else None)\<rparr>"

definition exec_effect :: "exec_env \<Rightarrow> Job \<Rightarrow> nat \<Rightarrow> executionState \<Rightarrow> executionState" where
  "exec_effect env job i st =
     (case ee_progress env i of
        NotStarted \<Rightarrow> st
      | Started \<Rightarrow> incrementAttempts st
      | _ \<Rightarrow> attempt_state job (ee_http env i) st)"

text \<open>An attempt that has started has given its request to the client, or is about to.\<close>

definition exec_request :: "exec_env \<Rightarrow> Job \<Rightarrow> nat \<Rightarrow> sent_request list" where
  "exec_request env job i =
     (if ee_progress env i = NotStarted then [] else attempt_request job (ee_http env i))"

definition exec_logs :: "runtime \<Rightarrow> exec_env \<Rightarrow> Job \<Rightarrow> nat \<Rightarrow> 's Scheduler \<Rightarrow> 's Scheduler" where
  "exec_logs rt env job i s =
     (if ee_progress env i = Delivered then attempt_logs rt job (ee_http env i) s else s)"

definition exec_payload ::
  "runtime \<Rightarrow> exec_env \<Rightarrow> Job \<Rightarrow> instant \<Rightarrow> Errors \<Rightarrow> executionSnapshot \<Rightarrow> CallbackPayload" where
  "exec_payload rt env job scheduledAt errs snap =
     \<lparr>cp_JobID = j_ID job, cp_ScheduledAt = Some scheduledAt, cp_StartedAt = Some (ee_started env),
      cp_FinishedAt = Some (ee_finished env), cp_Attempts = sn_attempts snap,
      cp_Success = (Last errs = None), cp_StatusCode = sn_status snap,
      cp_Error = errorString rt (Last errs), cp_ResponseBody = sn_body snap\<rparr>"

text \<open>
  The three phases of \<open>execute\<close> after the start was recorded: the attempts up to the payload with
  the retrier of the job after its use and the requests made, the record of the result, the callback.
  \<open>execute\<close> returns the payload, that retrier, the requests of the attempts followed by that of
  the callback, and the scheduler afterwards. It is the execution of a goroutine that has the
  retrier to itself; \<open>Scheduler_Run\<close> interleaves executions that share one.
\<close>

definition exec_run ::
  "runtime \<Rightarrow> exec_env \<Rightarrow> Job \<Rightarrow> instant \<Rightarrow> 's Scheduler \<Rightarrow>
     (CallbackPayload \<times> retrier \<times> sent_request list \<times> 's Scheduler) res" where
  "exec_run rt env job scheduledAt s1 =
     (case rp_Retrier (j_RetryPolicy job) of
        None \<Rightarrow> nil_deref
      | Some retr \<Rightarrow>
          res_bind (DoWithContext rt (ee_do env) retr (Some (exec_attempts env job))
                      (buildTemporaryErrors retr (j_RetryPolicy job)))
            (\<lambda>(errs, retr', tr).
              let is = calls tr;
                  st = fold (exec_effect env job) is \<lparr>x_attempts = 0, x_lastStatus = 0, x_lastBody = []\<rparr>
              in Ret (exec_payload rt env job scheduledAt errs (exec_snapshot st), retr',
                      concat (map (exec_request env job) is), fold (exec_logs rt env job) is s1)))"

definition execute ::
  "runtime \<Rightarrow> 's JobsStorage \<Rightarrow> exec_env \<Rightarrow> ctx \<Rightarrow> Job \<Rightarrow> instant \<Rightarrow> 's Scheduler \<Rightarrow>
     (CallbackPayload \<times> retrier \<times> sent_request list \<times> 's Scheduler) res" where
  "execute rt ops env c job scheduledAt s =
     (let s1 = markExecutionStart rt ops c (ee_clock_start env) (j_ID job) s in
      res_bind (exec_run rt env job scheduledAt s1)
        (\<lambda>(payload, retr', requests, s2).
          let s3 = recordExecutionResult rt ops c (ee_clock_result env) (j_ID job) payload s2;
              (sent, s4) = sendCallback rt (ee_marshal env) (ee_callback env) job payload s3
          in Ret (payload, retr', requests @ sent, s4)))"

section \<open>Properties of captured bodies\<close>

text \<open>
  Captured bodies. For a limit below the largest integer, the body captured for a callback is
  a prefix of the response of at most \<open>limit\<close> bytes, 4096 when the limit is not positive; it is
  the whole prefix of that length when the response arrives without an error; and without a
  callback nothing is captured.
\<close>

lemma read_body_spec:
  assumes "limit < maxInt64"
  shows "(\<exists>rest. bs_data body = fst (readBody body incl limit) @ rest) \<and>
    int (length (fst (readBody body incl limit))) \<le> (if limit \<le> 0 then 4096 else limit) \<and>
    (bs_err body = None \<longrightarrow>
       readBody body incl limit =
         (if incl then take (nat (if limit \<le> 0 then 4096 else limit)) (bs_data body) else [], None))"
proof -
  define lim where "lim = (if limit \<le> 0 then 4096 else limit)"
  have lim: "0 < lim" "wrap64 (lim + 1) = lim + 1"
    using assms wrap64_succ [of lim] by (auto simp: lim_def)
  have cut: "(if lim < int (length (take (nat (lim + 1)) d)) then take (nat lim) (take (nat (lim + 1)) d)
      else take (nat (lim + 1)) d) = take (nat lim) d" for d :: string
    using lim(1) by (auto simp: min_def nat_le_iff)
  have len: "int (length (take (nat lim) d)) \<le> lim" for d :: string using lim(1) by auto
  have pre: "\<exists>rest. d = take n d @ rest" for n and d :: string by (metis append_take_drop_id)
  have lim': "(if limit \<le> 0 then defaultCallbackMaxBodySize else limit) = lim"
    by (simp add: lim_def defaultCallbackMaxBodySize_def)
  have yes: "readBody body True limit =
     (if int (length (bs_data body)) < lim + 1 \<and> bs_err body \<noteq> None
      then ([], Some (Wrap (the (bs_err body)) ''reading body failed''))
      else (take (nat lim) (bs_data body), map_option (\<lambda>e. Wrap e ''draining body failed'') (bs_err body)))"
    unfolding readBody_def Let_def lim' lim(2) cut by (simp split: option.split)
  have no: "readBody body False limit = ([], map_option (\<lambda>e. Wrap e ''draining body failed'') (bs_err body))"
    by (simp add: readBody_def split: option.split)
  have "(\<exists>rest. bs_data body = fst (readBody body incl limit) @ rest) \<and>
      int (length (fst (readBody body incl limit))) \<le> lim \<and>
      (bs_err body = None \<longrightarrow>
         readBody body incl limit = (if incl then take (nat lim) (bs_data body) else [], None))"
    using len [of "bs_data body"] pre [of "bs_data body" "nat lim"] lim(1)
    by (cases incl) (simp_all add: yes no)
  then show ?thesis unfolding lim_def .
qed

text \<open>
  The overflow in that limit. With the largest integer as limit, the size of the limited
  reader wraps around to a negative number, so nothing of any body is captured and no error is
  reported.
\<close>

lemma read_body_overflow:
  "readBody \<lparr>bs_data = d, bs_err = None\<rparr> True maxInt64 = ([], None)"
  by (simp add: readBody_def wrap64_def Let_def)

section \<open>Properties of executions\<close>

text \<open>The policy's status codes are retried.\<close>

lemma policy_status_retried:
  assumes "error_matching rt" and "code \<in> set (rp_RetryStatusCodes policy)"
    and "Registry retr = Some g"
  shows "shouldRetry rt retr (Wrapf ErrRetryableStatus ''status %d'' [FInt code])
           (buildTemporaryErrors retr policy) = Ret True"
proof -
  have mem: "ErrRetryableStatus \<in> set (buildTemporaryErrors retr policy)"
    using assms(2,3) by (auto simp: buildTemporaryErrors_def Let_def length_pos_if_in_set)
  then have "matches_any rt (Wrapf ErrRetryableStatus ''status %d'' [FInt code])
      (buildTemporaryErrors retr policy)"
    using error_matching.Is_Wrapf_self [OF assms(1)] by (auto simp: matches_any_iff)
  with mem assms(3) show ?thesis by (auto simp: shouldRetry_def IsTemporaryError_def)
qed

lemma fold_logs_frame [simp]:
  "s_jobsStorage (exec_logs rt env job i s) = s_jobsStorage s"
  "s_historyLimit (exec_logs rt env job i s) = s_historyLimit s"
  "s_jobsStorage (fold (exec_logs rt env job) is s) = s_jobsStorage s"
  "s_historyLimit (fold (exec_logs rt env job) is s) = s_historyLimit s"
proof -
  show a: "s_jobsStorage (exec_logs rt env job i s) = s_jobsStorage s"
    "s_historyLimit (exec_logs rt env job i s) = s_historyLimit s" for i s
    by (auto simp: exec_logs_def attempt_logs_def logError_def split: http_outcome.split)
  show "s_jobsStorage (fold (exec_logs rt env job) is s) = s_jobsStorage s"
    "s_historyLimit (fold (exec_logs rt env job) is s) = s_historyLimit s"
    by (induction "is" arbitrary: s) (simp_all add: a)
qed

lemma sendCallback_storage [simp]:
  "s_jobsStorage (snd (sendCallback rt m out job p s)) = s_jobsStorage s"
  by (auto simp: sendCallback_def Let_def split: sum.split http_outcome.split)

lemma sendCallback_sent: "length (fst (sendCallback rt m out job p s)) \<le> 1"
  by (auto simp: sendCallback_def Let_def split: sum.split http_outcome.split)

lemma executeE:
  assumes "execute rt ops env c job scheduledAt s = Ret (payload, retr', sent, s')"
  obtains retr errs tr where
    "rp_Retrier (j_RetryPolicy job) = Some retr"
    "DoWithContext rt (ee_do env) retr (Some (exec_attempts env job))
       (buildTemporaryErrors retr (j_RetryPolicy job)) = Ret (errs, retr', tr)"
    "payload = exec_payload rt env job scheduledAt errs (exec_snapshot
       (fold (exec_effect env job) (calls tr) \<lparr>x_attempts = 0, x_lastStatus = 0, x_lastBody = []\<rparr>))"
    "s_jobsStorage s' = snd (RecordExecutionResult ops c (ee_clock_result env) (j_ID job) payload
       (s_historyLimit s) (snd (MarkExecutionStart ops c (ee_clock_start env) (j_ID job) (s_jobsStorage s))))"
    "\<exists>cb. sent = concat (map (exec_request env job) (calls tr)) @ cb \<and> length cb \<le> 1"
proof -
  have hl: "s_historyLimit (logged_write rt o1 j w s) = s_historyLimit s" for o1 j w
    by (auto simp: logged_write_def logStorageWriteFailure_def logError_def Let_def
        split: prod.split option.split)
  from assms obtain retr where r: "rp_Retrier (j_RetryPolicy job) = Some retr"
    by (auto simp: execute_def exec_run_def Let_def split: option.splits)
  with assms obtain errs rr tr where
    d: "DoWithContext rt (ee_do env) retr (Some (exec_attempts env job))
       (buildTemporaryErrors retr (j_RetryPolicy job)) = Ret (errs, rr, tr)"
    by (auto simp: execute_def exec_run_def Let_def res_bind_eq_Ret)
  define p0 where "p0 = exec_payload rt env job scheduledAt errs (exec_snapshot
      (fold (exec_effect env job) (calls tr) \<lparr>x_attempts = 0, x_lastStatus = 0, x_lastBody = []\<rparr>))"
  define s3 where "s3 = recordExecutionResult rt ops c (ee_clock_result env) (j_ID job) p0
      (fold (exec_logs rt env job) (calls tr) (markExecutionStart rt ops c (ee_clock_start env) (j_ID job) s))"
  obtain sent0 s4 where sc: "sendCallback rt (ee_marshal env) (ee_callback env) job p0 s3 = (sent0, s4)"
    by fastforce
  have "execute rt ops env c job scheduledAt s =
      Ret (p0, rr, concat (map (exec_request env job) (calls tr)) @ sent0, s4)"
    using r d sc by (simp add: execute_def exec_run_def Let_def flip: p0_def s3_def)
  with assms have eq: "payload = p0" "retr' = rr" "s' = s4"
    "sent = concat (map (exec_request env job) (calls tr)) @ sent0" by auto
  have cb: "length sent0 \<le> 1" using sc sendCallback_sent [of rt "ee_marshal env" "ee_callback env" job p0 s3] by simp
  have "s_jobsStorage s4 = s_jobsStorage s3" using sendCallback_storage sc by (metis snd_conv)
  then have "s_jobsStorage s4 = snd (RecordExecutionResult ops c (ee_clock_result env) (j_ID job) p0
      (s_historyLimit s) (snd (MarkExecutionStart ops c (ee_clock_start env) (j_ID job) (s_jobsStorage s))))"
    by (simp add: s3_def recordExecutionResult_def markExecutionStart_def logged_write_eq hl)
  with that [OF r] d eq cb show ?thesis by (simp add: p0_def)
qed

text \<open>What the collected state is after attempts that were all delivered.\<close>

lemma fold_effects:
  assumes "\<And>i. ee_progress env i = Delivered"
  shows "x_attempts (fold (exec_effect env job) [0..<n] st) = x_attempts st + int n"
    and "ee_http env n = Responds code body ce \<Longrightarrow>
      x_lastStatus (fold (exec_effect env job) [0..<Suc n] st) = code \<and>
      x_lastBody (fold (exec_effect env job) [0..<Suc n] st) =
        fst (readBody body (cb_URL (j_Callback job) \<noteq> '''') (cb_MaxBodyBytes (j_Callback job)))"
proof -
  have one: "x_attempts (exec_effect env job i st) = x_attempts st + 1" for i st
    by (simp add: exec_effect_def assms attempt_state_def incrementAttempts_def setLastResponse_def
        Let_def split: http_outcome.split)
  show "x_attempts (fold (exec_effect env job) [0..<n] st) = x_attempts st + int n"
    by (induction n) (simp_all add: one)
  show "ee_http env n = Responds code body ce \<Longrightarrow>
      x_lastStatus (fold (exec_effect env job) [0..<Suc n] st) = code \<and>
      x_lastBody (fold (exec_effect env job) [0..<Suc n] st) =
        fst (readBody body (cb_URL (j_Callback job) \<noteq> '''') (cb_MaxBodyBytes (j_Callback job)))"
    by (simp add: exec_effect_def assms attempt_state_def setLastResponse_def Let_def)
qed

lemma attempt_error_None:
  "attempt_error job out = None \<longleftrightarrow> (\<exists>code body ce. out = Responds code body ce \<and> 200 \<le> code \<and> code < 300)"
  by (auto simp: attempt_error_def split: http_outcome.split)


lemma execute_returns:
  assumes "rp_Retrier (j_RetryPolicy job) = Some retr"
    and "DoWithContext rt (ee_do env) retr (Some (exec_attempts env job))
           (buildTemporaryErrors retr (j_RetryPolicy job)) = Ret (errs, retr', tr)"
  shows "\<exists>payload sent s'. execute rt ops env c job scheduledAt s = Ret (payload, retr', sent, s')"
  using assms by (simp add: execute_def exec_run_def Let_def split: prod.split)

definition demo_exec :: exec_env where
  "demo_exec = \<lparr>ee_do = demo_env, ee_obs = demo_attempts, ee_progress = (\<lambda>_. Delivered),
     ee_http = (\<lambda>i. if i = 0 then Responds 503 \<lparr>bs_data = ''busy'', bs_err = None\<rparr> None
                    else Responds 200 \<lparr>bs_data = ''ok'', bs_err = None\<rparr> None),
     ee_callback = DoFails ErrOperationFailed, ee_marshal = (\<lambda>_. Inr ''{}''), ee_started = 0,
     ee_finished = 900, ee_clock_start = (\<lambda>_. 0), ee_clock_result = (\<lambda>_. 900)\<rparr>"

definition demo_exec_job :: Job where
  "demo_exec_job = demo_job\<lparr>j_RetryPolicy := \<lparr>rp_Retrier = Some demo_retrier, rp_TemporaryErrors = [],
     rp_RetryStatusCodes = [503]\<rparr>\<rparr>"

lemma demo_delivers:
  "delivers (exec_attempts demo_exec demo_exec_job) (\<lambda>i. attempt_error demo_exec_job (ee_http demo_exec i))"
  by (simp add: delivers_def exec_attempts_def demo_exec_def demo_attempts_def)

lemma demo_execute:
  "\<exists>payload retr' sent s'. execute chain_runtime InMemoryJobsStorage demo_exec None demo_exec_job 0 s =
     Ret (payload, retr', sent, s')"
proof -
  have "rp_Retrier (j_RetryPolicy demo_exec_job) = Some demo_retrier" by (simp add: demo_exec_job_def)
  moreover have "ee_do demo_exec = demo_env" by (simp add: demo_exec_def)
  ultimately show ?thesis
    using DoWithContext_returns [OF demo_usable demo_delivers demo_awake] execute_returns by metis
qed


text \<open>
  Status codes of the policy. A response whose status is listed in \<open>RetryStatusCodes\<close> and is
  not a success makes the attempt fail with an error that the retrier retries, whatever temporary
  errors the policy and the registry hold.
\<close>

lemma status_retried:
  assumes "error_matching rt" and "code \<in> set (rp_RetryStatusCodes (j_RetryPolicy job))"
    and "Registry retr = Some g" and "code < 200 \<or> 300 \<le> code"
  shows "\<exists>e. attempt_error job (Responds code body ce) = Some e \<and>
    shouldRetry rt retr e (buildTemporaryErrors retr (j_RetryPolicy job)) = Ret True"
  using policy_status_retried [OF assms(1-3)] assms(2,4)
  by (auto simp: attempt_error_def isRetryableStatus_def)

lemma update_rel_result:
  assumes "update_rel (result_rel now p limit) jid a a'" and "as_status a jid = Some e"
  shows "\<exists>e'. as_status a' jid = Some e' \<and> st_LastRun (e_status e') = Some p \<and>
    e_lastSequence e' = e_lastSequence e + 1 \<and>
    e_activeRuns e' = (if e_activeRuns e > 0 then e_activeRuns e - 1 else e_activeRuns e)"
  using assms by (auto simp: result_rel_def result_entry_def Let_def elim!: update_rel.cases)

lemma update_rel_start:
  assumes "update_rel (start_rel now) jid a a'" and "as_status a jid = Some e"
  shows "\<exists>e'. as_status a' jid = Some e' \<and> e_activeRuns e' = e_activeRuns e + 1 \<and>
    e_lastSequence e' = e_lastSequence e"
  using assms by (auto simp: start_rel_def start_entry_def elim!: update_rel.cases)

text \<open>
  (C10) Bookkeeping of an execution. On a storage that does not fail, an execution of a job that has
  a status leaves the number of active runs as it was, adds one run, and stores the payload as the
  last run; registered jobs are not touched.
\<close>

theorem execute_records:
  assumes "reliable_jobs_store ops ab inv1 okid okpay reliable" and "inv1 (s_jobsStorage s)"
    and "reliable c (s_jobsStorage s)" and "okpay payload"
    and "execute rt ops env c job scheduledAt s = Ret (payload, retr', sent, s')"
    and "as_status (ab (s_jobsStorage s)) (j_ID job) = Some e" and "0 \<le> e_activeRuns e"
  shows "inv1 (s_jobsStorage s') \<and> as_jobs (ab (s_jobsStorage s')) = as_jobs (ab (s_jobsStorage s)) \<and>
    (\<exists>e'. as_status (ab (s_jobsStorage s')) (j_ID job) = Some e' \<and>
       e_activeRuns e' = e_activeRuns e \<and> e_lastSequence e' = e_lastSequence e + 1 \<and>
       st_LastRun (e_status e') = Some payload)"
  using assms(5)
proof (cases rule: executeE)
  case (1 retr errs tr)
  have js: "jobs_store ops ab inv1 okid okpay" using assms(1) by (simp add: reliable_jobs_store_def)
  obtain r1 st1 where m: "MarkExecutionStart ops c (ee_clock_start env) (j_ID job) (s_jobsStorage s) = (r1, st1)"
    by fastforce
  from reliable_jobs_store.rel_start [OF assms(1-3) m] jobs_store.start [OF js assms(2) m]
  have st1: "inv1 st1" "reliable c st1"
    "update_rel (start_rel (ee_clock_start env)) (j_ID job) (ab (s_jobsStorage s)) (ab st1)" by auto
  obtain r2 st2 where r: "RecordExecutionResult ops c (ee_clock_result env) (j_ID job) payload
      (s_historyLimit s) st1 = (r2, st2)" by fastforce
  from reliable_jobs_store.rel_result [OF assms(1) st1(1,2) assms(4) r] jobs_store.result [OF js st1(1) assms(4) r]
  have st2: "inv1 st2"
    "update_rel (result_rel (ee_clock_result env) payload (s_historyLimit s)) (j_ID job) (ab st1) (ab st2)" by auto
  have "s_jobsStorage s' = st2" using 1(4) m r by simp
  moreover from update_rel_start [OF st1(3) assms(6)] obtain e1 where
    e1: "as_status (ab st1) (j_ID job) = Some e1" "e_activeRuns e1 = e_activeRuns e + 1"
      "e_lastSequence e1 = e_lastSequence e" by blast
  ultimately show ?thesis
    using update_rel_result [OF st2(2) e1(1)] st2(1) e1 assms(7)
      update_rel_jobs [OF st2(2)] update_rel_jobs [OF st1(3)] by auto
qed

theorem execute_records_witness:
  "\<exists>s e. as_status (mem_abs (s_jobsStorage s)) ''a'' = Some e \<and>
     (\<exists>payload retr' sent s' e'. execute chain_runtime InMemoryJobsStorage demo_exec None demo_exec_job 0 s =
        Ret (payload, retr', sent, s') \<and> as_status (mem_abs (s_jobsStorage s')) ''a'' = Some e' \<and>
        e_lastSequence e' = e_lastSequence e + 1 \<and> st_LastRun (e_status e') = Some payload)"
proof -
  let ?s = "demo_sched\<lparr>s_jobsStorage := run_ops InMemoryJobsStorage demo_ops NewInMemoryJobsStorage\<rparr>"
  have i: "mem_invar (s_jobsStorage ?s)" using mem_run_invar [OF demo_ops_ok] by simp
  have id: "j_ID demo_exec_job = ''a''" by (simp add: demo_exec_job_def demo_job_def)
  have "\<exists>e. as_status (mem_abs (s_jobsStorage ?s)) ''a'' = Some e \<and> 0 \<le> e_activeRuns e"
    by (simp add: run_demo mem_abs_def)
  then obtain e where e: "as_status (mem_abs (s_jobsStorage ?s)) ''a'' = Some e" "0 \<le> e_activeRuns e" by blast
  from demo_execute [of ?s] obtain payload retr' sent s' where
    x: "execute chain_runtime InMemoryJobsStorage demo_exec None demo_exec_job 0 ?s = Ret (payload, retr', sent, s')"
    by blast
  from execute_records [OF mem.reliable_jobs_store_axioms i TrueI TrueI x] e x id show ?thesis by fastforce
qed

end
