(* ===== verification/Scheduler_Run.thy ===== *)
theory Scheduler_Run
  imports Scheduler_Execute Pool_Sharing
begin

text \<open>
  The goroutines of the scheduler: the loop \<open>runJob\<close> of every job, the executions it starts through
  \<open>enqueue\<close>, and the client calls that interleave with them, as a step relation on the scheduler,
  the job loops, the executions and the timer pools of the jobs' retriers. The semaphore and the wait
  groups are counted; the deferred calls of \<open>runJob\<close> are the steps at its end, in their order.

  All executions of a job call \<open>DoWithContext\<close> on one retrier, and jobs may be given the same
  one; the calls share its timer pool. An execution in its call has a position of \<open>Pool_Sharing\<close>
  and takes timers from and returns them to the pool of its retrier, where it can block. What the
  attempts and waits of one call observe is fixed when the call begins: the environment of
  \<open>exec_run\<close>, under which the call returns when it has its timers. The call's positions follow the
  attempts that it makes in that environment. Which of the pooled timers it gets does not matter
  for its result, because every timer is reset when it is taken.
\<close>

section \<open>Positions\<close>

text \<open>
  A job loop is before its start time, waits for it, is at the top of the loop after so many runs,
  is about to enqueue a run (scheduled at the given time), waits for the next tick, or is on its
  way out with the terminal state it will record: waiting for its executions, recording the
  state, cleaning up, finished.
\<close>

datatype job_pc =
    JStart
  | JWaitStart
  | JLoop int
  | JEnqueue int instant
  | JTick int
  | JDrain JobState
  | JFinalize JobState
  | JCleanup
  | JDone

text \<open>
  A job goroutine: its entry, the error of the context given to \<open>Schedule\<close> once that is done, its
  position, its wait group of executions, how many runs it has enqueued so far, and which retrier
  it has (the identity behind the pointer).
\<close>

record proc =
  p_entry :: jobEntry
  p_parent :: ctx
  p_pc :: job_pc
  p_active :: nat
  p_enqueued :: int
  p_pool :: nat

text \<open>
  An execution: started for a run scheduled at the given time, about to call \<open>DoWithContext\<close>, at a
  position of that call, about to record its payload, about to send the callback, back from
  \<open>execute\<close>, without its slot of the semaphore, and without its place in the wait group of its job.
\<close>

datatype exec_pc =
    EQueued instant
  | ECall instant
  | EAttempts instant exec_env caller
  | EReport CallbackPayload
  | ECallback CallbackPayload
  | EReturned
  | EReleased
  | ELeaving

text \<open>The executions carry the number of their job goroutine; the pools belong to the retriers.\<close>

record 's system =
  y_sched :: "'s Scheduler"
  y_procs :: "proc list"
  y_execs :: "(nat \<times> exec_pc) list"
  y_pools :: "nat \<Rightarrow> timer_pool"

definition job_ctx :: "'s Scheduler \<Rightarrow> proc \<Rightarrow> ctx" where
  "job_ctx s p =
     (case p_parent p of
        Some e \<Rightarrow> Some e
      | None \<Rightarrow> if je_ptr (p_entry p) \<in> s_canceled s then Some ctx_Canceled else None)"

section \<open>The loop of a job\<close>

definition max_runs_reached :: "Schedule \<Rightarrow> int \<Rightarrow> bool" where
  "max_runs_reached sc runs \<longleftrightarrow> sc_MaxRuns sc > 0 \<and> runs \<ge> sc_MaxRuns sc"

definition end_passed :: "Schedule \<Rightarrow> instant \<Rightarrow> bool" where
  "end_passed sc now = (case sc_EndAt sc of None \<Rightarrow> False | Some t \<Rightarrow> now > t)"

text \<open>
  \<open>waitUntil\<close>: whether the start time has come. The first rules are its two exits and the start
  without a start time.
\<close>

inductive job_step ::
  "runtime \<Rightarrow> 's JobsStorage \<Rightarrow> proc \<Rightarrow> 's Scheduler \<Rightarrow> proc \<Rightarrow> 's Scheduler \<Rightarrow> bool" for rt ops where
  start_now: "p_pc p = JStart \<Longrightarrow>
    (case sc_StartAt (j_Schedule (je_job (p_entry p))) of None \<Rightarrow> True | Some t \<Rightarrow> t - now \<le> 0) \<Longrightarrow>
    job_step rt ops p s (p\<lparr>p_pc := JLoop 0\<rparr>) s"
| start_wait: "p_pc p = JStart \<Longrightarrow> sc_StartAt (j_Schedule (je_job (p_entry p))) = Some t \<Longrightarrow> t - now > 0 \<Longrightarrow>
    job_step rt ops p s (p\<lparr>p_pc := JWaitStart\<rparr>) s"
| start_due: "p_pc p = JWaitStart \<Longrightarrow> job_step rt ops p s (p\<lparr>p_pc := JLoop 0\<rparr>) s"
| start_canceled: "p_pc p = JWaitStart \<Longrightarrow> job_ctx s p \<noteq> None \<Longrightarrow>
    contextTerminalState ops (job_ctx s p) (j_ID (je_job (p_entry p))) s = (st, s') \<Longrightarrow>
    job_step rt ops p s (p\<lparr>p_pc := JDrain st\<rparr>) s'"
| loop_canceled: "p_pc p = JLoop runs \<Longrightarrow> job_ctx s p \<noteq> None \<Longrightarrow>
    contextTerminalState ops (job_ctx s p) (j_ID (je_job (p_entry p))) s = (st, s') \<Longrightarrow>
    job_step rt ops p s (p\<lparr>p_pc := JDrain st\<rparr>) s'"
| loop_max: "p_pc p = JLoop runs \<Longrightarrow> job_ctx s p = None \<Longrightarrow>
    max_runs_reached (j_Schedule (je_job (p_entry p))) runs \<Longrightarrow>
    job_step rt ops p s (p\<lparr>p_pc := JDrain JobStateCompleted\<rparr>) s"
| loop_end: "p_pc p = JLoop runs \<Longrightarrow> job_ctx s p = None \<Longrightarrow>
    \<not> max_runs_reached (j_Schedule (je_job (p_entry p))) runs \<Longrightarrow>
    end_passed (j_Schedule (je_job (p_entry p))) now \<Longrightarrow>
    job_step rt ops p s (p\<lparr>p_pc := JDrain JobStateCompleted\<rparr>) s"
| loop_run: "p_pc p = JLoop runs \<Longrightarrow> job_ctx s p = None \<Longrightarrow>
    \<not> max_runs_reached (j_Schedule (je_job (p_entry p))) runs \<Longrightarrow>
    \<not> end_passed (j_Schedule (je_job (p_entry p))) now \<Longrightarrow> now \<le> scheduledAt \<Longrightarrow>
    job_step rt ops p s (p\<lparr>p_pc := JEnqueue (runs + 1) scheduledAt\<rparr>) s"
| tick_done: "p_pc p = JTick runs \<Longrightarrow> job_ctx s p \<noteq> None \<Longrightarrow>
    job_step rt ops p s (p\<lparr>p_pc := JDrain JobStateCompleted\<rparr>) s"
| tick: "p_pc p = JTick runs \<Longrightarrow> job_step rt ops p s (p\<lparr>p_pc := JLoop runs\<rparr>) s"
| drained: "p_pc p = JDrain st \<Longrightarrow> p_active p = 0 \<Longrightarrow> job_step rt ops p s (p\<lparr>p_pc := JFinalize st\<rparr>) s"
| finalize: "p_pc p = JFinalize st \<Longrightarrow>
    job_step rt ops p s (p\<lparr>p_pc := JCleanup\<rparr>)
      (finalizeJobState rt ops (job_ctx s p) now (j_ID (je_job (p_entry p))) st s)"
| cleanup: "p_pc p = JCleanup \<Longrightarrow> s' = cleanupJob ops (job_ctx s p) (p_entry p) s \<Longrightarrow>
    job_step rt ops p s (p\<lparr>p_pc := JDone\<rparr>) (s'\<lparr>s_wg := s_wg s' - 1\<rparr>)"

inductive_cases job_stepE: "job_step rt ops p s p' s'"

section \<open>The calls on the retriers\<close>

abbreviation job_retrier :: "proc \<Rightarrow> retrier option" where
  "job_retrier p \<equiv> rp_Retrier (j_RetryPolicy (je_job (p_entry p)))"

text \<open>How often a call may retry.\<close>

definition call_limit :: "proc \<Rightarrow> nat" where
  "call_limit p = (case job_retrier p of None \<Rightarrow> 0 | Some r \<Rightarrow> nat (MaxRetries r))"

text \<open>What the call of an execution does in its environment, if it returns there.\<close>

definition call_trace :: "runtime \<Rightarrow> exec_env \<Rightarrow> Job \<Rightarrow> event list option" where
  "call_trace rt env job =
     (case rp_Retrier (j_RetryPolicy job) of
        None \<Rightarrow> None
      | Some retr \<Rightarrow>
          (case DoWithContext rt (ee_do env) retr (Some (exec_attempts env job))
                  (buildTemporaryErrors retr (j_RetryPolicy job)) of
             Ret (errs, retr', tr) \<Rightarrow> Some tr
           | _ \<Rightarrow> None))"

text \<open>
  Which steps belong to a call that makes \<open>n\<close> attempts: it leaves after the last one, or after a
  wait that was cut short, and it resumes from the waits before.
\<close>

fun follows_plan :: "nat \<Rightarrow> caller \<Rightarrow> caller \<Rightarrow> bool" where
  "follows_plan n (Running k t) (Leaving t') = (Suc k = n)"
| "follows_plan n (Waiting k t w) (Leaving t') = (Suc k = n)"
| "follows_plan n (Waiting k t w) (Running j t') = (Suc k < n)"
| "follows_plan n c c' = True"

text \<open>
  The pool of a retrier before its first call under the scheduler: the one it has, or the one that
  \<open>ensureInitialized\<close> makes. The last two cases are those of a retrier whose calls panic.
\<close>

definition no_pool :: timer_pool where
  "no_pool = \<lparr>tp_ch = [], tp_cap = 0, tp_duration = 0, tp_closed = False\<rparr>"

definition initial_pool :: "runtime \<Rightarrow> instant \<Rightarrow> jobEntry \<Rightarrow> timer_pool" where
  "initial_pool rt now entry =
     (case rp_Retrier (j_RetryPolicy (je_job entry)) of
        None \<Rightarrow> no_pool
      | Some r \<Rightarrow>
          (case ensureInitialized rt now r of
             Ret r' \<Rightarrow> (case timer r' of Some pool \<Rightarrow> pool | None \<Rightarrow> no_pool)
           | _ \<Rightarrow> no_pool))"

section \<open>An execution\<close>

text \<open>
  The phases of \<open>execute\<close> are steps of their own, so that other goroutines may run between them. A
  call that makes no attempt, because the retrier does not validate, takes no timer.
\<close>

inductive exec_step ::
  "runtime \<Rightarrow> 's JobsStorage \<Rightarrow> proc \<Rightarrow> exec_pc \<Rightarrow> 's Scheduler \<Rightarrow> exec_pc \<Rightarrow> 's Scheduler \<Rightarrow> bool" for rt ops where
  ex_begin: "exec_step rt ops p (EQueued t) s (ECall t)
    (markExecutionStart rt ops (job_ctx s p) now (j_ID (je_job (p_entry p))) s)"
| ex_call: "call_trace rt env (je_job (p_entry p)) = Some tr \<Longrightarrow>
    exec_step rt ops p (ECall t) s (EAttempts t env (if calls tr = [] then Done else Start)) s"
| ex_attempts: "exec_run rt env (je_job (p_entry p)) t s = Ret (payload, retr', requests, s') \<Longrightarrow>
    exec_step rt ops p (EAttempts t env Done) s (EReport payload) s'"
| ex_report: "exec_step rt ops p (EReport payload) s (ECallback payload)
    (recordExecutionResult rt ops (job_ctx s p) now (j_ID (je_job (p_entry p))) payload s)"
| ex_callback: "sendCallback rt m out (je_job (p_entry p)) payload s = (sent, s') \<Longrightarrow>
    exec_step rt ops p (ECallback payload) s EReturned s'"

section \<open>The whole system\<close>

text \<open>A slot of the semaphore is free; without a semaphore there is always one.\<close>

fun holds_slot :: "exec_pc \<Rightarrow> bool" where
  "holds_slot EReleased = False"
| "holds_slot ELeaving = False"
| "holds_slot pc = True"

definition slot_free :: "'s system \<Rightarrow> bool" where
  "slot_free y =
     (case s_sem (y_sched y) of
        None \<Rightarrow> True
      | Some n \<Rightarrow> int (length (filter (\<lambda>x. holds_slot (snd x)) (y_execs y))) < n)"

definition new_proc :: "jobEntry \<Rightarrow> ctx \<Rightarrow> nat \<Rightarrow> proc" where
  "new_proc entry c k =
     \<lparr>p_entry = entry, p_parent = c, p_pc = JStart, p_active = 0, p_enqueued = 0, p_pool = k\<rparr>"

text \<open>
  The steps of goroutines that already run. \<open>enqueue\<close> takes a slot and starts an execution. An
  execution in its call takes a step of \<open>share_step\<close> on the pool of its retrier. The deferred calls
  of the execution's goroutine give the slot back, then its place in the job's wait group, then its
  place in the scheduler's.
\<close>

inductive inner_step :: "runtime \<Rightarrow> 's JobsStorage \<Rightarrow> 's system \<Rightarrow> 's system \<Rightarrow> bool" for rt ops where
  in_job: "i < length (y_procs y) \<Longrightarrow> job_step rt ops (y_procs y ! i) (y_sched y) p' s' \<Longrightarrow>
    inner_step rt ops y (y\<lparr>y_sched := s', y_procs := (y_procs y)[i := p']\<rparr>)"
| in_enqueue: "i < length (y_procs y) \<Longrightarrow> y_procs y ! i = p \<Longrightarrow> p_pc p = JEnqueue runs t \<Longrightarrow> slot_free y \<Longrightarrow>
    inner_step rt ops y (y\<lparr>y_sched := (y_sched y)\<lparr>s_wg := s_wg (y_sched y) + 1\<rparr>,
      y_procs := (y_procs y)[i := p\<lparr>p_pc := JTick runs, p_active := Suc (p_active p),
                                     p_enqueued := p_enqueued p + 1\<rparr>],
      y_execs := y_execs y @ [(i, EQueued t)]\<rparr>)"
| in_exec: "k < length (y_execs y) \<Longrightarrow> y_execs y ! k = (i, pc) \<Longrightarrow> i < length (y_procs y) \<Longrightarrow>
    exec_step rt ops (y_procs y ! i) pc (y_sched y) pc' s' \<Longrightarrow>
    inner_step rt ops y (y\<lparr>y_sched := s', y_execs := (y_execs y)[k := (i, pc')]\<rparr>)"
| in_call: "k < length (y_execs y) \<Longrightarrow> y_execs y ! k = (i, EAttempts t env c) \<Longrightarrow> i < length (y_procs y) \<Longrightarrow>
    y_procs y ! i = p \<Longrightarrow> call_trace rt env (je_job (p_entry p)) = Some tr \<Longrightarrow>
    share_step (call_limit p) (y_pools y (p_pool p), [c]) (pool', [c']) \<Longrightarrow>
    follows_plan (length (calls tr)) c c' \<Longrightarrow>
    inner_step rt ops y (y\<lparr>y_execs := (y_execs y)[k := (i, EAttempts t env c')],
      y_pools := (y_pools y)(p_pool p := pool')\<rparr>)"
| in_release: "k < length (y_execs y) \<Longrightarrow> y_execs y ! k = (i, EReturned) \<Longrightarrow>
    inner_step rt ops y (y\<lparr>y_execs := (y_execs y)[k := (i, EReleased)]\<rparr>)"
| in_runs_done: "k < length (y_execs y) \<Longrightarrow> y_execs y ! k = (i, EReleased) \<Longrightarrow> i < length (y_procs y) \<Longrightarrow>
    y_procs y ! i = p \<Longrightarrow>
    inner_step rt ops y (y\<lparr>y_procs := (y_procs y)[i := p\<lparr>p_active := p_active p - 1\<rparr>],
      y_execs := (y_execs y)[k := (i, ELeaving)]\<rparr>)"
| in_leave: "k < length (y_execs y) \<Longrightarrow> y_execs y ! k = (i, ELeaving) \<Longrightarrow>
    inner_step rt ops y (y\<lparr>y_sched := (y_sched y)\<lparr>s_wg := s_wg (y_sched y) - 1\<rparr>,
      y_execs := take k (y_execs y) @ drop (Suc k) (y_execs y)\<rparr>)"

text \<open>
  Which retrier a new job has: one that no job had before, with its initial pool, or the one of
  earlier jobs, if the client passed that, with the pool they share.
\<close>

definition retrier_choice :: "'s system \<Rightarrow> Job \<Rightarrow> jobEntry \<Rightarrow> nat \<Rightarrow> bool" where
  "retrier_choice y job entry k \<longleftrightarrow>
     k \<notin> p_pool ` set (y_procs y) \<or>
     rp_Retrier (j_RetryPolicy job) \<noteq> None \<and>
     (\<forall>q \<in> set (y_procs y). p_pool q = k \<longrightarrow> job_retrier q = rp_Retrier (j_RetryPolicy (je_job entry)))"

definition assign_pool :: "runtime \<Rightarrow> instant \<Rightarrow> 's system \<Rightarrow> jobEntry \<Rightarrow> nat \<Rightarrow> nat \<Rightarrow> timer_pool" where
  "assign_pool rt now y entry k =
     (if k \<in> p_pool ` set (y_procs y) then y_pools y else (y_pools y)(k := initial_pool rt now entry))"

text \<open>The calls of clients, and a context that is cancelled from outside.\<close>

inductive client_step :: "runtime \<Rightarrow> 's JobsStorage \<Rightarrow> 's system \<Rightarrow> 's system \<Rightarrow> bool" for rt ops where
  cl_schedule: "sched_Schedule rt ops c t now job (y_sched y) = Ret (Inr jid, s') \<Longrightarrow>
    last (s_spawned s') = entry \<Longrightarrow> retrier_choice y job entry k \<Longrightarrow>
    client_step rt ops y (y\<lparr>y_sched := s', y_procs := y_procs y @ [new_proc entry c k],
      y_pools := assign_pool rt t y entry k\<rparr>)"
| cl_refused: "sched_Schedule rt ops c t now job (y_sched y) = Ret (Inl e, s') \<Longrightarrow>
    client_step rt ops y (y\<lparr>y_sched := s'\<rparr>)"
| cl_remove: "sched_Remove rt ops c now jid (y_sched y) = (b, s') \<Longrightarrow> client_step rt ops y (y\<lparr>y_sched := s'\<rparr>)"
| cl_stop: "client_step rt ops y (y\<lparr>y_sched := sched_Stop rt ops c now (y_sched y)\<rparr>)"
| cl_cancel: "i < length (y_procs y) \<Longrightarrow> p_parent (y_procs y ! i) = None \<Longrightarrow>
    client_step rt ops y (y\<lparr>y_procs := (y_procs y)[i := (y_procs y ! i)\<lparr>p_parent := Some e\<rparr>]\<rparr>)"

definition sys_step :: "runtime \<Rightarrow> 's JobsStorage \<Rightarrow> 's system \<Rightarrow> 's system \<Rightarrow> bool" where
  "sys_step rt ops y y' \<longleftrightarrow> inner_step rt ops y y' \<or> client_step rt ops y y'"

text \<open>A new scheduler, before any job is scheduled.\<close>

definition boot :: "'s Scheduler \<Rightarrow> 's system" where
  "boot s = \<lparr>y_sched = s, y_procs = [], y_execs = [], y_pools = (\<lambda>_. no_pool)\<rparr>"

end
