(* ===== verification/Scheduler_Invariants.thy ===== *)
theory Scheduler_Invariants
  imports Scheduler_Run
begin

text \<open>
  The invariants of the running scheduler: what bookkeeping leaves alone, how often each job has
  run, which executions hold a slot, what the wait groups count, and that a job goroutine that has
  not ended is either registered or cancelled. They hold in every state that the goroutines and
  the client calls reach, for any storage.
\<close>

section \<open>Counting elements\<close>

definition cnt :: "('a \<Rightarrow> bool) \<Rightarrow> 'a list \<Rightarrow> nat" where
  "cnt P xs = length (filter P xs)"

lemma cnt_simps [simp]: "cnt P [] = 0" "cnt P (xs @ ys) = cnt P xs + cnt P ys"
  "cnt P (x # xs) = (if P x then 1 else 0) + cnt P xs"
  by (simp_all add: cnt_def)

lemma cnt_update:
  assumes "k < length xs"
  shows "cnt P (xs[k := x]) + (if P (xs ! k) then 1 else 0) = cnt P xs + (if P x then 1 else 0)"
proof -
  have "cnt P (take k xs @ [xs ! k] @ drop (Suc k) xs) = cnt P xs"
    using assms by (simp add: id_take_nth_drop [symmetric])
  then have "cnt P xs = cnt P (take k xs) + (if P (xs ! k) then 1 else 0) + cnt P (drop (Suc k) xs)"
    by simp
  moreover have "cnt P (xs[k := x]) = cnt P (take k xs) + (if P x then 1 else 0) + cnt P (drop (Suc k) xs)"
    using assms by (simp add: upd_conv_take_nth_drop cnt_def)
  ultimately show ?thesis by simp
qed

lemma cnt_remove:
  assumes "k < length xs"
  shows "cnt P xs = cnt P (take k xs @ drop (Suc k) xs) + (if P (xs ! k) then 1 else 0)"
proof -
  have "cnt P (take k xs @ [xs ! k] @ drop (Suc k) xs) = cnt P xs"
    using assms by (simp add: id_take_nth_drop [symmetric])
  then show ?thesis by simp
qed

lemma cnt_pos: "0 < cnt P xs \<longleftrightarrow> (\<exists>x \<in> set xs. P x)"
  by (induction xs) (auto simp: cnt_def)

lemma set_update_memI: "x \<in> set (xs[i := y]) \<Longrightarrow> x = y \<or> x \<in> set xs"
  by (meson insertE set_update_subset_insert subsetD)

section \<open>What the operations leave alone\<close>

text \<open>The semaphore, the wait group and the cancelled contexts are not touched by bookkeeping.\<close>

definition same_core :: "'s Scheduler \<Rightarrow> 's Scheduler \<Rightarrow> bool" where
  "same_core s s' \<longleftrightarrow> s_sem s' = s_sem s \<and> s_wg s' = s_wg s \<and> s_canceled s' = s_canceled s \<and>
     s_spawned s' = s_spawned s \<and> s_stopped s' = s_stopped s \<and> s_nextPtr s' = s_nextPtr s"

lemma same_core_refl [simp]: "same_core s s"
  by (simp add: same_core_def)

lemma same_core_trans: "same_core s s' \<Longrightarrow> same_core s' s'' \<Longrightarrow> same_core s s''"
  by (simp add: same_core_def)

lemma same_core_log [simp]: "same_core s (logError rt m e s)"
  by (simp add: same_core_def logError_def)

lemma same_core_write [simp]: "same_core s (logged_write rt o1 jid w s)"
  by (auto simp: same_core_def logged_write_def logStorageWriteFailure_def logError_def Let_def
      split: prod.split option.split)

lemma same_core_delete [simp]: "same_core s (dropped_delete ops c jid s)"
  by (simp add: same_core_def dropped_delete_def)

lemma jobs_write [simp]: "s_jobs (logged_write rt o1 jid w s) = s_jobs s"
  by (rule logged_write_eq)

lemma sendCallback_core:
  "sendCallback rt m out job p s = (sent, s') \<Longrightarrow> same_core s s' \<and> s_jobs s' = s_jobs s"
  by (auto simp: sendCallback_def Let_def same_core_def logError_def
      split: sum.split_asm http_outcome.split_asm if_split_asm)

lemma contextTerminalState_core:
  "contextTerminalState ops c jid s = (st, s') \<Longrightarrow> same_core s s' \<and> s_jobs s' = s_jobs s"
  by (auto simp: contextTerminalState_def Let_def same_core_def split: prod.split_asm if_split_asm)

lemma cleanupJob_core: "same_core s (cleanupJob ops c entry s)"
  by (auto simp: cleanupJob_def Let_def same_core_def dropped_delete_def split: option.split)

lemma job_ctx_core: "same_core s s' \<Longrightarrow> job_ctx s' p = job_ctx s p"
  by (simp add: job_ctx_def same_core_def)

lemma job_step_core:
  assumes "job_step rt ops p s p' s'"
  shows "p_entry p' = p_entry p \<and> p_pool p' = p_pool p \<and> p_parent p' = p_parent p \<and> p_active p' = p_active p \<and>
    p_enqueued p' = p_enqueued p \<and> s_sem s' = s_sem s \<and> s_canceled s' = s_canceled s \<and>
    s_stopped s' = s_stopped s \<and> s_nextPtr s' = s_nextPtr s \<and> s_wg s' = s_wg s - (if p_pc p' = JDone then 1 else 0) \<and> p_pc p \<noteq> JDone"
  using assms
proof (cases rule: job_step.cases)
  case (cleanup s1)
  with cleanupJob_core [of s ops "job_ctx s p" "p_entry p"] show ?thesis by (simp add: same_core_def)
qed (use contextTerminalState_core same_core_write in \<open>fastforce simp: same_core_def finalizeJobState_def\<close>)+


lemma fold_logs_core: "same_core s (fold (exec_logs rt env job) is s) \<and> s_jobs (fold (exec_logs rt env job) is s) = s_jobs s"
proof (induction "is" arbitrary: s)
  case (Cons i "is")
  have "same_core s (exec_logs rt env job i s) \<and> s_jobs (exec_logs rt env job i s) = s_jobs s"
    by (auto simp: exec_logs_def attempt_logs_def logError_def same_core_def split: http_outcome.split)
  with Cons [of "exec_logs rt env job i s"] same_core_trans show ?case by fastforce
qed simp

lemma exec_run_core:
  "exec_run rt env job t s = Ret (payload, retr', reqs, s') \<Longrightarrow> same_core s s' \<and> s_jobs s' = s_jobs s"
  using fold_logs_core by (fastforce simp: exec_run_def Let_def res_bind_eq_Ret split: option.splits)

lemma exec_step_core:
  assumes "exec_step rt ops p pc s pc' s'"
  shows "same_core s s' \<and> s_jobs s' = s_jobs s \<and> holds_slot pc \<and> holds_slot pc' \<and> pc' \<noteq> ELeaving"
  using assms
  by (cases rule: exec_step.cases)
    (auto simp: markExecutionStart_def recordExecutionResult_def dest: exec_run_core sendCallback_core)

section \<open>The invariant of the system\<close>

text \<open>A job goroutine has enqueued as many runs as its counter says, and at most \<open>MaxRuns\<close>.\<close>

definition runs_bound :: "proc \<Rightarrow> int \<Rightarrow> bool" where
  "runs_bound p n \<longleftrightarrow> 0 \<le> n \<and>
     (sc_MaxRuns (j_Schedule (je_job (p_entry p))) > 0 \<longrightarrow> n \<le> sc_MaxRuns (j_Schedule (je_job (p_entry p))))"

definition runs_ok :: "proc \<Rightarrow> bool" where
  "runs_ok p \<longleftrightarrow>
     (case p_pc p of
        JStart \<Rightarrow> p_enqueued p = 0
      | JWaitStart \<Rightarrow> p_enqueued p = 0
      | JLoop n \<Rightarrow> p_enqueued p = n \<and> runs_bound p n
      | JEnqueue n t \<Rightarrow> p_enqueued p = n - 1 \<and> 0 < n \<and> runs_bound p n
      | JTick n \<Rightarrow> p_enqueued p = n \<and> runs_bound p n
      | _ \<Rightarrow> runs_bound p (p_enqueued p))"

text \<open>Behind the wait for its executions.\<close>

fun past_drain :: "job_pc \<Rightarrow> bool" where
  "past_drain (JFinalize st) = True"
| "past_drain JCleanup = True"
| "past_drain JDone = True"
| "past_drain pc = False"

definition proc_ok :: "proc \<Rightarrow> bool" where
  "proc_ok p \<longleftrightarrow> runs_ok p \<and> (past_drain (p_pc p) \<longrightarrow> p_active p = 0)"

definition procs_ok :: "'s system \<Rightarrow> bool" where
  "procs_ok y \<longleftrightarrow> (\<forall>p \<in> set (y_procs y). proc_ok p)"

definition execs_of :: "nat \<Rightarrow> (nat \<times> exec_pc) list \<Rightarrow> nat" where
  "execs_of i es = cnt (\<lambda>x. fst x = i \<and> snd x \<noteq> ELeaving) es"

definition slots :: "(nat \<times> exec_pc) list \<Rightarrow> nat" where
  "slots es = cnt (\<lambda>x. holds_slot (snd x)) es"

definition running :: "proc list \<Rightarrow> nat" where
  "running ps = cnt (\<lambda>p. p_pc p \<noteq> JDone) ps"

definition execs_ok :: "'s system \<Rightarrow> bool" where
  "execs_ok y \<longleftrightarrow>
     (\<forall>x \<in> set (y_execs y). fst x < length (y_procs y)) \<and>
     (\<forall>i < length (y_procs y). p_active (y_procs y ! i) = execs_of i (y_execs y))"

definition slots_ok :: "'s system \<Rightarrow> bool" where
  "slots_ok y \<longleftrightarrow> (case s_sem (y_sched y) of None \<Rightarrow> True | Some n \<Rightarrow> 0 < n \<and> int (slots (y_execs y)) \<le> n)"

definition wg_ok :: "'s system \<Rightarrow> bool" where
  "wg_ok y \<longleftrightarrow> s_wg (y_sched y) = int (running (y_procs y)) + int (length (y_execs y))"

text \<open>Every job goroutine that has not ended is cancelled or registered under its identifier.\<close>

definition tracked :: "'s Scheduler \<Rightarrow> proc \<Rightarrow> bool" where
  "tracked s p \<longleftrightarrow> p_pc p = JDone \<or> je_ptr (p_entry p) \<in> s_canceled s \<or>
     map_of (s_jobs s) (j_ID (je_job (p_entry p))) = Some (p_entry p)"

definition links_ok :: "'s system \<Rightarrow> bool" where
  "links_ok y \<longleftrightarrow>
     distinct (map fst (s_jobs (y_sched y))) \<and>
     distinct (map (je_ptr \<circ> p_entry) (y_procs y)) \<and>
     (\<forall>p \<in> set (y_procs y). je_ptr (p_entry p) < s_nextPtr (y_sched y)) \<and>
     (\<forall>p \<in> set (y_procs y). tracked (y_sched y) p) \<and>
     (s_stopped (y_sched y) \<longrightarrow> s_jobs (y_sched y) = [])"

definition sys_inv :: "'s system \<Rightarrow> bool" where
  "sys_inv y \<longleftrightarrow> procs_ok y \<and> execs_ok y \<and> slots_ok y \<and> wg_ok y \<and> links_ok y"

section \<open>The steps of the goroutines keep it\<close>

lemma job_step_ok:
  assumes "job_step rt ops p s p' s'" and "proc_ok p"
  shows "proc_ok p'"
  using assms
  by (cases rule: job_step.cases)
    (auto simp: proc_ok_def runs_ok_def runs_bound_def max_runs_reached_def split: job_pc.splits)

lemma inner_procs_ok:
  assumes "inner_step rt ops y y'" and "procs_ok y"
  shows "procs_ok y'"
  using assms(1)
proof (cases rule: inner_step.cases)
  case (in_job i p' s')
  then have "proc_ok (y_procs y ! i)" using assms(2) by (simp add: procs_ok_def)
  from job_step_ok [OF in_job(3) this] assms(2) in_job(1) show ?thesis
    by (auto simp: procs_ok_def dest: set_update_memI)
next
  case (in_enqueue i p runs t)
  then have "proc_ok p" using assms(2) by (auto simp: procs_ok_def)
  then have "proc_ok (p\<lparr>p_pc := JTick runs, p_active := Suc (p_active p), p_enqueued := p_enqueued p + 1\<rparr>)"
    using in_enqueue(4) by (auto simp: proc_ok_def runs_ok_def runs_bound_def)
  with assms(2) in_enqueue(1) show ?thesis by (auto simp: procs_ok_def dest: set_update_memI)
next
  case (in_runs_done k i p)
  then have "proc_ok p" using assms(2) by (auto simp: procs_ok_def)
  then have "proc_ok (p\<lparr>p_active := p_active p - 1\<rparr>)"
    by (auto simp: proc_ok_def runs_ok_def runs_bound_def split: job_pc.splits)
  with assms(2) in_runs_done(1) show ?thesis by (auto simp: procs_ok_def dest: set_update_memI)
qed (use assms(2) in \<open>simp_all add: procs_ok_def\<close>)

lemma execs_of_update:
  assumes "k < length es" and "es ! k = (j, pc)" and "pc \<noteq> ELeaving"
  shows "execs_of i (es[k := (j, pc')]) + (if i = j \<and> pc' = ELeaving then 1 else 0) = execs_of i es"
  using cnt_update [OF assms(1), of "\<lambda>x. fst x = i \<and> snd x \<noteq> ELeaving" "(j, pc')"] assms(2,3)
  by (auto simp: execs_of_def split: if_splits)

lemma execs_of_remove:
  assumes "k < length es" and "es ! k = (j, ELeaving)"
  shows "execs_of i (take k es @ drop (Suc k) es) = execs_of i es"
  using cnt_remove [OF assms(1), of "\<lambda>x. fst x = i \<and> snd x \<noteq> ELeaving"] assms(2)
  by (simp add: execs_of_def)

lemma inner_execs_ok:
  assumes "inner_step rt ops y y'" and "execs_ok y"
  shows "execs_ok y'"
  using assms(1)
proof (cases rule: inner_step.cases)
  case (in_job i p' s')
  from job_step_core [OF in_job(3)] assms(2) in_job(1,2) show ?thesis
    by (auto simp: execs_ok_def nth_list_update)
next
  case (in_enqueue i p runs t)
  with assms(2) show ?thesis by (auto simp: execs_ok_def nth_list_update execs_of_def)
next
  case (in_exec k i pc pc' s')
  from exec_step_core [OF in_exec(5)] have "pc \<noteq> ELeaving" "pc' \<noteq> ELeaving" by auto
  with execs_of_update [OF in_exec(2,3), of _ pc'] assms(2) in_exec(1,4) show ?thesis
    by (auto simp: execs_ok_def dest: set_update_memI)
next
  case (in_call k i t env c p tr pool' c')
  with execs_of_update [OF in_call(2,3), of _ "EAttempts t env c'"] assms(2) show ?thesis
    by (auto simp: execs_ok_def dest: set_update_memI)
next
  case (in_release k i)
  then have "(i, EReturned) \<in> set (y_execs y)" by (metis nth_mem)
  then have "i < length (y_procs y)" using assms(2) by (auto simp: execs_ok_def)
  moreover have "execs_of j ((y_execs y)[k := (i, EReleased)]) = execs_of j (y_execs y)" for j
    using execs_of_update [OF in_release(2,3), of j EReleased] by simp
  ultimately show ?thesis using assms(2) in_release(1)
    by (auto simp: execs_ok_def dest!: set_update_memI)
next
  case (in_runs_done k i p)
  have "execs_of j ((y_execs y)[k := (i, ELeaving)]) = p_active (y_procs y ! j) - (if j = i then 1 else 0)"
    if "j < length (y_procs y)" for j
    using assms(2) that execs_of_update [OF in_runs_done(2,3), of j ELeaving]
    by (auto simp: execs_ok_def split: if_splits)
  with assms(2) in_runs_done(1,4,5) show ?thesis
    by (auto simp: execs_ok_def nth_list_update dest!: set_update_memI)
next
  case (in_leave k i)
  with assms(2) execs_of_remove [OF in_leave(2,3)] show ?thesis
    by (auto simp: execs_ok_def dest: in_set_takeD in_set_dropD)
qed

lemma slots_update:
  assumes "k < length es" and "es ! k = (j, pc)"
  shows "slots (es[k := (j, pc')]) + (if holds_slot pc then 1 else 0) =
         slots es + (if holds_slot pc' then 1 else 0)"
  using cnt_update [OF assms(1), of "\<lambda>x. holds_slot (snd x)" "(j, pc')"] assms(2) by (simp add: slots_def)

lemma inner_slots_ok:
  assumes "inner_step rt ops y y'" and "slots_ok y"
  shows "slots_ok y'"
  using assms(1)
proof (cases rule: inner_step.cases)
  case (in_job i p' s')
  from job_step_core [OF in_job(3)] assms(2) in_job(1) show ?thesis
    by (simp add: slots_ok_def split: option.splits)
next
  case (in_enqueue i p runs t)
  with assms(2) show ?thesis
    by (auto simp: slots_ok_def slots_def slot_free_def cnt_def split: option.splits)
next
  case (in_exec k i pc pc' s')
  note core = exec_step_core [OF in_exec(5)]
  then have "slots ((y_execs y)[k := (i, pc')]) = slots (y_execs y)"
    using slots_update [OF in_exec(2,3), of pc'] by simp
  with core assms(2) in_exec(1) show ?thesis by (simp add: slots_ok_def same_core_def split: option.splits)
next
  case (in_call k i t env c p tr pool' c')
  from slots_update [OF in_call(2,3), of "EAttempts t env c'"]
  have "slots ((y_execs y)[k := (i, EAttempts t env c')]) = slots (y_execs y)" by simp
  with assms(2) in_call(1) show ?thesis by (simp add: slots_ok_def split: option.splits)
next
  case (in_release k i)
  from slots_update [OF in_release(2,3), of EReleased]
  have "slots ((y_execs y)[k := (i, EReleased)]) \<le> slots (y_execs y)" by simp
  with assms(2) in_release(1) show ?thesis by (auto simp: slots_ok_def split: option.splits)
next
  case (in_runs_done k i p)
  from slots_update [OF in_runs_done(2,3), of ELeaving]
  have "slots ((y_execs y)[k := (i, ELeaving)]) = slots (y_execs y)" by simp
  with assms(2) in_runs_done(1) show ?thesis by (simp add: slots_ok_def split: option.splits)
next
  case (in_leave k i)
  have "slots (take k (y_execs y) @ drop (Suc k) (y_execs y)) = slots (y_execs y)"
    using cnt_remove [OF in_leave(2), of "\<lambda>x. holds_slot (snd x)"] in_leave(3) by (simp add: slots_def)
  with assms(2) in_leave(1) show ?thesis by (simp add: slots_ok_def split: option.splits)
qed

lemma inner_wg_ok:
  assumes "inner_step rt ops y y'" and "wg_ok y"
  shows "wg_ok y'"
  using assms(1)
proof (cases rule: inner_step.cases)
  case (in_job i p' s')
  note c = job_step_core [OF in_job(3)]
  with cnt_update [OF in_job(2), of "\<lambda>p. p_pc p \<noteq> JDone" p'] assms(2) in_job(1) show ?thesis
    by (auto simp: wg_ok_def running_def split: if_splits)
next
  case (in_enqueue i p runs t)
  with cnt_update [OF in_enqueue(2), of "\<lambda>p. p_pc p \<noteq> JDone"
      "p\<lparr>p_pc := JTick runs, p_active := Suc (p_active p), p_enqueued := p_enqueued p + 1\<rparr>"] assms(2)
  show ?thesis by (auto simp: wg_ok_def running_def)
next
  case (in_exec k i pc pc' s')
  from exec_step_core [OF in_exec(5)] assms(2) in_exec(1) show ?thesis by (simp add: wg_ok_def same_core_def)
next
  case (in_runs_done k i p)
  with cnt_update [OF in_runs_done(4), of "\<lambda>p. p_pc p \<noteq> JDone" "p\<lparr>p_active := p_active p - 1\<rparr>"] assms(2)
  show ?thesis by (auto simp: wg_ok_def running_def split: if_splits)
next
  case (in_leave k i)
  with assms(2) show ?thesis by (simp add: wg_ok_def)
qed (use assms(2) in \<open>simp_all add: wg_ok_def\<close>)

lemma job_step_jobs:
  assumes "job_step rt ops p s p' s'"
  shows "s_jobs s' = s_jobs s \<or>
    (p_pc p' = JDone \<and> s_jobs s' = AList.delete (j_ID (je_job (p_entry p))) (s_jobs s) \<and>
     (\<exists>cur. map_of (s_jobs s) (j_ID (je_job (p_entry p))) = Some cur \<and> je_ptr cur = je_ptr (p_entry p)))"
  using assms
proof (cases rule: job_step.cases)
  case (cleanup s1)
  then show ?thesis by (auto simp: cleanupJob_def dropped_delete_def Let_def split: option.splits)
qed (auto simp: finalizeJobState_def dest: contextTerminalState_core)

lemma entries_update:
  assumes "i < length ps" and "p_entry p' = p_entry (ps ! i)"
  shows "map (je_ptr \<circ> p_entry) (ps[i := p']) = map (je_ptr \<circ> p_entry) ps"
  using assms by (simp add: map_update) (metis comp_apply list_update_id map_update)

lemma distinct_entries:
  assumes "distinct (map (je_ptr \<circ> p_entry) ps)" and "i < length ps" and "j < length ps"
    and "je_ptr (p_entry (ps ! i)) = je_ptr (p_entry (ps ! j))"
  shows "i = j"
  using assms by (auto simp: distinct_conv_nth)

lemma tracked_cong:
  "s_jobs s' = s_jobs s \<Longrightarrow> s_canceled s' = s_canceled s \<Longrightarrow> tracked s' p = tracked s p"
  by (simp add: tracked_def)

lemma job_step_canceled: "job_step rt ops p s p' s' \<Longrightarrow> s_canceled s' = s_canceled s \<and> p_entry p' = p_entry p \<and> p_pc p \<noteq> JDone"
  using job_step_core by blast

lemma tracked_step:
  assumes "job_step rt ops p s p' s'" and "tracked s q" and "je_ptr (p_entry q) \<noteq> je_ptr (p_entry p)"
  shows "tracked s' q"
proof -
  note c = job_step_canceled [OF assms(1)]
  from job_step_jobs [OF assms(1)] show ?thesis
  proof
    assume "s_jobs s' = s_jobs s"
    with c assms(2) show ?thesis using tracked_cong by metis
  next
    assume "p_pc p' = JDone \<and> s_jobs s' = AList.delete (j_ID (je_job (p_entry p))) (s_jobs s) \<and>
      (\<exists>cur. map_of (s_jobs s) (j_ID (je_job (p_entry p))) = Some cur \<and> je_ptr cur = je_ptr (p_entry p))"
    then obtain cur where "s_jobs s' = AList.delete (j_ID (je_job (p_entry p))) (s_jobs s)"
      "map_of (s_jobs s) (j_ID (je_job (p_entry p))) = Some cur" "je_ptr cur = je_ptr (p_entry p)" by blast
    with c assms(2,3) show ?thesis by (auto simp: tracked_def delete_conv')
  qed
qed

lemma tracked_own:
  assumes "job_step rt ops p s p' s'" and "tracked s p"
  shows "tracked s' p'"
proof (cases "p_pc p' = JDone")
  case False
  with job_step_jobs [OF assms(1)] have "s_jobs s' = s_jobs s" by blast
  with job_step_canceled [OF assms(1)] assms(2) show ?thesis by (simp add: tracked_def)
qed (simp add: tracked_def)

lemma links_frame:
  assumes "links_ok y" and "s_jobs (y_sched y') = s_jobs (y_sched y)"
    and "s_canceled (y_sched y') = s_canceled (y_sched y)" and "s_nextPtr (y_sched y') = s_nextPtr (y_sched y)"
    and "s_stopped (y_sched y') = s_stopped (y_sched y)"
    and "y_procs y' = (y_procs y)[i := p']" and "i < length (y_procs y)"
    and "p_entry p' = p_entry (y_procs y ! i)" and "p_pc (y_procs y ! i) = JDone \<Longrightarrow> p_pc p' = JDone"
  shows "links_ok y'"
proof -
  have "tracked (y_sched y) (y_procs y ! i)" and "je_ptr (p_entry (y_procs y ! i)) < s_nextPtr (y_sched y)"
    using assms(1,7) by (simp_all add: links_ok_def)
  then have "tracked (y_sched y') p'" and "je_ptr (p_entry p') < s_nextPtr (y_sched y')"
    using assms(2-4,8,9) by (auto simp: tracked_def)
  moreover have "tracked (y_sched y') q = tracked (y_sched y) q" for q by (rule tracked_cong [OF assms(2,3)])
  ultimately show ?thesis
    using assms(1-6) entries_update [OF assms(7,8)]
    by (auto simp: links_ok_def dest!: set_update_memI)
qed

lemma links_same:
  assumes "links_ok y" and "same_core (y_sched y) (y_sched y')" and "s_jobs (y_sched y') = s_jobs (y_sched y)"
    and "y_procs y' = y_procs y"
  shows "links_ok y'"
  using assms tracked_cong [OF assms(3)] by (simp add: links_ok_def same_core_def)

lemma inner_links_ok:
  assumes "inner_step rt ops y y'" and "links_ok y"
  shows "links_ok y'"
  using assms(1)
proof (cases rule: inner_step.cases)
  case (in_job i p' s')
  let ?p = "y_procs y ! i"
  note core = job_step_core [OF in_job(3)]
  have l: "distinct (map (je_ptr \<circ> p_entry) (y_procs y))" "tracked (y_sched y) ?p"
    "\<And>q. q \<in> set (y_procs y) \<Longrightarrow> tracked (y_sched y) q" "je_ptr (p_entry ?p) < s_nextPtr (y_sched y)"
    using assms(2) in_job(2) by (simp_all add: links_ok_def)
  have "tracked s' q" if q: "q \<in> set ((y_procs y)[i := p'])" for q
  proof -
    from q obtain j where j: "j < length (y_procs y)" "q = (y_procs y)[i := p'] ! j"
      by (metis in_set_conv_nth length_list_update)
    show ?thesis
    proof (cases "j = i")
      case True
      with j tracked_own [OF in_job(3) l(2)] show ?thesis by simp
    next
      case False
      with j have "q = y_procs y ! j" "q \<in> set (y_procs y)" by simp_all
      moreover from this False have "je_ptr (p_entry q) \<noteq> je_ptr (p_entry ?p)"
        using distinct_entries [OF l(1) j(1) in_job(2)] by auto
      ultimately show ?thesis using tracked_step [OF in_job(3)] l(3) by blast
    qed
  qed
  moreover have "distinct (map fst (s_jobs s'))" "s_stopped s' \<longrightarrow> s_jobs s' = []"
    using job_step_jobs [OF in_job(3)] core assms(2) by (auto simp: links_ok_def distinct_delete)
  ultimately show ?thesis
    using core assms(2) in_job(1) l(4) entries_update [OF in_job(2), of p']
    by (auto simp: links_ok_def dest!: set_update_memI)
next
  case (in_enqueue i p runs t)
  then show ?thesis
    by (intro links_frame [OF assms(2), where i = i and p' = "p\<lparr>p_pc := JTick runs,
      p_active := Suc (p_active p), p_enqueued := p_enqueued p + 1\<rparr>"]) simp_all
next
  case (in_exec k i pc pc' s')
  from exec_step_core [OF in_exec(5)] assms(2) in_exec(1) show ?thesis by (auto intro: links_same)
next
  case (in_call k i t env c p tr pool' c')
  then show ?thesis using assms(2) by (auto intro: links_same)
next
  case (in_release k i)
  then show ?thesis using assms(2) by (auto intro: links_same)
next
  case (in_runs_done k i p)
  then show ?thesis
    by (intro links_frame [OF assms(2), where i = i and p' = "p\<lparr>p_active := p_active p - 1\<rparr>"]) simp_all
next
  case (in_leave k i)
  then have "tracked (y_sched y') q = tracked (y_sched y) q" for q by (intro tracked_cong) simp_all
  with in_leave(1) assms(2) show ?thesis by (simp add: links_ok_def)
qed

lemma inner_step_inv: "inner_step rt ops y y' \<Longrightarrow> sys_inv y \<Longrightarrow> sys_inv y'"
  using inner_procs_ok inner_execs_ok inner_slots_ok inner_wg_ok inner_links_ok
  unfolding sys_inv_def by blast

section \<open>The calls of clients keep it\<close>

lemma Schedule_register_core:
  assumes "Schedule_register rt ops c now job s = (r, s')"
  shows "case r of
      Inl e \<Rightarrow> same_core s s' \<and> s_jobs s' = s_jobs s
    | Inr jid \<Rightarrow> s_jobs s' = AList.update (j_ID job) \<lparr>je_ptr = s_nextPtr s, je_job = job\<rparr> (s_jobs s) \<and>
        s_wg s' = s_wg s + 1 \<and> s_sem s' = s_sem s \<and> s_canceled s' = s_canceled s \<and> s_stopped s' = s_stopped s \<and>
        s_nextPtr s' = Suc (s_nextPtr s) \<and> last (s_spawned s') = \<lparr>je_ptr = s_nextPtr s, je_job = job\<rparr>"
  using assms
  by (auto simp: Schedule_register_def Let_def same_core_def dropped_delete_def
      split: prod.splits option.splits if_splits)

lemma Schedule_fresh:
  assumes "sched_Schedule rt ops c t now job s = Ret (r, s')"
  shows "(\<exists>e. r = Inl e \<and> same_core s s' \<and> s_jobs s' = s_jobs s) \<or>
    (\<exists>jid job' s1. r = Inr jid \<and> \<not> s_stopped s \<and> job_normal job' \<and> map_of (s_jobs s) (j_ID job') = None \<and>
       same_core s s1 \<and> s_jobs s1 = s_jobs s \<and> Schedule_register rt ops c now job' s1 = (Inr jid, s'))"
proof (cases "s_stopped s")
  case True
  with assms show ?thesis by (auto simp: sched_Schedule_def)
next
  case False
  from normalizeJob_result [of rt t s job] obtain nj where
    n: "normalizeJob rt t s job = Ret nj"
    "case nj of Inl e \<Rightarrow> job_error e | Inr job' \<Rightarrow> job_normal job' \<and> j_ID job' = j_ID job" by blast
  show ?thesis
  proof (cases nj)
    case (Inl e)
    with False n assms show ?thesis by (auto simp: sched_Schedule_def)
  next
    case (Inr j0)
    define s1 where "s1 = (if j_ID j0 = '''' then snd (nextID s) else s)"
    define j1 where "j1 = (if j_ID j0 = '''' then j0\<lparr>j_ID := fst (nextID s)\<rparr> else j0)"
    have core: "same_core s s1 \<and> s_jobs s1 = s_jobs s"
      by (simp add: s1_def nextID_frame same_core_def)
    have normal: "job_normal j1" using n(2) Inr by (simp add: j1_def job_normal_def)
    have "normalizeJob rt t s job = Ret (Inr j0)" using n(1) Inr by simp
    note eq0 = Schedule_cases [OF this False, of ops c now, folded s1_def j1_def, unfolded Let_def assms]
    then have eq: "(case map_of (s_jobs s1) (j_ID j1) of
        Some _ \<Rightarrow> Ret (Inl (Wrapf ErrInvalidJob ''job id already exists: %s'' [FStr (j_ID j1)]), s1)
      | None \<Rightarrow> Ret (Schedule_register rt ops c now j1 s1)) = Ret (r, s')"
      unfolding s1_def j1_def by (rule sym)
    show ?thesis
    proof (cases "map_of (s_jobs s1) (j_ID j1)")
      case None
      with eq have reg: "Schedule_register rt ops c now j1 s1 = (r, s')" by simp
      from Schedule_register_core [OF reg] core None normal False reg show ?thesis
        by (cases r) (auto intro: same_core_trans)
    qed (use eq core in auto)
  qed
qed

lemma Schedule_core:
  assumes "sched_Schedule rt ops c t now job s = Ret (Inr jid, s')"
  shows "\<exists>entry. last (s_spawned s') = entry \<and> je_ptr entry = s_nextPtr s \<and> job_normal (je_job entry) \<and>
    \<not> s_stopped s \<and> \<not> s_stopped s' \<and> map_of (s_jobs s) (j_ID (je_job entry)) = None \<and>
    s_jobs s' = AList.update (j_ID (je_job entry)) entry (s_jobs s) \<and> s_wg s' = s_wg s + 1 \<and>
    s_sem s' = s_sem s \<and> s_canceled s' = s_canceled s \<and> s_nextPtr s' = Suc (s_nextPtr s)"
proof -
  from Schedule_fresh [OF assms] obtain job' s1 where
    j: "\<not> s_stopped s" "job_normal job'" "map_of (s_jobs s) (j_ID job') = None" "same_core s s1"
      "s_jobs s1 = s_jobs s" "Schedule_register rt ops c now job' s1 = (Inr jid, s')" by auto
  from Schedule_register_core [OF j(6)] j(1-5) show ?thesis by (simp add: same_core_def)
qed

lemma Remove_core:
  assumes "sched_Remove rt ops c now jid s = (b, s')"
  shows "s_wg s' = s_wg s \<and> s_sem s' = s_sem s \<and> s_nextPtr s' = s_nextPtr s \<and> s_stopped s' = s_stopped s \<and>
    (case map_of (s_jobs s) jid of
       None \<Rightarrow> s_jobs s' = s_jobs s \<and> s_canceled s' = s_canceled s
     | Some entry \<Rightarrow> s_jobs s' = AList.delete jid (s_jobs s) \<and> s_canceled s' = insert (je_ptr entry) (s_canceled s))"
proof (cases "map_of (s_jobs s) jid")
  case (Some entry)
  with assms have "s' = logged_write rt ''mark removed'' jid (MarkRemoved ops c now jid) (dropped_delete ops c jid
      (s\<lparr>s_canceled := insert (je_ptr entry) (s_canceled s), s_jobs := AList.delete jid (s_jobs s)\<rparr>))"
    by (simp add: sched_Remove_def Let_def)
  with Some same_core_write [of "dropped_delete ops c jid
      (s\<lparr>s_canceled := insert (je_ptr entry) (s_canceled s), s_jobs := AList.delete jid (s_jobs s)\<rparr>)"]
  show ?thesis by (simp add: same_core_def dropped_delete_def)
qed (use assms in \<open>simp add: sched_Remove_def\<close>)

lemma stop_jobs_core:
  "s_wg (stop_jobs rt ops c now es s) = s_wg s \<and> s_sem (stop_jobs rt ops c now es s) = s_sem s \<and>
   s_nextPtr (stop_jobs rt ops c now es s) = s_nextPtr s"
proof (induction es arbitrary: s)
  case (Cons ke es)
  obtain k e where ke: "ke = (k, e)" by fastforce
  have "s_wg (stop_one rt ops c now e s) = s_wg s \<and> s_sem (stop_one rt ops c now e s) = s_sem s \<and>
      s_nextPtr (stop_one rt ops c now e s) = s_nextPtr s"
    using same_core_write [of "dropped_delete ops c (j_ID (je_job e))
      (s\<lparr>s_canceled := insert (je_ptr e) (s_canceled s)\<rparr>)"]
    by (simp add: stop_one_def same_core_def dropped_delete_def)
  with Cons.IH [of "stop_one rt ops c now e s"] show ?case unfolding ke stop_jobs_Cons by simp
qed simp

lemma Stop_core:
  "s_wg (sched_Stop rt ops c now s) = s_wg s \<and> s_sem (sched_Stop rt ops c now s) = s_sem s \<and>
   s_nextPtr (sched_Stop rt ops c now s) = s_nextPtr s \<and> s_stopped (sched_Stop rt ops c now s)"
  by (simp add: sched_Stop_def Let_def stop_jobs_core stop_jobs_frame)

lemma Stop_jobs:
  assumes "\<not> s_stopped s"
  shows "s_jobs (sched_Stop rt ops c now s) = []"
    and "s_canceled (sched_Stop rt ops c now s) = s_canceled s \<union> (\<lambda>ke. je_ptr (snd ke)) ` set (s_jobs s)"
  using assms by (simp_all add: sched_Stop_def Let_def stop_jobs_frame)

lemma client_procs_ok:
  assumes "client_step rt ops y y'" and "procs_ok y"
  shows "procs_ok y'"
  using assms(1)
proof (cases rule: client_step.cases)
  case (cl_schedule c t now job jid s' entry k)
  have "proc_ok (new_proc e c k)" for e by (simp add: proc_ok_def runs_ok_def new_proc_def)
  with cl_schedule(1) assms(2) show ?thesis by (simp add: procs_ok_def)
next
  case (cl_cancel i e)
  let ?p = "(y_procs y ! i)\<lparr>p_parent := Some e\<rparr>"
  have "proc_ok (y_procs y ! i)" using cl_cancel(2) assms(2) by (simp add: procs_ok_def)
  then have "proc_ok ?p" by (simp add: proc_ok_def runs_ok_def runs_bound_def split: job_pc.splits)
  moreover have "y_procs y' = (y_procs y)[i := ?p]" using cl_cancel(1) by simp
  ultimately show ?thesis using assms(2) unfolding procs_ok_def by (metis set_update_memI)
qed (use assms(2) in \<open>simp_all add: procs_ok_def\<close>)

lemma client_execs_ok:
  assumes "client_step rt ops y y'" and "execs_ok y"
  shows "execs_ok y'"
  using assms(1)
proof (cases rule: client_step.cases)
  case (cl_schedule c t now job jid s' entry k)
  have "execs_of (length (y_procs y)) (y_execs y) = 0"
    using assms(2) cnt_pos [of "\<lambda>x. fst x = length (y_procs y) \<and> snd x \<noteq> ELeaving" "y_execs y"]
    by (fastforce simp: execs_ok_def execs_of_def)
  with cl_schedule(1) assms(2) show ?thesis
    by (auto simp: execs_ok_def nth_append new_proc_def less_Suc_eq)
next
  case (cl_cancel i e)
  with assms(2) show ?thesis by (auto simp: execs_ok_def nth_list_update)
qed (use assms(2) in \<open>simp_all add: execs_ok_def\<close>)

lemma client_slots_wg_ok:
  assumes "client_step rt ops y y'" and "slots_ok y" and "wg_ok y"
  shows "slots_ok y' \<and> wg_ok y'"
  using assms(1)
proof (cases rule: client_step.cases)
  case (cl_schedule c t now job jid s' entry k)
  with Schedule_core [OF cl_schedule(2)] assms(2,3) show ?thesis
    by (auto simp: slots_ok_def wg_ok_def running_def new_proc_def split: option.splits)
next
  case (cl_refused c t now job e s')
  with Schedule_fresh [OF cl_refused(2)] assms(2,3) show ?thesis
    by (auto simp: slots_ok_def wg_ok_def same_core_def split: option.splits)
next
  case (cl_remove c now jid b s')
  with Remove_core [OF cl_remove(2)] assms(2,3) show ?thesis
    by (auto simp: slots_ok_def wg_ok_def split: option.splits)
next
  case (cl_stop c now)
  with Stop_core [of rt ops c now "y_sched y"] assms(2,3) show ?thesis
    by (auto simp: slots_ok_def wg_ok_def split: option.splits)
next
  case (cl_cancel i e)
  with cnt_update [OF cl_cancel(2), of "\<lambda>p. p_pc p \<noteq> JDone" "(y_procs y ! i)\<lparr>p_parent := Some e\<rparr>"] assms(2,3)
  show ?thesis by (auto simp: slots_ok_def wg_ok_def running_def split: option.splits if_splits)
qed

lemma tracked_registered:
  assumes "tracked s p" and "s_canceled s \<subseteq> s_canceled s'"
    and "\<And>k e. map_of (s_jobs s) k = Some e \<Longrightarrow> map_of (s_jobs s') k = Some e \<or> je_ptr e \<in> s_canceled s'"
  shows "tracked s' p"
  using assms by (auto simp: tracked_def)

lemma client_links_ok:
  assumes "client_step rt ops y y'" and "links_ok y"
  shows "links_ok y'"
  using assms(1)
proof (cases rule: client_step.cases)
  case (cl_schedule c t now job jid s' entry k)
  from Schedule_core [OF cl_schedule(2)] cl_schedule(3) have
    e: "last (s_spawned s') = entry" "je_ptr entry = s_nextPtr (y_sched y)" "\<not> s_stopped s'"
      "map_of (s_jobs (y_sched y)) (j_ID (je_job entry)) = None"
      "s_jobs s' = AList.update (j_ID (je_job entry)) entry (s_jobs (y_sched y))"
      "s_canceled s' = s_canceled (y_sched y)" "s_nextPtr s' = Suc (s_nextPtr (y_sched y))" by auto
  have t: "tracked s' p" if "tracked (y_sched y) p" for p
    using that e(4-6) by (intro tracked_registered [OF that]) (auto simp: update_conv')
  have n: "tracked s' (new_proc entry c k)" using e(5) by (simp add: tracked_def new_proc_def update_conv')
  have ne: "p_entry (new_proc entry c k) = entry" by (simp add: new_proc_def)
  have p: "y_procs y' = y_procs y @ [new_proc entry c k]" "y_sched y' = s'" using cl_schedule(1) by simp_all
  have "distinct (map fst (s_jobs s'))" using assms(2) e(5) by (simp add: links_ok_def distinct_update)
  moreover have "distinct (map (je_ptr \<circ> p_entry) (y_procs y @ [new_proc entry c k]))"
    using assms(2) e(2) ne by (auto simp: links_ok_def)
  moreover have "\<forall>p \<in> set (y_procs y @ [new_proc entry c k]). je_ptr (p_entry p) < s_nextPtr s'"
    using assms(2) e(2,7) ne by (auto simp: links_ok_def)
  moreover have "\<forall>p \<in> set (y_procs y @ [new_proc entry c k]). tracked s' p"
    using assms(2) t n by (auto simp: links_ok_def)
  ultimately show ?thesis using e(3) unfolding links_ok_def p by simp
next
  case (cl_refused c t now job e s')
  with Schedule_fresh [OF cl_refused(2)] assms(2) show ?thesis by (auto intro: links_same)
next
  case (cl_remove c now jid b s')
  note r = Remove_core [OF cl_remove(2)]
  have c: "s_canceled (y_sched y) \<subseteq> s_canceled s'" using r by (auto split: option.splits)
  have m: "map_of (s_jobs s') k = Some e \<or> je_ptr e \<in> s_canceled s'"
    if k: "map_of (s_jobs (y_sched y)) k = Some e" for k e
  proof (cases "map_of (s_jobs (y_sched y)) jid")
    case None
    with r k show ?thesis by simp
  next
    case (Some entry)
    with r k show ?thesis by (cases "k = jid") (simp_all add: delete_conv')
  qed
  have t: "tracked s' p" if "tracked (y_sched y) p" for p by (rule tracked_registered [OF that c m])
  have d: "distinct (map fst (s_jobs s'))" "s_stopped s' \<longrightarrow> s_jobs s' = []"
    using r assms(2) by (auto simp: links_ok_def distinct_delete split: option.splits)
  have p: "y_procs y' = y_procs y" "y_sched y' = s'" using cl_remove(1) by simp_all
  from d t r assms(2) show ?thesis unfolding links_ok_def p by simp
next
  case (cl_stop c now)
  let ?s = "sched_Stop rt ops c now (y_sched y)"
  have p: "y_procs y' = y_procs y" "y_sched y' = ?s" using cl_stop by simp_all
  show ?thesis
  proof (cases "s_stopped (y_sched y)")
    case True
    then have "?s = y_sched y" by (simp add: sched_Stop_def)
    with p assms(2) show ?thesis by (simp add: links_ok_def)
  next
    case False
    note j = Stop_jobs [OF False, of rt ops c now]
    have "tracked ?s p" if "tracked (y_sched y) p" for p
      using that j by (intro tracked_registered [OF that]) (auto dest!: map_of_SomeD intro: rev_image_eqI)
    with j(1) Stop_core [of rt ops c now "y_sched y"] assms(2) show ?thesis unfolding links_ok_def p by simp
  qed
next
  case (cl_cancel i e)
  then show ?thesis
    by (intro links_frame [OF assms(2), where i = i and p' = "(y_procs y ! i)\<lparr>p_parent := Some e\<rparr>"]) simp_all
qed

lemma sys_step_inv: "sys_step rt ops y y' \<Longrightarrow> sys_inv y \<Longrightarrow> sys_inv y'"
  using inner_step_inv client_procs_ok client_execs_ok client_slots_wg_ok client_links_ok
  unfolding sys_inv_def sys_step_def by blast

end
