(* ===== verification/Scheduler_Pools.thy ===== *)
theory Scheduler_Pools
  imports Scheduler_Invariants
begin

text \<open>
  The timer pools of the running scheduler. The executions that call \<open>DoWithContext\<close> on one retrier
  are its callers in the sense of \<open>Pool_Sharing\<close>: the timers they hold and those in the pool add up
  to \<open>MaxRetries + 1\<close> in every reachable state, and every call is at an attempt that it really makes.
\<close>

section \<open>The steps of one caller\<close>

lemma share_single:
  assumes "share_step m (p, [c]) (p', [c'])" and "j < length cs" and "cs ! j = c"
  shows "share_step m (p, cs) (p', cs[j := c'])"
  using assms by (cases rule: share_step.cases) (auto intro: share_step.intros)

lemma single_decreases:
  assumes "share_step m (p, [c]) (p', [c'])" and "attempt_ok m c"
  shows "attempt_ok m c' \<and> remaining m c' < remaining m c"
  using assms by (cases rule: share_step.cases) auto

text \<open>The position of a call that makes \<open>n\<close> attempts.\<close>

fun on_plan :: "nat \<Rightarrow> caller \<Rightarrow> bool" where
  "on_plan n Start = (0 < n)"
| "on_plan n (Running k t) = (k < n)"
| "on_plan n (NeedTimer k t) = (k < n)"
| "on_plan n (Waiting k t w) = (k < n)"
| "on_plan n c = True"

lemma single_on_plan:
  assumes "share_step m (p, [c]) (p', [c'])" and "follows_plan n c c'" and "on_plan n c"
  shows "on_plan n c'"
  using assms by (cases rule: share_step.cases) auto

section \<open>Usable retriers\<close>

text \<open>A retrier given to \<open>Schedule\<close> with a pool has one timer per attempt in it.\<close>

definition full_pool :: "retrier \<Rightarrow> bool" where
  "full_pool r \<longleftrightarrow>
     (case timer r of
        None \<Rightarrow> True
      | Some p \<Rightarrow> int (pool_idle p) = MaxRetries r + 1 \<and> int (tp_cap p) = MaxRetries r + 1)"

definition runnable :: "proc \<Rightarrow> bool" where
  "runnable p \<longleftrightarrow> (\<exists>r. job_retrier p = Some r \<and> usable r \<and> full_pool r)"

lemma NewTimerPool_full:
  assumes "usable r" and "timer r = None"
  shows "\<exists>p. NewTimerPool now (wrap64 (MaxRetries r + 1)) (Timeout r) = Ret p \<and>
    share_inv m (nat (MaxRetries r + 1)) (p, replicate n Start)"
proof -
  have mr: "0 \<le> MaxRetries r" "MaxRetries r < maxInt64" using assms(1) Validate_SomeD by (auto simp: usable_def)
  then have sz: "wrap64 (MaxRetries r + 1) = int (nat (MaxRetries r + 1))" using wrap64_succ by simp
  have "0 \<le> int (nat (MaxRetries r + 1))" by simp
  from NewTimerPool_Ret [OF this, of now "Timeout r"] obtain p where
    "NewTimerPool now (int (nat (MaxRetries r + 1))) (Timeout r) = Ret p" by blast
  with fresh_share_inv [OF this] show ?thesis unfolding sz by blast
qed

text \<open>The callers do not matter as long as they hold no timer.\<close>

lemma share_inv_idle:
  assumes "share_inv m cap (p, cs)" and "sum_list (map held cs) = 0" and "list_all (\<lambda>c. c = Done) ds"
  shows "share_inv m cap (p, ds)"
proof -
  have "sum_list (map held ds) = 0" using assms(3) by (induction ds) auto
  moreover have "list_all (attempt_ok m) ds" using assms(3) by (induction ds) auto
  ultimately show ?thesis using assms(1,2) by (simp add: share_inv_def)
qed

lemma initial_pool_full:
  assumes "runnable p" and "list_all (\<lambda>c. c = Done) cs"
  shows "share_inv (call_limit p) (Suc (call_limit p)) (initial_pool rt now (p_entry p), cs)"
proof -
  from assms(1) obtain r where r: "job_retrier p = Some r" "usable r" "full_pool r" by (auto simp: runnable_def)
  have mr: "0 \<le> MaxRetries r" using r(2) Validate_SomeD by (auto simp: usable_def)
  have m: "call_limit p = nat (MaxRetries r)" "nat (MaxRetries r + 1) = Suc (nat (MaxRetries r))"
    using r(1) mr by (simp_all add: call_limit_def)
  show ?thesis
  proof (cases "timer r")
    case None
    from NewTimerPool_full [OF r(2) None, of now "call_limit p" 0] obtain q where
      q: "NewTimerPool now (wrap64 (MaxRetries r + 1)) (Timeout r) = Ret q"
        "share_inv (call_limit p) (nat (MaxRetries r + 1)) (q, [])" by auto
    have "\<not> initOnce r" using r(2) None by (simp add: usable_def)
    with q(1) r(1) None have "initial_pool rt now (p_entry p) = q"
      by (simp add: initial_pool_def ensureInitialized_eq ensureContext_frame)
    with share_inv_idle [OF q(2) _ assms(2)] m show ?thesis by simp
  next
    case (Some q)
    have "\<exists>r'. ensureInitialized rt now r = Ret r' \<and> timer r' = Some q"
      using Some by (cases "initOnce r")
        (simp_all add: ensureInitialized_eq ensureContext_frame, simp add: ensureInitialized_def)
    then have "initial_pool rt now (p_entry p) = q" using r(1) by (auto simp: initial_pool_def)
    moreover have "share_inv (call_limit p) (Suc (call_limit p)) (q, [])"
      using r(2,3) Some m mr by (auto simp: share_inv_def usable_def full_pool_def)
    ultimately show ?thesis using share_inv_idle [OF _ _ assms(2)] by simp
  qed
qed

section \<open>The invariant of the pools\<close>

text \<open>The caller that an execution is on the retrier \<open>k\<close>; one that does not use it counts as returned.\<close>

definition exec_caller :: "proc list \<Rightarrow> nat \<Rightarrow> nat \<times> exec_pc \<Rightarrow> caller" where
  "exec_caller ps k x =
     (case snd x of EAttempts t env c \<Rightarrow> if p_pool (ps ! fst x) = k then c else Done | _ \<Rightarrow> Done)"

definition callers :: "proc list \<Rightarrow> (nat \<times> exec_pc) list \<Rightarrow> nat \<Rightarrow> caller list" where
  "callers ps es k = map (exec_caller ps k) es"

definition exec_ok :: "runtime \<Rightarrow> proc \<Rightarrow> exec_pc \<Rightarrow> bool" where
  "exec_ok rt p pc \<longleftrightarrow>
     (case pc of
        EAttempts t env c \<Rightarrow>
          attempt_ok (call_limit p) c \<and>
          (\<exists>tr. call_trace rt env (je_job (p_entry p)) = Some tr \<and> on_plan (length (calls tr)) c)
      | _ \<Rightarrow> True)"

definition calls_ok :: "runtime \<Rightarrow> 's system \<Rightarrow> bool" where
  "calls_ok rt y \<longleftrightarrow> (\<forall>x \<in> set (y_execs y). exec_ok rt (y_procs y ! fst x) (snd x))"

definition pool_full :: "'s system \<Rightarrow> proc \<Rightarrow> bool" where
  "pool_full y p \<longleftrightarrow> share_inv (call_limit p) (Suc (call_limit p))
     (y_pools y (p_pool p), callers (y_procs y) (y_execs y) (p_pool p))"

definition pools_ok :: "'s system \<Rightarrow> bool" where
  "pools_ok y \<longleftrightarrow>
     (\<forall>p \<in> set (y_procs y). \<forall>q \<in> set (y_procs y). p_pool p = p_pool q \<longrightarrow> job_retrier p = job_retrier q) \<and>
     (\<forall>p \<in> set (y_procs y). runnable p \<longrightarrow> pool_full y p)"

text \<open>What of a job goroutine matters here does not change while it runs.\<close>

definition proc_key :: "proc \<Rightarrow> jobEntry \<times> nat" where
  "proc_key p = (p_entry p, p_pool p)"

lemma key_cong:
  assumes "proc_key p = proc_key q"
  shows "p_entry p = p_entry q" "p_pool p = p_pool q" "call_limit p = call_limit q" "runnable p = runnable q"
    "exec_ok rt p = exec_ok rt q"
  using assms by (simp_all add: proc_key_def call_limit_def runnable_def exec_ok_def [abs_def])

lemma keys_update:
  assumes "i < length ps" and "proc_key p' = proc_key (ps ! i)"
  shows "map proc_key (ps[i := p']) = map proc_key ps"
  using assms by (simp add: map_update list_update_same_conv)

lemma keys_nth: "map proc_key ps' = map proc_key ps \<Longrightarrow> i < length ps \<Longrightarrow> proc_key (ps' ! i) = proc_key (ps ! i)"
  by (metis length_map nth_map)

lemma keys_mem: "map proc_key ps' = map proc_key ps \<Longrightarrow> p \<in> set ps' \<Longrightarrow> \<exists>q \<in> set ps. proc_key q = proc_key p"
  by (metis (no_types, lifting) image_iff list.set_map)

lemma job_step_key: "job_step rt ops p s p' s' \<Longrightarrow> proc_key p' = proc_key p"
  using job_step_core unfolding proc_key_def by metis

lemma callers_keys:
  assumes "map proc_key ps' = map proc_key ps" and "\<forall>x \<in> set es. fst x < length ps"
  shows "callers ps' es k = callers ps es k"
proof -
  have "p_pool (ps' ! fst x) = p_pool (ps ! fst x)" if "x \<in> set es" for x
    using key_cong(2) [OF keys_nth [OF assms(1)]] assms(2) that by simp
  then show ?thesis by (auto simp: callers_def exec_caller_def split: exec_pc.split)
qed

lemma callers_update: "callers ps (es[j := x]) k = (callers ps es k)[j := exec_caller ps k x]"
  by (simp add: callers_def map_update)

lemma callers_nth: "j < length es \<Longrightarrow> callers ps es k ! j = exec_caller ps k (es ! j)"
  by (simp add: callers_def)

lemma length_callers [simp]: "length (callers ps es k) = length es"
  by (simp add: callers_def)

text \<open>A step that changes neither goroutines nor executions nor pools in what matters.\<close>

lemma pools_ok_step:
  assumes "pools_ok y" and "map proc_key (y_procs y') = map proc_key (y_procs y)"
    and "\<And>p. p \<in> set (y_procs y) \<Longrightarrow> runnable p \<Longrightarrow> pool_full y p \<Longrightarrow> pool_full y' p"
  shows "pools_ok y'"
  unfolding pools_ok_def
proof (intro conjI ballI impI)
  fix p q assume a: "p \<in> set (y_procs y')" "q \<in> set (y_procs y')" "p_pool p = p_pool q"
  obtain p0 where p0: "p0 \<in> set (y_procs y)" "proc_key p0 = proc_key p" using keys_mem [OF assms(2) a(1)] by blast
  obtain q0 where q0: "q0 \<in> set (y_procs y)" "proc_key q0 = proc_key q" using keys_mem [OF assms(2) a(2)] by blast
  have "p_pool p0 = p_pool q0" using key_cong(2) [OF p0(2)] key_cong(2) [OF q0(2)] a(3) by simp
  then have "job_retrier p0 = job_retrier q0" using assms(1) p0(1) q0(1) unfolding pools_ok_def by blast
  then show "job_retrier p = job_retrier q" using key_cong(1) [OF p0(2)] key_cong(1) [OF q0(2)] by simp
next
  fix p assume p: "p \<in> set (y_procs y')" "runnable p"
  from keys_mem [OF assms(2) p(1)] obtain q where q: "q \<in> set (y_procs y)" "proc_key q = proc_key p" by blast
  have "runnable q" using p(2) key_cong(4) [OF q(2)] by simp
  then have "pool_full y' q" using assms(1,3) q(1) unfolding pools_ok_def by blast
  then show "pool_full y' p" by (simp add: pool_full_def key_cong(2,3) [OF q(2)])
qed


section \<open>The steps of the goroutines keep it\<close>

lemma calls_ok_keys:
  assumes "calls_ok rt y" and "execs_ok y" and "map proc_key (y_procs y') = map proc_key (y_procs y)"
    and "\<And>x. x \<in> set (y_execs y') \<Longrightarrow> x \<in> set (y_execs y) \<or>
      fst x < length (y_procs y) \<and> exec_ok rt (y_procs y ! fst x) (snd x)"
  shows "calls_ok rt y'"
  unfolding calls_ok_def
proof
  fix x assume "x \<in> set (y_execs y')"
  from assms(4) [OF this] have "fst x < length (y_procs y)" "exec_ok rt (y_procs y ! fst x) (snd x)"
    using assms(1,2) by (auto simp: calls_ok_def execs_ok_def)
  with key_cong(5) [OF keys_nth [OF assms(3)]] show "exec_ok rt (y_procs y' ! fst x) (snd x)" by simp
qed

lemma calls_ok_at:
  assumes "calls_ok rt y" and "execs_ok y" and "map proc_key (y_procs y') = map proc_key (y_procs y)"
    and "y_execs y' = (y_execs y)[k := (i, pc)]" and "i < length (y_procs y)" and "exec_ok rt (y_procs y ! i) pc"
  shows "calls_ok rt y'"
proof (rule calls_ok_keys [OF assms(1-3)])
  fix x assume "x \<in> set (y_execs y')"
  then have "x = (i, pc) \<or> x \<in> set (y_execs y)" unfolding assms(4) by (rule set_update_memI)
  with assms(5,6) show "x \<in> set (y_execs y) \<or> fst x < length (y_procs y) \<and> exec_ok rt (y_procs y ! fst x) (snd x)"
    by auto
qed

lemma exec_ok_quiet [simp]: "exec_ok rt p (EQueued t)" "exec_ok rt p EReleased" "exec_ok rt p ELeaving"
  by (simp_all add: exec_ok_def)

lemma exec_step_ok: "exec_step rt ops p pc s pc' s' \<Longrightarrow> exec_ok rt p pc'"
  by (cases rule: exec_step.cases, assumption) (auto simp: exec_ok_def)

lemma inner_calls_ok:
  assumes "inner_step rt ops y y'" and "calls_ok rt y" and "execs_ok y"
  shows "calls_ok rt y' \<and> map proc_key (y_procs y') = map proc_key (y_procs y)"
  using assms(1)
proof (cases rule: inner_step.cases)
  case (in_job i p' s')
  have "map proc_key (y_procs y') = map proc_key (y_procs y)"
    using in_job(1) keys_update [OF in_job(2) job_step_key [OF in_job(3)]] by simp
  with calls_ok_keys [OF assms(2,3) this] in_job(1) show ?thesis by simp
next
  case (in_enqueue i p runs t)
  have "map proc_key (y_procs y') = map proc_key (y_procs y)"
    using in_enqueue keys_update [OF in_enqueue(2)] by (simp add: proc_key_def)
  moreover have "x \<in> set (y_execs y) \<or> fst x < length (y_procs y) \<and> exec_ok rt (y_procs y ! fst x) (snd x)"
    if "x \<in> set (y_execs y')" for x using that in_enqueue(1,2) by auto
  ultimately show ?thesis using calls_ok_keys [OF assms(2,3)] by blast
next
  case (in_exec k i pc pc' s')
  have "map proc_key (y_procs y') = map proc_key (y_procs y)" using in_exec(1) by simp
  with calls_ok_at [OF assms(2,3) this] in_exec(1,4) exec_step_ok [OF in_exec(5)] show ?thesis by simp
next
  case (in_call k i t env c p tr pool' c')
  have "exec_ok rt p (EAttempts t env c)"
    using assms(2) nth_mem [OF in_call(2)] in_call(3,5) by (fastforce simp: calls_ok_def)
  then have "exec_ok rt p (EAttempts t env c')"
    using single_decreases [OF in_call(7)] single_on_plan [OF in_call(7,8)] in_call(6) by (auto simp: exec_ok_def)
  moreover have "map proc_key (y_procs y') = map proc_key (y_procs y)" using in_call(1) by simp
  ultimately show ?thesis using calls_ok_at [OF assms(2,3), of y' k i "EAttempts t env c'"] in_call(1,4,5) by simp
next
  case (in_release k i)
  have "map proc_key (y_procs y') = map proc_key (y_procs y)" using in_release(1) by simp
  moreover have "i < length (y_procs y)" using assms(3) nth_mem [OF in_release(2)] in_release(3) by (auto simp: execs_ok_def)
  ultimately show ?thesis using calls_ok_at [OF assms(2,3), of y' k i EReleased] in_release(1) by simp
next
  case (in_runs_done k i p)
  have "map proc_key (y_procs y') = map proc_key (y_procs y)"
    using in_runs_done keys_update [OF in_runs_done(4)] by (simp add: proc_key_def)
  with calls_ok_at [OF assms(2,3) this] in_runs_done(1,4) show ?thesis by simp
next
  case (in_leave k i)
  have "map proc_key (y_procs y') = map proc_key (y_procs y)" using in_leave(1) by simp
  with calls_ok_keys [OF assms(2,3) this] in_leave(1) show ?thesis by (auto dest: in_set_takeD in_set_dropD)
qed

text \<open>An execution that moves without holding timers before or after leaves the pools as they are.\<close>

lemma callers_quiet:
  assumes "share_inv m cap (p, callers ps es k)" and "j < length es"
    and "held (exec_caller ps k (es ! j)) = held (exec_caller ps k x)" and "attempt_ok m (exec_caller ps k x)"
  shows "share_inv m cap (p, callers ps (es[j := x]) k)"
  using share_inv_move [OF assms(1), of j] assms(2-4) by (simp add: callers_update callers_nth)

lemma exec_step_quiet:
  assumes "exec_step rt ops p pc s pc' s'"
  shows "held (exec_caller ps k (i, pc)) = 0 \<and> held (exec_caller ps k (i, pc')) = 0 \<and>
    attempt_ok m (exec_caller ps k (i, pc'))"
  using assms by (cases rule: exec_step.cases) (auto simp: exec_caller_def)

lemma share_inv_drop:
  assumes "share_inv m cap (p, cs)" and "j < length cs" and "held (cs ! j) = 0"
  shows "share_inv m cap (p, take j cs @ drop (Suc j) cs)"
proof -
  have cs: "cs = take j cs @ cs ! j # drop (Suc j) cs" using assms(2) by (rule id_take_nth_drop)
  have "sum_list (map held cs) = sum_list (map held (take j cs @ drop (Suc j) cs))"
    by (subst cs) (simp add: assms(3))
  moreover have "list_all (attempt_ok m) (take j cs @ drop (Suc j) cs)"
    using assms(1) by (auto simp: share_inv_def list_all_iff dest: in_set_takeD in_set_dropD)
  ultimately show ?thesis using assms(1) by (simp add: share_inv_def)
qed

lemma share_inv_snoc: "share_inv m cap (p, cs) \<Longrightarrow> share_inv m cap (p, cs @ [Done])"
  by (simp add: share_inv_def)

text \<open>A step of a call: the pool of its retrier and its callers, and no other pool.\<close>

lemma in_call_full:
  assumes "k < length es" and "es ! k = (i, EAttempts t env c)" and "ps ! i = p"
    and "share_step (call_limit p) (pools (p_pool p), [c]) (pool', [c'])"
    and "p_pool q = p_pool p \<Longrightarrow> call_limit q = call_limit p"
    and "share_inv (call_limit q) cap (pools (p_pool q), callers ps es (p_pool q))"
  shows "share_inv (call_limit q) cap
    ((pools(p_pool p := pool')) (p_pool q), callers ps (es[k := (i, EAttempts t env c')]) (p_pool q))"
proof (cases "p_pool q = p_pool p")
  case True
  have c: "callers ps es (p_pool q) ! k = c" "exec_caller ps (p_pool q) (i, EAttempts t env c') = c'"
    using assms(1-3) True by (simp_all add: callers_nth exec_caller_def)
  from share_single [OF assms(4), of k "callers ps es (p_pool q)"] assms(1) c
  have "share_step (call_limit q) (pools (p_pool q), callers ps es (p_pool q))
      (pool', callers ps (es[k := (i, EAttempts t env c')]) (p_pool q))"
    using True assms(5) by (simp add: callers_update)
  from share_step_inv [OF this assms(6)] True show ?thesis by simp
next
  case False
  have "exec_caller ps (p_pool q) (es ! k) = Done" "exec_caller ps (p_pool q) (i, EAttempts t env c') = Done"
    using assms(2,3) False by (auto simp: exec_caller_def)
  then show ?thesis using callers_quiet [OF assms(6,1), of "(i, EAttempts t env c')"] False by simp
qed


lemma inner_pools_ok:
  assumes "inner_step rt ops y y'" and "pools_ok y" and "calls_ok rt y" and "execs_ok y"
  shows "pools_ok y'"
proof -
  have keys: "map proc_key (y_procs y') = map proc_key (y_procs y)"
    using inner_calls_ok [OF assms(1,3,4)] by blast
  have old: "\<forall>x \<in> set (y_execs y). fst x < length (y_procs y)" using assms(4) by (simp add: execs_ok_def)
  have same: "callers (y_procs y') es k = callers (y_procs y) es k" if "\<forall>x \<in> set es. fst x < length (y_procs y)" for es k
    by (rule callers_keys [OF keys that])
  have step: "pools_ok y'"
    if "\<And>q. q \<in> set (y_procs y) \<Longrightarrow> pool_full y q \<Longrightarrow>
      share_inv (call_limit q) (Suc (call_limit q)) (y_pools y' (p_pool q), callers (y_procs y) (y_execs y') (p_pool q))"
      and "\<forall>x \<in> set (y_execs y'). fst x < length (y_procs y)"
    by (rule pools_ok_step [OF assms(2) keys]) (use that same in \<open>simp add: pool_full_def\<close>)
  show ?thesis
    using assms(1)
  proof (cases rule: inner_step.cases)
    case (in_job i p' s')
    then show ?thesis using old by (intro step) (simp_all add: pool_full_def)
  next
    case (in_enqueue i p runs t)
    have "callers (y_procs y) (y_execs y @ [(i, EQueued t)]) k = callers (y_procs y) (y_execs y) k @ [Done]" for k
      by (simp add: callers_def exec_caller_def)
    then show ?thesis using in_enqueue(1,2) old by (intro step) (auto simp: pool_full_def share_inv_snoc)
  next
    case (in_exec k i pc pc' s')
    have "share_inv m cap (p, callers (y_procs y) ((y_execs y)[k := (i, pc')]) j)"
      if "share_inv m cap (p, callers (y_procs y) (y_execs y) j)" for m cap p j
      using callers_quiet [OF that in_exec(2), of "(i, pc')"] exec_step_quiet [OF in_exec(5)] in_exec(3) by simp
    then show ?thesis using in_exec(1,4) old by (intro step) (auto simp: pool_full_def dest!: set_update_memI)
  next
    case (in_call k i t env c p tr pool' c')
    have lim: "call_limit q = call_limit p" if "q \<in> set (y_procs y)" "p_pool q = p_pool p" for q
    proof -
      have "p \<in> set (y_procs y)" using in_call(4,5) nth_mem by blast
      with assms(2) that have "job_retrier q = job_retrier p" unfolding pools_ok_def by blast
      then show ?thesis by (simp add: call_limit_def)
    qed
    have "share_inv (call_limit q) (Suc (call_limit q)) (y_pools y' (p_pool q), callers (y_procs y) (y_execs y') (p_pool q))"
      if "q \<in> set (y_procs y)" "pool_full y q" for q
      using in_call_full [where pools = "y_pools y" and q = q, OF in_call(2,3,5,7) lim [OF that(1)],
          of "Suc (call_limit q)"] that(2) in_call(1) by (simp add: pool_full_def)
    then show ?thesis using in_call(1,4) old by (intro step) (auto dest!: set_update_memI)
  next
    case (in_release k i)
    have "exec_caller ps j (i, EReleased) = Done" "exec_caller ps j (y_execs y ! k) = Done" for ps j
      using in_release(3) by (simp_all add: exec_caller_def)
    moreover have "i < length (y_procs y)" using old nth_mem [OF in_release(2)] in_release(3) by fastforce
    ultimately show ?thesis using in_release(1,2) old
      by (intro step) (auto simp: pool_full_def intro!: callers_quiet dest!: set_update_memI)
  next
    case (in_runs_done k i p)
    have "exec_caller ps j (i, ELeaving) = Done" "exec_caller ps j (y_execs y ! k) = Done" for ps j
      using in_runs_done(3) by (simp_all add: exec_caller_def)
    then show ?thesis using in_runs_done(1,2,4) old
      by (intro step) (auto simp: pool_full_def intro!: callers_quiet dest!: set_update_memI)
  next
    case (in_leave k i)
    have "callers ps (take k es @ drop (Suc k) es) j = take k (callers ps es j) @ drop (Suc k) (callers ps es j)" for ps es j
      by (simp add: callers_def take_map drop_map)
    moreover have "held (callers (y_procs y) (y_execs y) j ! k) = 0" for j
      using in_leave(2,3) by (simp add: callers_nth exec_caller_def)
    ultimately show ?thesis using in_leave(1,2) old
      by (intro step) (auto simp: pool_full_def intro: share_inv_drop dest: in_set_takeD in_set_dropD)
  qed
qed

section \<open>The calls of clients keep it\<close>

lemma client_pools_ok:
  assumes "client_step rt ops y y'" and "pools_ok y" and "calls_ok rt y" and "execs_ok y"
  shows "pools_ok y' \<and> calls_ok rt y'"
proof -
  have old: "\<forall>x \<in> set (y_execs y). fst x < length (y_procs y)" using assms(4) by (simp add: execs_ok_def)
  have same: "pools_ok z \<and> calls_ok rt z"
    if "map proc_key (y_procs z) = map proc_key (y_procs y)" "y_execs z = y_execs y" "y_pools z = y_pools y" for z
    using calls_ok_keys [OF assms(3,4) that(1)] pools_ok_step [OF assms(2) that(1)] that(2,3)
      callers_keys [OF that(1) old] by (auto simp: pool_full_def)
  show ?thesis
    using assms(1)
  proof (cases rule: client_step.cases)
    case (cl_schedule c t now job jid s' entry k)
    let ?p = "new_proc entry c k" and ?ps = "y_procs y"
    have at: "exec_caller (?ps @ [?p]) j x = exec_caller ?ps j x" if "fst x < length ?ps" for x j
      using that by (simp add: exec_caller_def nth_append split: exec_pc.split)
    have cs: "callers (?ps @ [?p]) (y_execs y) j = callers ?ps (y_execs y) j" for j
      using old at by (simp add: callers_def)
    have "calls_ok rt y'" using assms(3) old cl_schedule(1) by (simp add: calls_ok_def nth_append)
    have pk: "p_pool ?p = k" "p_entry ?p = entry" by (simp_all add: new_proc_def)
    have old_new: "job_retrier q = job_retrier ?p" if "q \<in> set ?ps" "p_pool q = k" for q
      using that cl_schedule(4) pk(2) unfolding retrier_choice_def by auto
    have old_old: "job_retrier p = job_retrier q" if "p \<in> set ?ps" "q \<in> set ?ps" "p_pool p = p_pool q" for p q
      using that assms(2) unfolding pools_ok_def by blast
    have consistent: "job_retrier p = job_retrier q"
      if "p \<in> set (?ps @ [?p])" "q \<in> set (?ps @ [?p])" "p_pool p = p_pool q" for p q
    proof -
      from that(1,2) consider "p = ?p" "q = ?p" | "p = ?p" "q \<in> set ?ps" | "p \<in> set ?ps" "q = ?p"
        | "p \<in> set ?ps" "q \<in> set ?ps" by auto
      then show ?thesis
      proof cases
        case 2
        with old_new [of q] that(3) pk(1) show ?thesis by metis
      next
        case 3
        with old_new [of p] that(3) pk(1) show ?thesis by metis
      next
        case 4
        then show ?thesis using old_old that(3) by blast
      qed simp
    qed
    have full: "pool_full y' p" if "p \<in> set (?ps @ [?p])" "runnable p" for p
    proof (cases "p_pool p \<in> p_pool ` set ?ps")
      case True
      then obtain q where q: "q \<in> set ?ps" "p_pool q = p_pool p" by auto
      then have r: "job_retrier q = job_retrier p" using consistent [of q p] that(1) by simp
      with that(2) have "runnable q" "call_limit q = call_limit p" by (simp_all add: runnable_def call_limit_def)
      moreover from this(1) q(1) assms(2) have "pool_full y q" unfolding pools_ok_def by blast
      ultimately show ?thesis using q cl_schedule(1) True
        by (auto simp: pool_full_def cs assign_pool_def)
    next
      case False
      with that(1) have p: "p = ?p" by auto
      have "list_all (\<lambda>c. c = Done) (callers ?ps (y_execs y) k)"
        using False old p pk by (auto simp: callers_def exec_caller_def list_all_iff split: exec_pc.split)
      from initial_pool_full [OF _ this, of ?p rt t] that(2) p False pk cl_schedule(1) show ?thesis
        by (simp add: pool_full_def cs assign_pool_def)
    qed
    have "y_procs y' = ?ps @ [?p]" using cl_schedule(1) by simp
    with consistent full \<open>calls_ok rt y'\<close> show ?thesis unfolding pools_ok_def by metis
  next
    case (cl_cancel i e)
    then show ?thesis by (intro same) (simp_all add: keys_update proc_key_def)
  qed (rule same; simp)+
qed

lemma sys_step_pools:
  assumes "sys_step rt ops y y'" and "sys_inv y" and "pools_ok y" and "calls_ok rt y"
  shows "pools_ok y' \<and> calls_ok rt y'"
  using assms inner_pools_ok inner_calls_ok client_pools_ok unfolding sys_step_def sys_inv_def by blast

lemma boot_pools: "pools_ok (boot s) \<and> calls_ok rt (boot s)"
  by (simp add: boot_def pools_ok_def calls_ok_def)

end
