(* ===== verification/Scheduler_Liveness.thy ===== *)
theory Scheduler_Liveness
  imports Scheduler_Pools
begin

text \<open>
  What the running scheduler guarantees from its construction on: the bounds on concurrent and on
  total runs, that a job records its final state after its last execution only, and that after
  \<open>Stop\<close> every goroutine ends, so that the wait in \<open>Stop\<close> returns, as long as the concurrency limit
  keeps the executions from draining the timer pool of a retrier.
\<close>

section \<open>New schedulers\<close>

definition plain_option :: "'s sched_option \<Rightarrow> bool" where
  "plain_option opt \<longleftrightarrow>
     (\<exists>x. opt = WithHTTPClient x) \<or> (\<exists>x. opt = sched_WithLogger x) \<or> (\<exists>x. opt = WithConcurrency x) \<or>
     (\<exists>x. opt = WithHistoryLimit x) \<or> (\<exists>x. opt = WithJobsStorage x) \<or> (\<exists>x. opt = WithURLValidator x)"

definition fresh :: "'s Scheduler \<Rightarrow> bool" where
  "fresh s \<longleftrightarrow> s_jobs s = [] \<and> s_wg s = 0 \<and> \<not> s_stopped s \<and> s_canceled s = {} \<and>
     (case s_sem s of None \<Rightarrow> True | Some n \<Rightarrow> 0 < n)"

lemma plain_option_fresh: "plain_option opt \<Longrightarrow> fresh s \<Longrightarrow> fresh (opt s)"
  unfolding plain_option_def
  by (elim disjE exE) (auto simp: fresh_def WithHTTPClient_def sched_WithLogger_def WithConcurrency_def
      WithHistoryLimit_def WithJobsStorage_def WithURLValidator_def split: option.splits if_split)

lemma options_fresh: "list_all plain_option opts \<Longrightarrow> fresh s \<Longrightarrow> fresh (fold (\<lambda>opt s. opt s) opts s)"
  by (induction opts arbitrary: s) (auto simp: plain_option_fresh)

lemma fresh_storage [simp]: "fresh (s\<lparr>s_jobsStorage := st\<rparr>) = fresh s"
  by (simp add: fresh_def)

lemma reconcile_ids_fresh: "fresh s \<Longrightarrow> fresh (snd (reconcile_ids ops c now is s))"
  by (induction ops c now "is" s rule: reconcile_ids.induct)
    (auto simp: Let_def dropped_delete_def split: prod.split option.split)

lemma reconcile_fresh: "fresh s \<Longrightarrow> fresh (snd (reconcileRecoveredState ops c now s))"
  by (simp add: reconcileRecoveredState_def reconcile_ids_fresh split: prod.split)

lemma new_fresh:
  assumes "NewSchedulerWithError ops st0 dv now c opts = (s, err)" and "list_all plain_option opts"
  shows "fresh s"
proof -
  define s0 :: "'a Scheduler" where "s0 = \<lparr>s_jobs = [], s_jobsStorage = st0, s_historyLimit = defaultHistoryLimit,
    s_client = 0, s_logger = True, s_sem = None, s_ctx = c, s_urlValidator = None, s_urlValidatorConfigured = False,
    s_wg = 0, s_counter = 0, s_stopped = False, s_canceled = {}, s_spawned = [], s_nextPtr = 0, s_log = []\<rparr>"
  have "fresh s0" by (simp add: s0_def fresh_def)
  from reconcile_fresh [OF options_fresh [OF assms(2) this], of ops c now] assms(1)
  show ?thesis
    by (auto simp: NewSchedulerWithError_def fresh_def Let_def simp flip: s0_def
        split: prod.splits sum.splits option.splits if_splits)
qed

lemma boot_inv: "fresh s \<Longrightarrow> sys_inv (boot s)"
  by (auto simp: fresh_def sys_inv_def boot_def procs_ok_def execs_ok_def slots_ok_def wg_ok_def links_ok_def
      slots_def running_def split: option.splits)

lemma reachable_inv:
  assumes "NewSchedulerWithError ops st0 dv now c opts = (s, err)" and "list_all plain_option opts"
    and "(sys_step rt ops)\<^sup>*\<^sup>* (boot s) y"
  shows "sys_inv y"
  using assms(3)
proof (induction rule: rtranclp_induct)
  case base
  show ?case using boot_inv [OF new_fresh [OF assms(1,2)]] .
next
  case (step y z)
  then show ?case using sys_step_inv by blast
qed

lemma reachable_pools:
  assumes "NewSchedulerWithError ops st0 dv now c opts = (s, err)" and "list_all plain_option opts"
    and "(sys_step rt ops)\<^sup>*\<^sup>* (boot s) y"
  shows "pools_ok y \<and> calls_ok rt y"
  using assms(3)
proof (induction rule: rtranclp_induct)
  case base
  show ?case by (rule boot_pools)
next
  case (step y z)
  then show ?case using sys_step_pools reachable_inv [OF assms(1,2)] by blast
qed

section \<open>The way to the end\<close>

text \<open>
  An upper bound on the steps that are left once every context is done: every position weighs more
  than those that can follow it, and a run that may still be enqueued weighs its execution too. An
  execution's call counts with the steps it may still take on its timer pool.
\<close>

fun exec_weight :: "nat \<Rightarrow> exec_pc \<Rightarrow> nat" where
  "exec_weight m (EQueued t) = 3 * m + 12"
| "exec_weight m (ECall t) = 3 * m + 11"
| "exec_weight m (EAttempts t env c) = remaining m c + 6"
| "exec_weight m (EReport p) = 5"
| "exec_weight m (ECallback p) = 4"
| "exec_weight m EReturned = 3"
| "exec_weight m EReleased = 2"
| "exec_weight m ELeaving = 1"

fun job_weight :: "nat \<Rightarrow> job_pc \<Rightarrow> nat" where
  "job_weight m JStart = 6"
| "job_weight m JWaitStart = 5"
| "job_weight m (JEnqueue n t) = 3 * m + 18"
| "job_weight m (JTick n) = 5"
| "job_weight m (JLoop n) = 4"
| "job_weight m (JDrain st) = 3"
| "job_weight m (JFinalize st) = 2"
| "job_weight m JCleanup = 1"
| "job_weight m JDone = 0"

definition execs_weight :: "proc list \<Rightarrow> (nat \<times> exec_pc) list \<Rightarrow> nat" where
  "execs_weight ps es = sum_list (map (\<lambda>x. exec_weight (call_limit (ps ! fst x)) (snd x)) es)"

definition weight :: "'s system \<Rightarrow> nat" where
  "weight y = sum_list (map (\<lambda>p. job_weight (call_limit p) (p_pc p)) (y_procs y)) +
              execs_weight (y_procs y) (y_execs y)"

lemma sum_remove:
  fixes f :: "'a \<Rightarrow> nat"
  assumes "k < length xs"
  shows "sum_list (map f (take k xs @ drop (Suc k) xs)) + f (xs ! k) = sum_list (map f xs)"
proof -
  have "sum_list (map f (take k xs @ [xs ! k] @ drop (Suc k) xs)) = sum_list (map f xs)"
    using assms by (simp add: id_take_nth_drop [symmetric])
  then show ?thesis by simp
qed

lemma job_step_weight:
  "job_step rt ops p s p' s' \<Longrightarrow> job_ctx s p \<noteq> None \<Longrightarrow> job_weight m (p_pc p') < job_weight m (p_pc p)"
  by (cases rule: job_step.cases, assumption) auto

lemma exec_step_weight: "exec_step rt ops p pc s pc' s' \<Longrightarrow> exec_weight m pc' < exec_weight m pc"
  by (cases rule: exec_step.cases, assumption) auto

definition stopping :: "runtime \<Rightarrow> 's system \<Rightarrow> bool" where
  "stopping rt y \<longleftrightarrow> sys_inv y \<and> pools_ok y \<and> calls_ok rt y \<and> s_stopped (y_sched y)"

lemma stopping_ctx:
  assumes "stopping rt y" and "p \<in> set (y_procs y)" and "p_pc p \<noteq> JDone"
  shows "job_ctx (y_sched y) p \<noteq> None"
  using assms by (auto simp: stopping_def sys_inv_def links_ok_def tracked_def job_ctx_def split: option.splits)

lemma stopping_step:
  assumes "inner_step rt ops y y'" and "stopping rt y"
  shows "stopping rt y'"
proof -
  from assms(1) have "s_stopped (y_sched y') = s_stopped (y_sched y)"
    by (cases rule: inner_step.cases) (auto dest: job_step_core exec_step_core simp: same_core_def)
  moreover have "sys_step rt ops y y'" using assms(1) by (simp add: sys_step_def)
  ultimately show ?thesis
    using assms inner_step_inv sys_step_pools [of rt ops y y'] unfolding stopping_def by blast
qed

lemma execs_weight_keys:
  assumes "map proc_key ps' = map proc_key ps" and "\<forall>x \<in> set es. fst x < length ps"
  shows "execs_weight ps' es = execs_weight ps es"
proof -
  have "call_limit (ps' ! fst x) = call_limit (ps ! fst x)" if "x \<in> set es" for x
    using key_cong(3) [OF keys_nth [OF assms(1)]] assms(2) that by simp
  then show ?thesis unfolding execs_weight_def by (metis (mono_tags, lifting) map_cong)
qed

lemma execs_weight_update:
  assumes "k < length es" and "es ! k = (i, pc)"
    and "exec_weight (call_limit (ps ! i)) pc' < exec_weight (call_limit (ps ! i)) pc"
  shows "execs_weight ps (es[k := (i, pc')]) < execs_weight ps es"
  using sum_list_update_less [OF assms(1), of "\<lambda>x. exec_weight (call_limit (ps ! fst x)) (snd x)" "(i, pc')"] assms(2,3)
  by (simp add: execs_weight_def)

lemma jobs_weight_update:
  assumes "i < length ps" and "proc_key p' = proc_key (ps ! i)"
  shows "sum_list (map (\<lambda>p. job_weight (call_limit p) (p_pc p)) (ps[i := p'])) + job_weight (call_limit (ps ! i)) (p_pc (ps ! i)) =
    sum_list (map (\<lambda>p. job_weight (call_limit p) (p_pc p)) ps) + job_weight (call_limit (ps ! i)) (p_pc p')"
  using sum_list_update [OF assms(1), of "\<lambda>p. job_weight (call_limit p) (p_pc p)" p'] key_cong(3) [OF assms(2)] by simp

lemma inner_step_weight:
  assumes "inner_step rt ops y y'" and "stopping rt y"
  shows "weight y' < weight y"
proof -
  have ex: "execs_ok y" and ca: "calls_ok rt y" using assms(2) by (simp_all add: stopping_def sys_inv_def)
  have keys: "map proc_key (y_procs y') = map proc_key (y_procs y)" using inner_calls_ok [OF assms(1) ca ex] by blast
  have old: "\<forall>x \<in> set (y_execs y). fst x < length (y_procs y)" using ex by (simp add: execs_ok_def)
  note ew = execs_weight_keys [OF keys]
  show ?thesis
    using assms(1)
  proof (cases rule: inner_step.cases)
    case (in_job i p' s')
    from job_step_core [OF in_job(3)] have "p_pc (y_procs y ! i) \<noteq> JDone" by blast
    then have "job_weight (call_limit (y_procs y ! i)) (p_pc p') < job_weight (call_limit (y_procs y ! i)) (p_pc (y_procs y ! i))"
      using job_step_weight [OF in_job(3)] stopping_ctx [OF assms(2)] in_job(2) by simp
    with jobs_weight_update [OF in_job(2) job_step_key [OF in_job(3)]] ew [OF old] in_job(1) show ?thesis
      by (simp add: weight_def)
  next
    case (in_enqueue i p runs t)
    let ?p = "p\<lparr>p_pc := JTick runs, p_active := Suc (p_active p), p_enqueued := p_enqueued p + 1\<rparr>"
    have "execs_weight (y_procs y) (y_execs y @ [(i, EQueued t)]) = execs_weight (y_procs y) (y_execs y) + (3 * call_limit p + 12)"
      using in_enqueue(3) by (simp add: execs_weight_def)
    moreover have "execs_weight (y_procs y') (y_execs y @ [(i, EQueued t)]) = execs_weight (y_procs y) (y_execs y @ [(i, EQueued t)])"
      using old in_enqueue(2) by (intro ew) auto
    ultimately show ?thesis
      using jobs_weight_update [OF in_enqueue(2), of ?p] in_enqueue(1,3,4) by (simp add: weight_def proc_key_def)
  next
    case (in_exec k i pc pc' s')
    with execs_weight_update [OF in_exec(2,3), of "y_procs y" pc'] exec_step_weight [OF in_exec(5)]
    show ?thesis by (simp add: weight_def)
  next
    case (in_call k i t env c p tr pool' c')
    have "attempt_ok (call_limit p) c"
      using ca nth_mem [OF in_call(2)] in_call(3,5) by (fastforce simp: calls_ok_def exec_ok_def)
    with execs_weight_update [OF in_call(2,3), of "y_procs y" "EAttempts t env c'"] single_decreases [OF in_call(7)] in_call(1,5)
    show ?thesis by (simp add: weight_def)
  next
    case (in_release k i)
    with execs_weight_update [OF in_release(2,3), of "y_procs y" EReleased] show ?thesis by (simp add: weight_def)
  next
    case (in_runs_done k i p)
    have "execs_weight (y_procs y') (y_execs y') = execs_weight (y_procs y) (y_execs y')"
      using old in_runs_done(1,4) by (intro ew) (auto dest!: set_update_memI)
    with execs_weight_update [OF in_runs_done(2,3), of "y_procs y" ELeaving] in_runs_done(1,5)
      jobs_weight_update [OF in_runs_done(4), of "p\<lparr>p_active := p_active p - 1\<rparr>"]
    show ?thesis by (simp add: weight_def proc_key_def)
  next
    case (in_leave k i)
    with sum_remove [OF in_leave(2), of "\<lambda>x. exec_weight (call_limit (y_procs y ! fst x)) (snd x)"] show ?thesis
      by (simp add: weight_def execs_weight_def)
  qed
qed

section \<open>Progress\<close>

definition awake_env :: do_env where
  "awake_env = demo_env\<lparr>d_wait := (\<lambda>i. (d_wait demo_env i)\<lparr>w_ctx := Some ctx_Canceled\<rparr>)\<rparr>"

lemma runnable_call:
  assumes "runnable p"
  shows "\<exists>env tr. call_trace rt env (je_job (p_entry p)) = Some tr"
proof -
  let ?job = "je_job (p_entry p)" and ?env = "demo_exec\<lparr>ee_do := awake_env\<rparr>"
  from assms obtain r where r: "job_retrier p = Some r" "usable r" by (auto simp: runnable_def)
  have "delivers (exec_attempts ?env ?job) (\<lambda>i. attempt_error ?job (ee_http ?env i))"
    by (simp add: delivers_def exec_attempts_def demo_exec_def demo_attempts_def)
  moreover have "awake rt awake_env r i" for i by (simp add: awake_def awake_env_def)
  ultimately obtain errs r' tr where "DoWithContext rt awake_env r (Some (exec_attempts ?env ?job))
      (buildTemporaryErrors r (j_RetryPolicy ?job)) = Ret (errs, r', tr)"
    using DoWithContext_returns [OF r(2)] by blast
  with r(1) show ?thesis by (intro exI [of _ ?env]) (simp add: call_trace_def)
qed

lemma call_trace_run:
  assumes "call_trace rt env job = Some tr"
  shows "\<exists>payload retr' reqs s'. exec_run rt env job t s = Ret (payload, retr', reqs, s')"
  using assms by (auto simp: call_trace_def exec_run_def Let_def split: option.splits res.splits)

lemma call_trace_length:
  assumes "call_trace rt env (je_job (p_entry p)) = Some tr" and "runnable p"
  shows "0 < length (calls tr) \<and> length (calls tr) \<le> Suc (call_limit p)"
proof -
  from assms(2) obtain r where r: "job_retrier p = Some r" "usable r" by (auto simp: runnable_def)
  with assms(1) obtain errs r' where "DoWithContext rt (ee_do env) r (Some (exec_attempts env (je_job (p_entry p))))
      (buildTemporaryErrors r (j_RetryPolicy (je_job (p_entry p)))) = Ret (errs, r', tr)"
    by (auto simp: call_trace_def split: res.splits)
  from dwc_calls [OF r(2) this] r(1) show ?thesis by (auto simp: call_limit_def)
qed

text \<open>A call that is not blocked in \<open>Get\<close> can go on.\<close>

definition blocked :: "timer_pool \<Rightarrow> caller \<Rightarrow> bool" where
  "blocked pool c \<longleftrightarrow> pool_idle pool = 0 \<and> (c = Start \<or> (\<exists>k t. c = NeedTimer k t))"

lemma single_progress:
  assumes "share_inv m cap (pool, cs)" and "j < length cs" and "cs ! j = c" and "c \<noteq> Done"
    and "on_plan n c" and "n \<le> Suc m" and "\<not> blocked pool c"
  shows "\<exists>pool' c'. share_step m (pool, [c]) (pool', [c']) \<and> follows_plan n c c'"
proof -
  have get: "\<exists>t pool'. pool_Get 0 pool = Ret (Some t, pool')" if "0 < pool_idle pool"
    using pool.get_ready [of pool 0] assms(1) that by (auto simp: share_inv_def)
  have put: "\<exists>pool'. pool_Put 0 t pool = Ret pool'" if "0 < held c" for t
    using can_put [OF assms(1,2), of 0 t] assms(3) that by simp
  show ?thesis
  proof (cases c)
    case Start
    with assms(7) get obtain t pool' where "pool_Get 0 pool = Ret (Some t, pool')" by (auto simp: blocked_def)
    with enter [of 0 "[c]" 0 pool t pool' m] Start show ?thesis by fastforce
  next
    case (Running k t)
    show ?thesis
    proof (cases "Suc k = n")
      case True
      with finish [of 0 "[c]" k t m pool] Running show ?thesis by fastforce
    next
      case False
      with assms(5,6) Running retry [of 0 "[c]" k t m pool] show ?thesis by fastforce
    qed
  next
    case (NeedTimer k t)
    with assms(7) get obtain t' pool' where "pool_Get 0 pool = Ret (Some t', pool')" by (auto simp: blocked_def)
    with take_timer [of 0 "[c]" k t 0 pool t' pool' m] NeedTimer show ?thesis by fastforce
  next
    case (Waiting k t t')
    with put [of t'] obtain pool' where g: "pool_Put 0 t' pool = Ret pool'" by auto
    show ?thesis
    proof (cases "Suc k = n")
      case True
      with abort [of 0 "[c]" k t t' 0 pool pool' m] Waiting g show ?thesis by fastforce
    next
      case False
      with assms(5) Waiting resume [of 0 "[c]" k t t' 0 pool pool' m] g show ?thesis by fastforce
    qed
  next
    case (Leaving t)
    with put [of t] obtain pool' where "pool_Put 0 t pool = Ret pool'" by auto
    with leave [of 0 "[c]" t 0 pool pool' m] Leaving show ?thesis by fastforce
  qed (use assms(4) in simp)
qed

lemma exec_progress_at:
  assumes "k < length (y_execs y)" and "y_execs y ! k = (i, pc)"
    and "sys_inv y" and "pools_ok y" and "calls_ok rt y" and "\<forall>p \<in> set (y_procs y). runnable p"
    and "\<And>t env c. pc = EAttempts t env c \<Longrightarrow> \<not> blocked (y_pools y (p_pool (y_procs y ! i))) c"
  shows "\<exists>y'. inner_step rt ops y y'"
proof -
  let ?p = "y_procs y ! i"
  have mem: "(i, pc) \<in> set (y_execs y)" using nth_mem [OF assms(1)] assms(2) by simp
  then have i: "i < length (y_procs y)" using assms(3) by (auto simp: sys_inv_def execs_ok_def)
  have p: "?p \<in> set (y_procs y)" "runnable ?p" using i assms(6) by simp_all
  have e: "\<exists>y'. inner_step rt ops y y'" if "exec_step rt ops ?p pc (y_sched y) pc' s'" for pc' s'
    using in_exec [OF assms(1,2) i that] by blast
  show ?thesis
  proof (cases pc)
    case (EAttempts t env c)
    have "exec_ok rt ?p pc" using assms(5) mem by (auto simp: calls_ok_def)
    then obtain tr where tr: "call_trace rt env (je_job (p_entry ?p)) = Some tr" "on_plan (length (calls tr)) c"
      using EAttempts by (auto simp: exec_ok_def)
    show ?thesis
    proof (cases "c = Done")
      case True
      from call_trace_run [OF tr(1), of t "y_sched y"] obtain payload retr' reqs s' where
        "exec_run rt env (je_job (p_entry ?p)) t (y_sched y) = Ret (payload, retr', reqs, s')" by blast
      from e [unfolded EAttempts True, OF ex_attempts [OF this]] show ?thesis .
    next
      case False
      have inv: "share_inv (call_limit ?p) (Suc (call_limit ?p))
          (y_pools y (p_pool ?p), callers (y_procs y) (y_execs y) (p_pool ?p))"
        using assms(4) p unfolding pools_ok_def pool_full_def by blast
      have "callers (y_procs y) (y_execs y) (p_pool ?p) ! k = c"
        using assms(1,2) EAttempts by (simp add: callers_nth exec_caller_def)
      from single_progress [OF inv _ this False tr(2)] assms(1) call_trace_length [OF tr(1) p(2)] assms(7) [OF EAttempts]
      obtain pool' c' where "share_step (call_limit ?p) (y_pools y (p_pool ?p), [c]) (pool', [c'])"
        "follows_plan (length (calls tr)) c c'" by auto
      from in_call [OF assms(1) assms(2) [unfolded EAttempts] i refl tr(1) this] show ?thesis by blast
    qed
  next
    case (ECall t)
    obtain env tr where "call_trace rt env (je_job (p_entry ?p)) = Some tr" using runnable_call [OF p(2)] by blast
    from e [unfolded ECall, OF ex_call [OF this]] show ?thesis .
  next
    case (ECallback payload)
    obtain m out where "(m :: CallbackPayload \<Rightarrow> goerr + string) = (\<lambda>_. Inr [])" "out = DoFails ErrOperationFailed" by simp
    obtain sent s' where "sendCallback rt m out (je_job (p_entry ?p)) payload (y_sched y) = (sent, s')"
      by fastforce
    from e [unfolded ECallback, OF ex_callback [OF this]] show ?thesis .
  next
    case (EQueued t)
    from e [unfolded EQueued, OF ex_begin] show ?thesis .
  next
    case (EReport payload)
    from e [unfolded EReport, OF ex_report] show ?thesis .
  next
    case EReturned
    with in_release [OF assms(1)] assms(2) show ?thesis by blast
  next
    case EReleased
    with in_runs_done [OF assms(1)] assms(2) i show ?thesis by blast
  next
    case ELeaving
    with in_leave [OF assms(1)] assms(2) show ?thesis by blast
  qed
qed

text \<open>
  The executions cannot drain the pool of the job's retrier: the calls never wait, or there are not
  more slots than the retrier retries.
\<close>

definition limited :: "'s Scheduler \<Rightarrow> proc \<Rightarrow> bool" where
  "limited s p \<longleftrightarrow> call_limit p = 0 \<or> (\<exists>n. s_sem s = Some n \<and> n \<le> int (call_limit p))"

lemma sum_le_cnt:
  assumes "\<forall>x \<in> set xs. f x \<le> (if P x then 1 else 0 :: nat)"
  shows "sum_list (map f xs) \<le> cnt P xs"
  using assms by (induction xs) auto

lemma exec_progress:
  assumes "y_execs y \<noteq> []" and "sys_inv y" and "pools_ok y" and "calls_ok rt y"
    and "\<forall>p \<in> set (y_procs y). runnable p \<and> limited (y_sched y) p"
  shows "\<exists>y'. inner_step rt ops y y'"
proof (rule ccontr)
  assume no: "\<nexists>y'. inner_step rt ops y y'"
  have blk: "\<exists>t env c. pc = EAttempts t env c \<and> blocked (y_pools y (p_pool (y_procs y ! i))) c"
    if "k < length (y_execs y)" "y_execs y ! k = (i, pc)" for k i pc
    using exec_progress_at [OF that assms(2-4)] assms(5) no by blast
  obtain i pc where x: "y_execs y ! 0 = (i, pc)" "(i, pc) \<in> set (y_execs y)"
    using assms(1) by (metis length_greater_0_conv nth_mem surj_pair)
  let ?p = "y_procs y ! i" let ?m = "call_limit ?p" and ?cs = "callers (y_procs y) (y_execs y) (p_pool (y_procs y ! i))"
  have p: "?p \<in> set (y_procs y)" using x(2) assms(2) by (auto simp: sys_inv_def execs_ok_def)
  then have inv: "share_inv ?m (Suc ?m) (y_pools y (p_pool ?p), ?cs)"
    using assms(3,5) unfolding pools_ok_def pool_full_def by blast
  have "pool_idle (y_pools y (p_pool ?p)) = 0" using blk [OF _ x(1)] assms(1) by (auto simp: blocked_def)
  with inv have sum: "sum_list (map held ?cs) = Suc ?m" by (simp add: share_inv_def)
  have one: "held c \<le> (if ?m = 0 then 0 else 1)" if "c \<in> set ?cs" for c
  proof -
    from that obtain k where k: "k < length (y_execs y)" "?cs ! k = c" by (auto simp: in_set_conv_nth)
    have ok: "attempt_ok ?m c" using attempt_ok_nth [OF inv, of k] k by simp
    obtain j q where j: "y_execs y ! k = (j, q)" by fastforce
    from blk [OF k(1) j] obtain t env d where d: "q = EAttempts t env d" "d = Start \<or> (\<exists>n t. d = NeedTimer n t)"
      by (auto simp: blocked_def)
    have "c = d \<or> c = Done" using k j d(1) by (auto simp: callers_nth exec_caller_def split: if_splits)
    with d(2) ok show ?thesis by auto
  qed
  have "sum_list (map held ?cs) \<le> slots (y_execs y)"
  proof -
    have "held (exec_caller (y_procs y) (p_pool ?p) x) \<le> (if holds_slot (snd x) then 1 else 0)"
      if "x \<in> set (y_execs y)" for x
    proof (cases "holds_slot (snd x)")
      case False
      then show ?thesis by (cases "snd x") (auto simp: exec_caller_def)
    qed (use one [of "exec_caller (y_procs y) (p_pool ?p) x"] that in \<open>auto simp: callers_def split: if_splits\<close>)
    then show ?thesis
      using sum_le_cnt [of "y_execs y" "\<lambda>x. held (exec_caller (y_procs y) (p_pool ?p) x)" "\<lambda>x. holds_slot (snd x)"]
      by (simp add: callers_def slots_def comp_def)
  qed
  moreover have "?m \<noteq> 0"
  proof
    assume "?m = 0"
    with one have "\<forall>c \<in> set ?cs. held c = 0" by auto
    then have "sum_list (map held ?cs) = 0" by simp
    with sum show False by simp
  qed
  moreover have "limited (y_sched y) ?p" using assms(5) p by blast
  moreover have "slots_ok y" using assms(2) by (simp add: sys_inv_def)
  ultimately show False using sum by (auto simp: limited_def slots_ok_def)
qed

lemma job_progress:
  assumes "y_execs y = []" and "sys_inv y" and "i < length (y_procs y)" and "p_pc (y_procs y ! i) \<noteq> JDone"
    and "job_ctx (y_sched y) (y_procs y ! i) \<noteq> None"
  shows "\<exists>y'. inner_step rt ops y y'"
proof -
  let ?p = "y_procs y ! i" and ?s = "y_sched y"
  have a: "p_active ?p = 0" using assms(1-3) by (simp add: sys_inv_def execs_ok_def execs_of_def)
  have sl: "slot_free y" using assms(1,2) by (auto simp: slot_free_def sys_inv_def slots_ok_def split: option.splits)
  have j: "\<exists>y'. inner_step rt ops y y'" if "job_step rt ops ?p ?s p' s'" for p' s'
    using in_job [OF assms(3) that] by blast
  obtain st s' where ct: "contextTerminalState ops (job_ctx ?s ?p) (j_ID (je_job (p_entry ?p))) ?s = (st, s')"
    by fastforce
  show ?thesis
  proof (cases "p_pc ?p")
    case JStart
    let ?at = "sc_StartAt (j_Schedule (je_job (p_entry ?p)))"
    from j [OF start_now [where now = "case ?at of None \<Rightarrow> 0 | Some t \<Rightarrow> t"]] JStart show ?thesis
      by (simp split: option.split)
  next
    case JWaitStart
    from j [OF start_due [OF JWaitStart]] show ?thesis .
  next
    case (JLoop n)
    from j [OF loop_canceled [OF JLoop assms(5) ct]] show ?thesis .
  next
    case (JEnqueue n t)
    from in_enqueue [OF assms(3) refl JEnqueue sl] show ?thesis by blast
  next
    case (JTick n)
    from j [OF tick [OF JTick]] show ?thesis .
  next
    case (JDrain st)
    from j [OF drained [OF JDrain a]] show ?thesis .
  next
    case (JFinalize st)
    from j [OF finalize [OF JFinalize]] show ?thesis .
  next
    case JCleanup
    from j [OF cleanup [OF JCleanup refl]] show ?thesis .
  next
    case JDone
    with assms(4) show ?thesis by simp
  qed
qed

text \<open>Nothing is left to run.\<close>

definition quiescent :: "'s system \<Rightarrow> bool" where
  "quiescent y \<longleftrightarrow> (\<forall>p \<in> set (y_procs y). p_pc p = JDone) \<and> y_execs y = []"

lemma stopping_progress:
  assumes "stopping rt y" and "\<forall>p \<in> set (y_procs y). runnable p \<and> limited (y_sched y) p" and "\<not> quiescent y"
  shows "\<exists>y'. inner_step rt ops y y'"
proof (cases "y_execs y = []")
  case False
  with exec_progress [OF _ _ _ _ assms(2)] assms(1) show ?thesis unfolding stopping_def by blast
next
  case True
  with assms(3) obtain i where i: "i < length (y_procs y)" "p_pc (y_procs y ! i) \<noteq> JDone"
    by (auto simp: quiescent_def in_set_conv_nth)
  have "sys_inv y" using assms(1) by (simp add: stopping_def)
  moreover have "job_ctx (y_sched y) (y_procs y ! i) \<noteq> None"
    using stopping_ctx [OF assms(1) _ i(2)] i(1) by simp
  ultimately show ?thesis using job_progress [OF True _ i] by blast
qed

lemma inner_step_sem: "inner_step rt ops y y' \<Longrightarrow> s_sem (y_sched y') = s_sem (y_sched y)"
  by (cases rule: inner_step.cases, assumption) (auto dest: job_step_core exec_step_core simp: same_core_def)

lemma inner_runnable:
  assumes "inner_step rt ops y y'" and "stopping rt y"
    and "\<forall>p \<in> set (y_procs y). runnable p \<and> limited (y_sched y) p"
  shows "\<forall>p \<in> set (y_procs y'). runnable p \<and> limited (y_sched y') p"
proof
  fix p assume p: "p \<in> set (y_procs y')"
  have "map proc_key (y_procs y') = map proc_key (y_procs y)"
    using inner_calls_ok [OF assms(1)] assms(2) by (simp add: stopping_def sys_inv_def)
  from keys_mem [OF this p] obtain q where q: "q \<in> set (y_procs y)" "proc_key q = proc_key p" by blast
  with assms(3) key_cong(3,4) [OF q(2)] inner_step_sem [OF assms(1)] show "runnable p \<and> limited (y_sched y') p"
    by (auto simp: limited_def)
qed

lemma stopping_run:
  assumes "(inner_step rt ops ^^ n) y z" and "stopping rt y"
    and "\<forall>p \<in> set (y_procs y). runnable p \<and> limited (y_sched y) p"
  shows "stopping rt z \<and> (\<forall>p \<in> set (y_procs z). runnable p \<and> limited (y_sched z) p) \<and> weight z + n \<le> weight y"
  using assms(1)
proof (induction n arbitrary: z)
  case 0
  with assms(2,3) show ?case by simp
next
  case (Suc n)
  then obtain x where x: "(inner_step rt ops ^^ n) y x" "inner_step rt ops x z" by auto
  from Suc.IH [OF x(1)] have "stopping rt x" "\<forall>p \<in> set (y_procs x). runnable p \<and> limited (y_sched x) p"
    "weight x + n \<le> weight y" by blast+
  with stopping_step [OF x(2)] inner_runnable [OF x(2)] inner_step_weight [OF x(2)] show ?case by auto
qed

lemma quiescent_wg:
  assumes "sys_inv y" and "quiescent y"
  shows "s_wg (y_sched y) = 0"
proof -
  have "\<not> 0 < running (y_procs y)" using assms(2) unfolding running_def cnt_pos by (simp add: quiescent_def)
  with assms show ?thesis by (simp add: sys_inv_def wg_ok_def quiescent_def)
qed

section \<open>Properties\<close>

lemma sys_step_sem: "sys_step rt ops y y' \<Longrightarrow> s_sem (y_sched y') = s_sem (y_sched y)"
proof -
  have "client_step rt ops y y' \<Longrightarrow> s_sem (y_sched y') = s_sem (y_sched y)"
    by (cases rule: client_step.cases, assumption)
      (auto dest: Schedule_core Schedule_fresh Remove_core simp: Stop_core same_core_def)
  then show "sys_step rt ops y y' \<Longrightarrow> s_sem (y_sched y') = s_sem (y_sched y)"
    using inner_step_sem unfolding sys_step_def by blast
qed

lemma reachable_sem: "(sys_step rt ops)\<^sup>*\<^sup>* y y' \<Longrightarrow> s_sem (y_sched y') = s_sem (y_sched y)"
  by (induction rule: rtranclp_induct) (auto dest: sys_step_sem)

lemma stop_stopping:
  assumes "NewSchedulerWithError ops st0 dv now c opts = (s, err)" and "list_all plain_option opts"
    and "(sys_step rt ops)\<^sup>*\<^sup>* (boot s) y" and "y1 = y\<lparr>y_sched := sched_Stop rt ops c1 now1 (y_sched y)\<rparr>"
  shows "stopping rt y1"
proof -
  have "sys_step rt ops y y1" unfolding assms(4) sys_step_def by (rule disjI2, rule cl_stop)
  with assms(3) have "(sys_step rt ops)\<^sup>*\<^sup>* (boot s) y1" by (rule rtranclp.rtrancl_into_rtrancl)
  from reachable_inv [OF assms(1,2) this] reachable_pools [OF assms(1,2) this] show ?thesis
    by (simp add: stopping_def assms(4) Stop_core)
qed

text \<open>
  (C3) Bounds on runs. Whatever the storage does and however the goroutines and the client calls
  interleave, a scheduler built with any of its options never runs more executions at a time than
  \<open>WithConcurrency\<close> allows, no job ever enqueues more than \<open>MaxRuns\<close> runs, and the scheduler's wait
  group counts exactly the job goroutines and executions that have not ended.
\<close>

theorem run_bounds:
  assumes "NewSchedulerWithError ops st0 dv now c opts = (s, err)" and "list_all plain_option opts"
    and "(sys_step rt ops)\<^sup>*\<^sup>* (boot s) y"
  shows "(\<forall>n. s_sem s = Some n \<longrightarrow> int (length (filter (\<lambda>x. holds_slot (snd x)) (y_execs y))) \<le> n) \<and>
    (\<forall>p \<in> set (y_procs y). 0 < sc_MaxRuns (j_Schedule (je_job (p_entry p))) \<longrightarrow>
       p_enqueued p \<le> sc_MaxRuns (j_Schedule (je_job (p_entry p)))) \<and>
    s_wg (y_sched y) =
      int (length (filter (\<lambda>p. p_pc p \<noteq> JDone) (y_procs y))) + int (length (y_execs y))"
proof (intro conjI allI ballI impI)
  note inv = reachable_inv [OF assms]
  have sem: "s_sem (y_sched y) = s_sem s" using reachable_sem [OF assms(3)] by (simp add: boot_def)
  show "int (length (filter (\<lambda>x. holds_slot (snd x)) (y_execs y))) \<le> n" if "s_sem s = Some n" for n
    using inv that sem by (simp add: sys_inv_def slots_ok_def slots_def cnt_def)
  show "s_wg (y_sched y) =
      int (length (filter (\<lambda>p. p_pc p \<noteq> JDone) (y_procs y))) + int (length (y_execs y))"
    using inv by (simp add: sys_inv_def wg_ok_def running_def cnt_def)
  fix p assume p: "p \<in> set (y_procs y)" and m: "0 < sc_MaxRuns (j_Schedule (je_job (p_entry p)))"
  from inv p have "runs_ok p" by (simp add: sys_inv_def procs_ok_def proc_ok_def)
  with m show "p_enqueued p \<le> sc_MaxRuns (j_Schedule (je_job (p_entry p)))"
    by (auto simp: runs_ok_def runs_bound_def split: job_pc.splits)
qed

text \<open>
  (C14) A job ends after its executions. When the goroutine of a job records the final state,
  removes the job or has ended, every execution of that job has left the job's wait group: its
  result is recorded and its callback was sent.
\<close>

theorem run_drained:
  assumes "NewSchedulerWithError ops st0 dv now c opts = (s, err)" and "list_all plain_option opts"
    and "(sys_step rt ops)\<^sup>*\<^sup>* (boot s) y" and "i < length (y_procs y)"
    and "past_drain (p_pc (y_procs y ! i))" and "(i, pc) \<in> set (y_execs y)"
  shows "pc = ELeaving"
proof -
  note inv = reachable_inv [OF assms(1-3)]
  have "proc_ok (y_procs y ! i)" using inv assms(4) by (simp add: sys_inv_def procs_ok_def)
  then have "p_active (y_procs y ! i) = 0" using assms(5) by (simp add: proc_ok_def)
  then have "\<not> 0 < execs_of i (y_execs y)" using inv assms(4) by (simp add: sys_inv_def execs_ok_def)
  with assms(6) show ?thesis unfolding execs_of_def cnt_pos by auto
qed

text \<open>
  (C2) \<open>Stop\<close> returns. From the moment \<open>Stop\<close> has cancelled the jobs, whatever the storage does,
  the goroutines make at most \<open>weight\<close> further steps in any order, and when none of them can make
  another step then all have ended and the wait group that \<open>Stop\<close> waits for is zero. All executions
  of a job, and of jobs with the same retrier, share its timer pool, and two conditions keep them
  from blocking there. The jobs' retriers are runnable: they validate and have a full pool or none
  yet. And every job is limited: its retrier never retries, or the scheduler was built with
  \<open>WithConcurrency n\<close> for an \<open>n\<close> of at most the retrier's \<open>MaxRetries\<close>. Attempts are assumed to
  return, or their contexts and timers to fire; clients outside the scheduler do not use the retriers.
\<close>

theorem stop_drains:
  assumes "NewSchedulerWithError ops st0 dv now c opts = (s, err)" and "list_all plain_option opts"
    and "(sys_step rt ops)\<^sup>*\<^sup>* (boot s) y"
    and "\<forall>p \<in> set (y_procs y). runnable p" and "\<forall>p \<in> set (y_procs y). limited s p"
    and "y1 = y\<lparr>y_sched := sched_Stop rt ops c1 now1 (y_sched y)\<rparr>" and "(inner_step rt ops ^^ n) y1 z"
  shows "n \<le> weight y1 \<and>
    ((\<nexists>z'. inner_step rt ops z z') \<longrightarrow>
       (\<forall>p \<in> set (y_procs z). p_pc p = JDone) \<and> y_execs z = [] \<and> s_wg (y_sched z) = 0)"
proof -
  have st: "stopping rt y1" using stop_stopping [OF assms(1-3,6)] .
  have sem: "s_sem (y_sched y1) = s_sem s"
    using reachable_sem [OF assms(3)] Stop_core [of rt ops c1 now1 "y_sched y"] by (simp add: assms(6) boot_def)
  have "\<forall>p \<in> set (y_procs y1). runnable p \<and> limited (y_sched y1) p"
    using assms(4-6) sem by (simp add: limited_def)
  from stopping_run [OF assms(7) st this] have z: "stopping rt z"
    "\<forall>p \<in> set (y_procs z). runnable p \<and> limited (y_sched z) p" "weight z + n \<le> weight y1" by blast+
  show ?thesis
  proof (cases "\<exists>z'. inner_step rt ops z z'")
    case False
    then have "quiescent z" using stopping_progress [OF z(1,2)] by blast
    with quiescent_wg [of z] z(1,3) show ?thesis by (simp add: stopping_def quiescent_def)
  qed (use z(3) in simp)
qed

section \<open>A running scheduler for the witnesses\<close>

lemma stopping_ends:
  assumes "stopping rt y"
  shows "\<exists>n z. (inner_step rt ops ^^ n) y z \<and> (\<nexists>z'. inner_step rt ops z z')"
  using assms
proof (induction "weight y" arbitrary: y rule: less_induct)
  case less
  show ?case
  proof (cases "\<exists>z'. inner_step rt ops y z'")
    case False
    then have "(inner_step rt ops ^^ 0) y y \<and> (\<nexists>z'. inner_step rt ops y z')" by simp
    then show ?thesis by blast
  next
    case True
    then obtain x where x: "inner_step rt ops y x" by blast
    from less.hyps [OF inner_step_weight [OF x less.prems] stopping_step [OF x less.prems]]
    obtain n z where "(inner_step rt ops ^^ n) x z" "\<nexists>z'. inner_step rt ops z z'" by blast
    with relpowp_Suc_I2 [of "inner_step rt ops" y x n z, OF x] show ?thesis by blast
  qed
qed

definition live_opts :: "mem_store sched_option list" where
  "live_opts = [WithConcurrency 1]"

definition live_sched :: "mem_store Scheduler" where
  "live_sched = fst (NewSchedulerWithError InMemoryJobsStorage NewInMemoryJobsStorage
     (Inr (\<lambda>_ url. Inr url)) (\<lambda>_. 0) None live_opts)"

lemma live_new:
  "NewSchedulerWithError InMemoryJobsStorage NewInMemoryJobsStorage (Inr (\<lambda>_ url. Inr url)) (\<lambda>_. 0) None live_opts =
     (live_sched, None)"
  "list_all plain_option live_opts"
proof -
  show "NewSchedulerWithError InMemoryJobsStorage NewInMemoryJobsStorage (Inr (\<lambda>_ url. Inr url)) (\<lambda>_. 0) None live_opts =
     (live_sched, None)"
    by (simp add: live_sched_def live_opts_def NewSchedulerWithError_def reconcileRecoveredState_def WithConcurrency_def
        InMemoryJobsStorage_def mem_IDs_def NewInMemoryJobsStorage_def)
  show "list_all plain_option live_opts" by (auto simp: live_opts_def plain_option_def)
qed

lemma live_sched_eq:
  "s_jobs live_sched = []" "s_jobsStorage live_sched = NewInMemoryJobsStorage" "s_sem live_sched = Some 1"
  "\<not> s_stopped live_sched" "s_urlValidator live_sched = Some (\<lambda>_ url. Inr url)" "s_ctx live_sched = None"
  by (simp_all add: live_sched_def live_opts_def NewSchedulerWithError_def reconcileRecoveredState_def
      WithConcurrency_def InMemoryJobsStorage_def mem_IDs_def NewInMemoryJobsStorage_def)

lemma live_normal: "\<exists>job'. normalizeJob rt t live_sched demo_exec_job = Ret (Inr job') \<and> j_ID job' = ''a'' \<and>
    j_Schedule job' = j_Schedule demo_exec_job \<and> rp_Retrier (j_RetryPolicy job') = Some demo_retrier"
proof -
  have "validateSchedule (j_Schedule demo_exec_job) = None"
    by (simp add: demo_exec_job_def demo_job_def validateSchedule_def)
  moreover have "\<exists>rq. normalizeRequest live_sched (j_Request demo_exec_job) = Inr rq"
    by (simp add: demo_exec_job_def demo_job_def normalizeRequest_def live_sched_eq isSupportedMethod_def upper_get
        Let_def del: str_ToUpper.simps)
  moreover have "normalizeCallback live_sched (j_Callback demo_exec_job) = Inr (j_Callback demo_exec_job)"
    by (simp add: demo_exec_job_def demo_job_def normalizeCallback_def)
  ultimately show ?thesis
    by (auto simp: normalizeJob_def live_sched_eq ensureRetrier_def) (simp_all add: demo_exec_job_def demo_job_def)
qed

lemma live_schedule:
  "\<exists>s' e. sched_Schedule chain_runtime InMemoryJobsStorage None 0 (\<lambda>_. 1) demo_exec_job live_sched = Ret (Inr ''a'', s') \<and>
     last (s_spawned s') = e \<and> j_Schedule (je_job e) = j_Schedule demo_exec_job \<and>
     rp_Retrier (j_RetryPolicy (je_job e)) = Some demo_retrier"
proof -
  obtain job' where j: "normalizeJob chain_runtime 0 live_sched demo_exec_job = Ret (Inr job')" "j_ID job' = ''a''"
    "j_Schedule job' = j_Schedule demo_exec_job" "rp_Retrier (j_RetryPolicy job') = Some demo_retrier"
    using live_normal by blast
  have ok: "sched_ok mem_abs mem_invar live_sched"
    using mem_new by (simp add: sched_ok_def live_sched_eq) (simp add: mem_abs_def NewInMemoryJobsStorage_def)
  have n: "map_of (s_jobs live_sched) (j_ID job') = None" by (simp add: live_sched_eq)
  from mem.Schedule_register_ok [OF ok TrueI chain.error_matching_axioms TrueI n live_sched_eq(4), of None "\<lambda>_. 1"] j(2)
  obtain s' where s': "Schedule_register chain_runtime InMemoryJobsStorage None (\<lambda>_. 1) job' live_sched = (Inr ''a'', s')"
    by auto
  with Schedule_register_core [OF s'] j show ?thesis
    using Schedule_cases [OF j(1) live_sched_eq(4), of InMemoryJobsStorage None "\<lambda>_. 1"]
    by (auto simp: live_sched_eq)
qed

lemma client_first: "client_step rt ops y y' \<Longrightarrow> (sys_step rt ops)\<^sup>*\<^sup>* y' z \<Longrightarrow> (sys_step rt ops)\<^sup>*\<^sup>* y z"
  by (metis converse_rtranclp_into_rtranclp sys_step_def)

lemma inner_first: "inner_step rt ops y y' \<Longrightarrow> (sys_step rt ops)\<^sup>*\<^sup>* y' z \<Longrightarrow> (sys_step rt ops)\<^sup>*\<^sup>* y z"
  by (metis converse_rtranclp_into_rtranclp sys_step_def)

abbreviation live_step :: "mem_store system \<Rightarrow> mem_store system \<Rightarrow> bool" where
  "live_step \<equiv> sys_step chain_runtime InMemoryJobsStorage"

lemma demo_full: "full_pool demo_retrier"
  by (simp add: full_pool_def demo_retrier_def zero_retrier_def)

lemma live_run:
  "\<exists>s p f. live_step\<^sup>*\<^sup>* (boot live_sched) \<lparr>y_sched = s, y_procs = [p], y_execs = [(0, EQueued 0)], y_pools = f\<rparr> \<and>
     p_pc p = JTick 1 \<and> p_active p = 1 \<and> p_enqueued p = 1 \<and> p_parent p = None \<and> runnable p \<and> limited live_sched p \<and>
     job_retrier p = Some demo_retrier \<and> sc_MaxRuns (j_Schedule (je_job (p_entry p))) = 2"
proof -
  obtain s' e where s': "sched_Schedule chain_runtime InMemoryJobsStorage None 0 (\<lambda>_. 1) demo_exec_job live_sched = Ret (Inr ''a'', s')"
    "last (s_spawned s') = e" "j_Schedule (je_job e) = j_Schedule demo_exec_job"
    "rp_Retrier (j_RetryPolicy (je_job e)) = Some demo_retrier" using live_schedule by blast
  let ?p = "new_proc e None 0"
    and ?q = "\<lparr>p_entry = e, p_parent = None, p_pc = JTick 1, p_active = 1, p_enqueued = 1, p_pool = 0\<rparr>"
  define f :: "nat \<Rightarrow> timer_pool" where "f = (\<lambda>_. no_pool)(0 := initial_pool chain_runtime 0 e)"
  have sem: "s_sem s' = Some 1" "s_canceled s' = {}"
    using Schedule_core [OF s'(1)] by (auto simp: live_sched_eq)
      (simp add: live_sched_def live_opts_def NewSchedulerWithError_def reconcileRecoveredState_def
        WithConcurrency_def InMemoryJobsStorage_def mem_IDs_def NewInMemoryJobsStorage_def)
  define y where "y pc = \<lparr>y_sched = s', y_procs = [?p\<lparr>p_pc := pc\<rparr>], y_execs = [], y_pools = f\<rparr>" for pc
  have "retrier_choice (boot live_sched) demo_exec_job e 0" by (simp add: retrier_choice_def boot_def)
  from cl_schedule [OF _ s'(2) this, of chain_runtime InMemoryJobsStorage None 0 "\<lambda>_. 1" "''a''"] s'(1)
  have c0: "client_step chain_runtime InMemoryJobsStorage (boot live_sched) (y JStart)"
    by (simp add: boot_def y_def new_proc_def assign_pool_def f_def)
  have job: "inner_step chain_runtime InMemoryJobsStorage (y pc) (y pc')"
    if "job_step chain_runtime InMemoryJobsStorage (?p\<lparr>p_pc := pc\<rparr>) s' (?p\<lparr>p_pc := pc'\<rparr>) s'" for pc pc'
    using in_job [of 0 "y pc" chain_runtime InMemoryJobsStorage "?p\<lparr>p_pc := pc'\<rparr>" s'] that by (simp add: y_def)
  have i1: "inner_step chain_runtime InMemoryJobsStorage (y JStart) (y (JLoop 0))"
    using start_now [of "?p\<lparr>p_pc := JStart\<rparr>" 0 chain_runtime InMemoryJobsStorage s'] s'(3)
    by (intro job) (simp add: new_proc_def demo_exec_job_def demo_job_def)
  have i2: "inner_step chain_runtime InMemoryJobsStorage (y (JLoop 0)) (y (JEnqueue 1 0))"
    using loop_run [of "?p\<lparr>p_pc := JLoop 0\<rparr>" 0 s' 0 0 chain_runtime InMemoryJobsStorage] s'(3) sem(2)
    by (intro job) (simp add: new_proc_def demo_exec_job_def demo_job_def max_runs_reached_def end_passed_def job_ctx_def)
  have i3: "inner_step chain_runtime InMemoryJobsStorage (y (JEnqueue 1 0))
      \<lparr>y_sched = s'\<lparr>s_wg := s_wg s' + 1\<rparr>, y_procs = [?q], y_execs = [(0, EQueued 0)], y_pools = f\<rparr>"
    using in_enqueue [of 0 "y (JEnqueue 1 0)" "?p\<lparr>p_pc := JEnqueue 1 0\<rparr>" 1 0 chain_runtime InMemoryJobsStorage] sem(1)
    by (simp add: y_def slot_free_def new_proc_def)
  have "live_step\<^sup>*\<^sup>* (boot live_sched)
      \<lparr>y_sched = s'\<lparr>s_wg := s_wg s' + 1\<rparr>, y_procs = [?q], y_execs = [(0, EQueued 0)], y_pools = f\<rparr>"
    by (rule client_first [OF c0 inner_first [OF i1 inner_first [OF i2 inner_first [OF i3 rtranclp.rtrancl_refl]]]])
  moreover have "runnable ?q" using s'(4) demo_usable demo_full by (simp add: runnable_def)
  moreover have "limited live_sched ?q" using s'(4) by (simp add: limited_def call_limit_def live_sched_eq demo_retrier_def)
  moreover have "sc_MaxRuns (j_Schedule (je_job e)) = 2" using s'(3) by (simp add: demo_exec_job_def demo_job_def)
  ultimately show ?thesis using s'(4) by fastforce
qed

theorem run_bounds_witness:
  "\<exists>y p. live_step\<^sup>*\<^sup>* (boot live_sched) y \<and> y_procs y = [p] \<and> p_enqueued p = 1 \<and> p_enqueued p \<le> 2 \<and>
     int (length (filter (\<lambda>x. holds_slot (snd x)) (y_execs y))) \<le> 1 \<and> s_wg (y_sched y) = 2"
proof -
  obtain s p f where p: "live_step\<^sup>*\<^sup>* (boot live_sched) \<lparr>y_sched = s, y_procs = [p], y_execs = [(0, EQueued 0)], y_pools = f\<rparr>"
    "p_pc p = JTick 1" "p_enqueued p = 1" "sc_MaxRuns (j_Schedule (je_job (p_entry p))) = 2" using live_run by blast
  from run_bounds [OF live_new p(1)] p live_sched_eq(3) show ?thesis
    by (intro exI [of _ "\<lparr>y_sched = s, y_procs = [p], y_execs = [(0, EQueued 0)], y_pools = f\<rparr>"] exI [of _ p]) simp
qed

theorem stop_drains_witness:
  "\<exists>y n z. live_step\<^sup>*\<^sup>* (boot live_sched) y \<and> y_execs y = [(0, EQueued 0)] \<and>
     (inner_step chain_runtime InMemoryJobsStorage ^^ n)
       (y\<lparr>y_sched := sched_Stop chain_runtime InMemoryJobsStorage None (\<lambda>_. 5) (y_sched y)\<rparr>) z \<and>
     y_execs z = [] \<and> s_wg (y_sched z) = 0"
proof -
  obtain s p f where p: "live_step\<^sup>*\<^sup>* (boot live_sched) \<lparr>y_sched = s, y_procs = [p], y_execs = [(0, EQueued 0)], y_pools = f\<rparr>"
    "runnable p" "limited live_sched p" using live_run by blast
  define y where "y = \<lparr>y_sched = s, y_procs = [p], y_execs = [(0, EQueued 0)], y_pools = f\<rparr>"
  define y1 where "y1 = y\<lparr>y_sched := sched_Stop chain_runtime InMemoryJobsStorage None (\<lambda>_. 5) (y_sched y)\<rparr>"
  have y: "live_step\<^sup>*\<^sup>* (boot live_sched) y" "\<forall>p \<in> set (y_procs y). runnable p" "\<forall>p \<in> set (y_procs y). limited live_sched p"
    using p by (simp_all add: y_def)
  from stopping_ends [OF stop_stopping [OF live_new y(1) y1_def], of InMemoryJobsStorage] obtain n z where
    z: "(inner_step chain_runtime InMemoryJobsStorage ^^ n) y1 z"
    "\<nexists>z'. inner_step chain_runtime InMemoryJobsStorage z z'" by blast
  from stop_drains [OF live_new y y1_def z(1)] z y(1) show ?thesis
    by (intro exI [of _ y] exI [of _ n] exI [of _ z]) (simp add: y_def y1_def)
qed

text \<open>A whole execution, up to its place in the scheduler's wait group, in a call of one attempt.\<close>

lemma quick_call:
  "\<exists>tr. call_trace chain_runtime (demo_exec\<lparr>ee_http := (\<lambda>_. Responds 200 \<lparr>bs_data = [], bs_err = None\<rparr> None)\<rparr>) job = Some tr \<and>
     length (calls tr) = 1"
  if "rp_Retrier (j_RetryPolicy job) = Some demo_retrier"
proof -
  let ?env = "demo_exec\<lparr>ee_http := (\<lambda>_. Responds 200 \<lparr>bs_data = [], bs_err = None\<rparr> None)\<rparr>"
  have d: "delivers (exec_attempts ?env job) (\<lambda>i. None)"
    by (simp add: delivers_def exec_attempts_def demo_exec_def demo_attempts_def attempt_error_def)
  have e: "ee_do ?env = demo_env" by (simp add: demo_exec_def)
  obtain errs r' tr where c: "DoWithContext chain_runtime demo_env demo_retrier (Some (exec_attempts ?env job))
      (buildTemporaryErrors demo_retrier (j_RetryPolicy job)) = Ret (errs, r', tr)"
    using DoWithContext_returns [OF demo_usable d demo_awake] by blast
  from Do_result [OF DoWithContext_to_Do [OF demo_usable d c] demo_Validate] obtain n where
    n: "\<forall>i<n. retried chain_runtime (buildTemporaryErrors demo_retrier (j_RetryPolicy job)) (\<lambda>i. None) (d_wait demo_env)
        (filled chain_runtime demo_retrier) i"
      "without_releases tr = concat (map (loop_events chain_runtime (buildTemporaryErrors demo_retrier (j_RetryPolicy job))
        (\<lambda>i. None) (filled chain_runtime demo_retrier)) [0..<Suc n])" by blast
  have "n = 0" using n(1) by (cases n) (auto simp: retried_def)
  moreover have "calls tr = calls (without_releases tr)" by simp
  ultimately have "calls tr = [0..<1]" unfolding n(2) using calls_trace [of _ _ _ _ 1] by simp
  with that c e show ?thesis by (simp add: call_trace_def)
qed

lemma exec_finishes:
  assumes "job_retrier p = Some demo_retrier" and "share_inv 2 3 (f (p_pool p), [])"
  shows "\<exists>s' f'. (sys_step chain_runtime ops)\<^sup>*\<^sup>* \<lparr>y_sched = s, y_procs = [p], y_execs = [(0, EQueued t)], y_pools = f\<rparr>
    \<lparr>y_sched = s', y_procs = [p\<lparr>p_active := p_active p - 1\<rparr>], y_execs = [(0, ELeaving)], y_pools = f'\<rparr>"
proof -
  let ?job = "je_job (p_entry p)" and ?k = "p_pool p"
  obtain env tr where tr: "call_trace chain_runtime env ?job = Some tr" "length (calls tr) = 1"
    using quick_call [OF assms(1)] by blast
  have m: "call_limit p = 2" using assms(1) by (simp add: call_limit_def demo_retrier_def)
  define y where "y s pc f = \<lparr>y_sched = s, y_procs = [p], y_execs = [(0, pc)], y_pools = f\<rparr>"
    for s :: "'a Scheduler" and pc f
  have ex: "inner_step chain_runtime ops (y s pc f) (y s' pc' f)" if "exec_step chain_runtime ops p pc s pc' s'" for s pc s' pc' f
    using in_exec [of 0 "y s pc f" 0 pc chain_runtime ops pc' s'] that by (simp add: y_def)
  have call: "inner_step chain_runtime ops (y s (EAttempts t env c) f) (y s (EAttempts t env c') (f(?k := pool')))"
    if "share_step 2 (f ?k, [c]) (pool', [c'])" "follows_plan 1 c c'" for s c c' f pool'
    using in_call [of 0 "y s (EAttempts t env c) f" 0 t env c p chain_runtime tr pool' c' ops] that tr m by (simp add: y_def)
  from pool.get_ready [of "f ?k" 0] assms(2) obtain g q where g: "pool_Get 0 (f ?k) = Ret (Some g, q)"
    by (auto simp: share_inv_def)
  have s0: "share_step 2 (f ?k, [Start]) (q, [Running 0 g])" using enter [of 0 "[Start]" 0 "f ?k" g q 2] g by simp
  have s1: "share_step 2 (q, [Running 0 g]) (q, [Leaving g])" using finish [of 0 "[Running 0 g]" 0 g 2 q] by simp
  have inv0: "share_inv 2 3 (f ?k, [Start])" using assms(2) by (simp add: share_inv_def)
  have inv: "share_inv 2 3 (q, [Leaving g])" using share_step_inv [OF s1 share_step_inv [OF s0 inv0]] .
  obtain q' where q': "pool_Put 0 g q = Ret q'" using can_put [OF inv, of 0 0 g] by auto
  have s2: "share_step 2 (q, [Leaving g]) (q', [Done])" using leave [of 0 "[Leaving g]" g 0 q q' 2] q' by simp
  define s1 where "s1 = markExecutionStart chain_runtime ops (job_ctx s p) (\<lambda>_. 0) (j_ID ?job) s"
  from call_trace_run [OF tr(1), of t s1] obtain payload retr' reqs s2 where
    x: "exec_run chain_runtime env ?job t s1 = Ret (payload, retr', reqs, s2)" by blast
  define s3 where "s3 = recordExecutionResult chain_runtime ops (job_ctx s2 p) (\<lambda>_. 0) (j_ID ?job) payload s2"
  obtain sent s4 where s4: "sendCallback chain_runtime (\<lambda>_. Inr []) (DoFails ErrOperationFailed) ?job payload s3 = (sent, s4)"
    by fastforce
  have "calls tr \<noteq> []" using tr(2) by auto
  then have c0: "exec_step chain_runtime ops p (ECall t) s1 (EAttempts t env Start) s1" using ex_call [OF tr(1), of ops t s1] by simp
  let ?f1 = "f(?k := q)" let ?f2 = "?f1(?k := q)" let ?f3 = "?f2(?k := q')"
  have c1: "inner_step chain_runtime ops (y s1 (EAttempts t env Start) f) (y s1 (EAttempts t env (Running 0 g)) ?f1)"
    using call [of f Start q "Running 0 g" s1] s0 by simp
  have c2: "inner_step chain_runtime ops (y s1 (EAttempts t env (Running 0 g)) ?f1) (y s1 (EAttempts t env (Leaving g)) ?f2)"
    by (rule call) (simp_all add: s1)
  have c3: "inner_step chain_runtime ops (y s1 (EAttempts t env (Leaving g)) ?f2) (y s1 (EAttempts t env Done) ?f3)"
    by (rule call) (simp_all add: s2)
  note steps = ex [OF ex_begin [where s = s and t = t and now = "\<lambda>_. 0"], of f, folded s1_def] ex [OF c0, of f] c1 c2 c3
    ex [OF ex_attempts [OF x], of ?f3]
    ex [OF ex_report [where s = s2 and payload = payload and now = "\<lambda>_. 0"], of ?f3, folded s3_def] ex [OF ex_callback [OF s4], of ?f3]
  have r5: "inner_step chain_runtime ops (y s4 EReturned ?f3) (y s4 EReleased ?f3)"
    using in_release [of 0 "y s4 EReturned ?f3" 0 chain_runtime ops] by (simp add: y_def)
  have r6: "inner_step chain_runtime ops (y s4 EReleased ?f3) \<lparr>y_sched = s4,
      y_procs = [p\<lparr>p_active := p_active p - 1\<rparr>], y_execs = [(0, ELeaving)], y_pools = ?f3\<rparr>"
    using in_runs_done [of 0 "y s4 EReleased ?f3" 0 p chain_runtime ops] by (simp add: y_def)
  have "(sys_step chain_runtime ops)\<^sup>*\<^sup>* (y s (EQueued t) f) \<lparr>y_sched = s4,
      y_procs = [p\<lparr>p_active := p_active p - 1\<rparr>], y_execs = [(0, ELeaving)], y_pools = ?f3\<rparr>"
    by (rule inner_first [OF steps(1) inner_first [OF steps(2) inner_first [OF steps(3) inner_first [OF steps(4)
      inner_first [OF steps(5) inner_first [OF steps(6) inner_first [OF steps(7) inner_first [OF steps(8)
      inner_first [OF r5 inner_first [OF r6 rtranclp.rtrancl_refl]]]]]]]]]])
  then show ?thesis unfolding y_def by blast
qed

text \<open>From the wait for the next tick, a job whose context is done comes to record its end.\<close>

lemma tick_finalizes:
  assumes "i < length (y_procs y)" and "p = y_procs y ! i" and "p_pc p = JTick n" and "p_active p = 0"
    and "job_ctx (y_sched y) p \<noteq> None"
  shows "(inner_step rt ops)\<^sup>*\<^sup>* y (y\<lparr>y_procs := (y_procs y)[i := p\<lparr>p_pc := JFinalize JobStateCompleted\<rparr>]\<rparr>)"
proof -
  let ?y = "y\<lparr>y_procs := (y_procs y)[i := p\<lparr>p_pc := JDrain JobStateCompleted\<rparr>]\<rparr>"
  have "inner_step rt ops y ?y"
    using in_job [OF assms(1), of rt ops _ "y_sched y"] tick_done [OF assms(3,5)] assms(2) by simp
  moreover have "inner_step rt ops ?y (y\<lparr>y_procs := (y_procs y)[i := p\<lparr>p_pc := JFinalize JobStateCompleted\<rparr>]\<rparr>)"
    using in_job [of i ?y rt ops "p\<lparr>p_pc := JFinalize JobStateCompleted\<rparr>" "y_sched y"]
      drained [of "p\<lparr>p_pc := JDrain JobStateCompleted\<rparr>" JobStateCompleted rt ops "y_sched y"] assms(1,4) by simp
  ultimately show ?thesis by (meson converse_rtranclp_into_rtranclp rtranclp.rtrancl_refl)
qed

lemma inner_steps: "(inner_step rt ops)\<^sup>*\<^sup>* y y' \<Longrightarrow> (sys_step rt ops)\<^sup>*\<^sup>* y y'"
  by (erule rtranclp_mono [THEN predicate2D, rotated]) (auto simp: sys_step_def)

lemma live_drained:
  "\<exists>s p f. live_step\<^sup>*\<^sup>* (boot live_sched) \<lparr>y_sched = s, y_procs = [p], y_execs = [(0, ELeaving)], y_pools = f\<rparr> \<and>
     p_pc p = JFinalize JobStateCompleted"
proof -
  obtain s p f where p: "live_step\<^sup>*\<^sup>* (boot live_sched) \<lparr>y_sched = s, y_procs = [p], y_execs = [(0, EQueued 0)], y_pools = f\<rparr>"
    "p_pc p = JTick 1" "p_active p = 1" "runnable p" "p_parent p = None" "job_retrier p = Some demo_retrier"
    using live_run by blast
  let ?q = "p\<lparr>p_parent := Some ctx_Canceled\<rparr>"
    and ?y = "\<lparr>y_sched = s, y_procs = [p], y_execs = [(0, EQueued 0)], y_pools = f\<rparr>"
  have "pool_full ?y p" using reachable_pools [OF live_new p(1)] p(4) by (simp add: pools_ok_def)
  then have "share_inv 2 3 (f (p_pool p), [Done])"
    using p(6) by (simp add: pool_full_def callers_def exec_caller_def call_limit_def demo_retrier_def)
  then have full: "share_inv 2 3 (f (p_pool ?q), [])" by (simp add: share_inv_def)
  have "client_step chain_runtime InMemoryJobsStorage ?y (?y\<lparr>y_procs := [?q]\<rparr>)"
    using cl_cancel [of 0 ?y chain_runtime InMemoryJobsStorage ctx_Canceled] p(5) by simp
  then have "live_step ?y (?y\<lparr>y_procs := [?q]\<rparr>)" by (simp add: sys_step_def)
  with p(1) have 1: "live_step\<^sup>*\<^sup>* (boot live_sched) (?y\<lparr>y_procs := [?q]\<rparr>)" by (rule rtranclp.rtrancl_into_rtrancl)
  have "job_retrier ?q = Some demo_retrier" using p(6) by simp
  from exec_finishes [where p = ?q and f = f, OF this full, of InMemoryJobsStorage s 0] p(3) obtain s' f' where
    2: "live_step\<^sup>*\<^sup>* (?y\<lparr>y_procs := [?q]\<rparr>)
      \<lparr>y_sched = s', y_procs = [?q\<lparr>p_active := 0\<rparr>], y_execs = [(0, ELeaving)], y_pools = f'\<rparr>" by auto
  let ?z = "\<lparr>y_sched = s', y_procs = [?q\<lparr>p_active := 0\<rparr>], y_execs = [(0, ELeaving)], y_pools = f'\<rparr>"
  have "live_step\<^sup>*\<^sup>* ?z (?z\<lparr>y_procs := [?q\<lparr>p_active := 0, p_pc := JFinalize JobStateCompleted\<rparr>]\<rparr>)"
    using inner_steps [OF tick_finalizes [of 0 ?z "?q\<lparr>p_active := 0\<rparr>" 1]] p(2) by (simp add: job_ctx_def)
  from rtranclp_trans [OF rtranclp_trans [OF 1 2] this] show ?thesis by fastforce
qed

theorem run_drained_witness:
  "\<exists>y. live_step\<^sup>*\<^sup>* (boot live_sched) y \<and> length (y_procs y) = 1 \<and> past_drain (p_pc (y_procs y ! 0)) \<and>
     y_execs y \<noteq> [] \<and> list_all (\<lambda>x. snd x = ELeaving) (y_execs y)"
proof -
  obtain s p f where p: "live_step\<^sup>*\<^sup>* (boot live_sched) \<lparr>y_sched = s, y_procs = [p], y_execs = [(0, ELeaving)], y_pools = f\<rparr>"
    "p_pc p = JFinalize JobStateCompleted" using live_drained by blast
  let ?y = "\<lparr>y_sched = s, y_procs = [p], y_execs = [(0, ELeaving)], y_pools = f\<rparr>"
  have "pc = ELeaving" if "(0, pc) \<in> set (y_execs ?y)" for pc
    using run_drained [OF live_new p(1), of 0 pc] p(2) that by simp
  with p show ?thesis by (intro exI [of _ ?y]) simp
qed

text \<open>From the end of its loop, a job without executions records the state it ends with.\<close>

lemma drain_records:
  assumes "reliable_jobs_store ops ab inv1 okid okpay reliable" and "inv1 (s_jobsStorage (y_sched y))"
    and "i < length (y_procs y)" and "p = y_procs y ! i" and "p_pc p = JDrain st" and "named_state st" and "p_active p = 0"
    and "job_ctx (y_sched y) p = Some err" and "reliable (Some err) (s_jobsStorage (y_sched y))"
    and "as_status (ab (s_jobsStorage (y_sched y))) (j_ID (je_job (p_entry p))) = Some e" and "\<not> e_terminal e"
  shows "\<exists>y' e'. (inner_step rt ops)\<^sup>*\<^sup>* y y' \<and> p_pc (y_procs y' ! i) = JCleanup \<and>
    as_status (ab (s_jobsStorage (y_sched y'))) (j_ID (je_job (p_entry p))) = Some e' \<and>
    e_terminal e' \<and> st_State (e_status e') = st"
proof -
  let ?q = "p\<lparr>p_pc := JFinalize st\<rparr>" and ?jid = "j_ID (je_job (p_entry p))"
  let ?y = "y\<lparr>y_procs := (y_procs y)[i := ?q]\<rparr>"
  let ?s = "finalizeJobState rt ops (Some err) (\<lambda>_. 0) ?jid st (y_sched y)"
  have js: "jobs_store ops ab inv1 okid okpay" using assms(1) by (simp add: reliable_jobs_store_def)
  obtain r sto where m: "MarkTerminal ops (Some err) (\<lambda>_. 0) ?jid st (s_jobsStorage (y_sched y)) = (r, sto)"
    by fastforce
  from reliable_jobs_store.rel_terminal [OF assms(1,2,9,6) m] jobs_store.terminal [OF js assms(2,6) m]
  have "update_rel (terminal_rel (\<lambda>_. 0) st) ?jid (ab (s_jobsStorage (y_sched y))) (ab sto)" by auto
  with assms(10,11) have e': "\<exists>e'. as_status (ab sto) ?jid = Some e' \<and> e_terminal e' \<and> st_State (e_status e') = st"
    by (auto simp: terminal_rel_def terminal_entry_def elim!: update_rel.cases)
  have "inner_step rt ops y ?y"
    using in_job [OF assms(3), of rt ops ?q "y_sched y"] drained [OF assms(5,7), of rt ops "y_sched y"]
    by (simp add: assms(4) [symmetric])
  moreover have "job_ctx (y_sched y) ?q = Some err" using assms(8) by (auto simp: job_ctx_def split: option.splits if_splits)
  then have "job_step rt ops ?q (y_sched y) (?q\<lparr>p_pc := JCleanup\<rparr>) ?s"
    using finalize [of ?q st rt ops "y_sched y" "\<lambda>_. 0"] by simp
  then have "inner_step rt ops ?y (?y\<lparr>y_sched := ?s, y_procs := (y_procs ?y)[i := ?q\<lparr>p_pc := JCleanup\<rparr>]\<rparr>)"
    using in_job [of i ?y rt ops "?q\<lparr>p_pc := JCleanup\<rparr>" ?s] assms(3) by simp
  ultimately have "(inner_step rt ops)\<^sup>*\<^sup>* y (?y\<lparr>y_sched := ?s, y_procs := (y_procs ?y)[i := ?q\<lparr>p_pc := JCleanup\<rparr>]\<rparr>)"
    by (meson converse_rtranclp_into_rtranclp rtranclp.rtrancl_refl)
  moreover have "s_jobsStorage ?s = sto" using m by (simp add: finalizeJobState_def logged_write_eq)
  ultimately show ?thesis using e' assms(3)
    by (intro exI [of _ "?y\<lparr>y_sched := ?s, y_procs := (y_procs ?y)[i := ?q\<lparr>p_pc := JCleanup\<rparr>]\<rparr>"]) simp
qed

lemma context_canceled:
  assumes "reliable_jobs_store ops ab inv1 okid okpay reliable" and "inv1 (s_jobsStorage s)" and "reliable c (s_jobsStorage s)"
    and "as_status (ab (s_jobsStorage s)) jid = Some e" and "st_State (e_status e) \<noteq> JobStateRemoved" and "\<not> s_stopped s"
  shows "\<exists>st. contextTerminalState ops c jid s = (JobStateCanceled, s\<lparr>s_jobsStorage := st\<rparr>) \<and> inv1 st \<and>
    reliable c st \<and> ab st = ab (s_jobsStorage s)"
proof -
  have js: "jobs_store ops ab inv1 okid okpay" using assms(1) by (simp add: reliable_jobs_store_def)
  obtain x st where x: "State ops c jid (s_jobsStorage s) = (x, st)" by fastforce
  from reliable_jobs_store.rel_state [OF assms(1-3) x] jobs_store.state [OF js assms(2) x] assms(4-6) x
  show ?thesis by (intro exI [of _ st]) (simp add: contextTerminalState_def)
qed

text \<open>
  (C37) The final state of a job that is cancelled between two runs depends on a race. A job waits
  for its next tick with no execution in progress, its status is not terminal, and its context is
  done. Its \<open>select\<close> has two ways out: the branch of the context, which makes it end as \<open>completed\<close>,
  and the branch of the ticker, if that has fired too, which takes it to the top of the loop; no other
  step is possible. Through the first one the recorded final state can be \<open>completed\<close> although
  the job was cancelled; through the second one it can be \<open>canceled\<close>, when the scheduler is not
  stopped and the job was not removed.
\<close>

theorem tick_canceled_completed:
  assumes "reliable_jobs_store ops ab inv1 okid okpay reliable" and "inv1 (s_jobsStorage (y_sched y))"
    and "i < length (y_procs y)" and "p = y_procs y ! i" and "p_pc p = JTick n" and "p_active p = 0"
    and "job_ctx (y_sched y) p = Some err" and "reliable (Some err) (s_jobsStorage (y_sched y))"
    and "as_status (ab (s_jobsStorage (y_sched y))) (j_ID (je_job (p_entry p))) = Some e" and "\<not> e_terminal e"
  shows "(\<forall>p' s'. job_step rt ops p (y_sched y) p' s' \<longleftrightarrow>
      s' = y_sched y \<and> (p' = p\<lparr>p_pc := JDrain JobStateCompleted\<rparr> \<or> p' = p\<lparr>p_pc := JLoop n\<rparr>)) \<and>
    (\<exists>y' e'. (inner_step rt ops)\<^sup>*\<^sup>* (y\<lparr>y_procs := (y_procs y)[i := p\<lparr>p_pc := JDrain JobStateCompleted\<rparr>]\<rparr>) y' \<and>
      p_pc (y_procs y' ! i) = JCleanup \<and>
      as_status (ab (s_jobsStorage (y_sched y'))) (j_ID (je_job (p_entry p))) = Some e' \<and>
      e_terminal e' \<and> st_State (e_status e') = JobStateCompleted) \<and>
    (\<not> s_stopped (y_sched y) \<and> st_State (e_status e) \<noteq> JobStateRemoved \<longrightarrow>
      (\<exists>y' e'. (inner_step rt ops)\<^sup>*\<^sup>* (y\<lparr>y_procs := (y_procs y)[i := p\<lparr>p_pc := JLoop n\<rparr>]\<rparr>) y' \<and>
        p_pc (y_procs y' ! i) = JCleanup \<and>
        as_status (ab (s_jobsStorage (y_sched y'))) (j_ID (je_job (p_entry p))) = Some e' \<and>
        e_terminal e' \<and> st_State (e_status e') = JobStateCanceled))"
proof (intro conjI impI)
  have ctx: "job_ctx s (p\<lparr>p_pc := pc\<rparr>) = job_ctx s p" for s :: "'a Scheduler" and pc by (simp add: job_ctx_def)
  have "s' = y_sched y \<and> (p' = p\<lparr>p_pc := JDrain JobStateCompleted\<rparr> \<or> p' = p\<lparr>p_pc := JLoop n\<rparr>)"
    if "job_step rt ops p (y_sched y) p' s'" for p' s'
    using that by cases (use assms(5) in simp_all)
  then show "\<forall>p' s'. job_step rt ops p (y_sched y) p' s' \<longleftrightarrow>
      s' = y_sched y \<and> (p' = p\<lparr>p_pc := JDrain JobStateCompleted\<rparr> \<or> p' = p\<lparr>p_pc := JLoop n\<rparr>)"
    using assms(7) tick_done [OF assms(5), of "y_sched y" rt ops] tick [OF assms(5), of rt ops "y_sched y"] by fastforce
  show "\<exists>y' e'. (inner_step rt ops)\<^sup>*\<^sup>* (y\<lparr>y_procs := (y_procs y)[i := p\<lparr>p_pc := JDrain JobStateCompleted\<rparr>]\<rparr>) y' \<and>
      p_pc (y_procs y' ! i) = JCleanup \<and>
      as_status (ab (s_jobsStorage (y_sched y'))) (j_ID (je_job (p_entry p))) = Some e' \<and>
      e_terminal e' \<and> st_State (e_status e') = JobStateCompleted"
    using drain_records [OF assms(1), of "y\<lparr>y_procs := (y_procs y)[i := p\<lparr>p_pc := JDrain JobStateCompleted\<rparr>]\<rparr>" i
        "p\<lparr>p_pc := JDrain JobStateCompleted\<rparr>" JobStateCompleted err e rt] assms(2,3,6-10) ctx by simp
  assume "\<not> s_stopped (y_sched y) \<and> st_State (e_status e) \<noteq> JobStateRemoved"
  with context_canceled [OF assms(1,2,8,9)] obtain st where
    st: "contextTerminalState ops (Some err) (j_ID (je_job (p_entry p))) (y_sched y) =
        (JobStateCanceled, (y_sched y)\<lparr>s_jobsStorage := st\<rparr>)" "inv1 st" "reliable (Some err) st"
      "ab st = ab (s_jobsStorage (y_sched y))" by blast
  let ?y = "y\<lparr>y_procs := (y_procs y)[i := p\<lparr>p_pc := JLoop n\<rparr>]\<rparr>"
  let ?z = "y\<lparr>y_sched := (y_sched y)\<lparr>s_jobsStorage := st\<rparr>, y_procs := (y_procs y)[i := p\<lparr>p_pc := JDrain JobStateCanceled\<rparr>]\<rparr>"
  have "job_step rt ops (p\<lparr>p_pc := JLoop n\<rparr>) (y_sched y) (p\<lparr>p_pc := JDrain JobStateCanceled\<rparr>) ((y_sched y)\<lparr>s_jobsStorage := st\<rparr>)"
    using loop_canceled [of "p\<lparr>p_pc := JLoop n\<rparr>" n "y_sched y" ops JobStateCanceled] st(1) assms(7) ctx by simp
  then have first: "inner_step rt ops ?y ?z"
    using in_job [of i ?y rt ops "p\<lparr>p_pc := JDrain JobStateCanceled\<rparr>"] assms(3) by simp
  have "job_ctx ((y_sched y)\<lparr>s_jobsStorage := st\<rparr>) p = Some err"
    using assms(7) by (cases "p_parent p") (simp_all add: job_ctx_def)
  then have "\<exists>y' e'. (inner_step rt ops)\<^sup>*\<^sup>* ?z y' \<and> p_pc (y_procs y' ! i) = JCleanup \<and>
      as_status (ab (s_jobsStorage (y_sched y'))) (j_ID (je_job (p_entry p))) = Some e' \<and>
      e_terminal e' \<and> st_State (e_status e') = JobStateCanceled"
    using drain_records [OF assms(1), of ?z i "p\<lparr>p_pc := JDrain JobStateCanceled\<rparr>" JobStateCanceled err e rt]
      st(2-4) assms(3,6,9,10) ctx by simp
  with first show "\<exists>y' e'. (inner_step rt ops)\<^sup>*\<^sup>* ?y y' \<and> p_pc (y_procs y' ! i) = JCleanup \<and>
        as_status (ab (s_jobsStorage (y_sched y'))) (j_ID (je_job (p_entry p))) = Some e' \<and>
        e_terminal e' \<and> st_State (e_status e') = JobStateCanceled"
    by (meson converse_rtranclp_into_rtranclp)
qed

definition idle_store :: mem_store where
  "idle_store = run_ops InMemoryJobsStorage [OUpsert None (\<lambda>_. 1) ''a'' JobStateScheduled] NewInMemoryJobsStorage"

definition idle_proc :: proc where
  "idle_proc = \<lparr>p_entry = \<lparr>je_ptr = 0, je_job = demo_job\<rparr>, p_parent = Some ctx_Canceled, p_pc = JTick 1,
     p_active = 0, p_enqueued = 1, p_pool = 0\<rparr>"

definition idle_system :: "mem_store system" where
  "idle_system = \<lparr>y_sched = demo_sched\<lparr>s_jobsStorage := idle_store\<rparr>, y_procs = [idle_proc], y_execs = [],
     y_pools = (\<lambda>_. no_pool)\<rparr>"

theorem tick_canceled_completed_witness:
  "\<exists>y' e'. (inner_step chain_runtime InMemoryJobsStorage)\<^sup>*\<^sup>*
       (idle_system\<lparr>y_procs := [idle_proc\<lparr>p_pc := JDrain JobStateCompleted\<rparr>]\<rparr>) y' \<and>
     as_status (mem_abs (s_jobsStorage (y_sched y'))) ''a'' = Some e' \<and> e_terminal e' \<and>
     st_State (e_status e') = JobStateCompleted"
proof -
  have "mem_invar idle_store" using mem_run_invar [of "[OUpsert None (\<lambda>_. 1) ''a'' JobStateScheduled]"] by (simp add: idle_store_def)
  moreover have "\<exists>e. as_status (mem_abs idle_store) ''a'' = Some e \<and> \<not> e_terminal e"
    by (simp add: idle_store_def run_demo mem_abs_def)
  moreover have "job_ctx (y_sched idle_system) idle_proc = Some ctx_Canceled" "p_pc idle_proc = JTick 1" "p_active idle_proc = 0"
    "j_ID (je_job (p_entry idle_proc)) = ''a''" "y_procs idle_system = [idle_proc]"
    "s_jobsStorage (y_sched idle_system) = idle_store"
    by (simp_all add: job_ctx_def idle_proc_def demo_job_def idle_system_def)
  ultimately show ?thesis
    using tick_canceled_completed [OF mem.reliable_jobs_store_axioms, of idle_system 0 idle_proc 1 ctx_Canceled _ chain_runtime]
    by fastforce
qed

end
