(* ===== verification/Sqlite_Properties.thy ===== *)
theory Sqlite_Properties
  imports Storage_Agreement Sqlite_Retention Scheduler_Liveness
begin

text \<open>
  The properties of the SQLite storage, for every engine and encoder that behave as documented:
  it implements the contract of \<open>JobsStorage\<close>, its tables stay well formed, what pruning keeps, what
  opening does, and what is lost when the context of a job ends first.
\<close>

section \<open>The contract\<close>

context sqlite_store
begin

lemmas sqlite_contract = contract.reliable_jobs_store_axioms
lemmas sqlite_apply_op = contract.apply_op_rel
lemmas sqlite_op_entries = contract.entries_invariant

end

text \<open>
  (C4) The SQLite storage implements the contract of \<open>JobsStorage\<close>. Each write makes its
  transition of the abstract store as a whole, or reports an error and changes nothing; each read
  reports the abstract store, or nothing when the engine fails; and on a healthy engine with a
  live context no operation fails, apart from saving an identifier twice. The engine and the
  encoder are any that behave as documented.
\<close>

theorem sqlite_store_implements:
  assumes "sqlite_store rt db tab saved healthy js okid okpay"
  shows "reliable_jobs_store (SQLiteJobsStorage rt js db) (sqlite_abs js tab)
    (sqlite_invar js okid okpay tab saved) okid okpay (sqlite_reliable healthy)"
  by (rule sqlite_store.sqlite_contract [OF assms])

theorem sqlite_store_implements_witness:
  "reliable_jobs_store (SQLiteJobsStorage chain_runtime plain_codec table_engine) (sqlite_abs plain_codec cn_tab)
    (sqlite_invar plain_codec (\<lambda>_. True) (\<lambda>_. True) cn_tab cn_saved) (\<lambda>_. True) (\<lambda>_. True) (sqlite_reliable (\<lambda>_. True))"
  by (rule sqlite_store_implements [OF table.sqlite_store_axioms])

section \<open>Pruning\<close>

text \<open>
  (C22) \<open>PruneHistoryWithRetention\<close> keeps, of every job, the last \<open>MaxRowsPerJob\<close> of the runs that
  are not older than \<open>MaxAge\<close> (a bound that is not positive does not apply), oldest first,
  reports the number of deleted rows, and touches neither the jobs nor the statuses; or it reports a
  storage error and changes nothing, which a healthy engine with a live context does not do.
\<close>

theorem sqlite_prune_spec:
  assumes "sqlite_store rt db tab saved healthy js okid okpay" and "sqlite_invar js okid okpay tab saved s"
    and "PruneHistoryWithRetention db c now maxAge maxRows s = (r, s')"
    and "t = tab (q_db s)" and "t' = tab (q_db s')"
  shows "case r of
      Inl e \<Rightarrow> storage_error e \<and> t' = t \<and> \<not> (c = None \<and> healthy (q_db s))
    | Inr n \<Rightarrow> tb_jobs t' = tb_jobs t \<and> tb_status t' = tb_status t \<and>
        n = int (length (tb_history t)) - int (length (tb_history t')) \<and>
        (\<forall>jid. job_rows t' jid = retained (now 0) maxAge maxRows (job_rows t jid))"
  using sqlite_store.PruneHistoryWithRetention_ok [OF assms(1-3)] assms(4,5)
  by (auto simp: sqlite_reliable_def pruned_def same_rest_def split: sum.splits)

definition aged_row :: "int \<Rightarrow> int \<Rightarrow> blob history_row" where
  "aged_row n t = \<lparr>hr_id = ''a'', hr_sequence = n, hr_payload_json = PayloadBlob demo_payload, hr_finished_at = t\<rparr>"

definition aged_sqlite :: "connection sqlite" where
  "aged_sqlite = \<lparr>q_db = \<lparr>cn_tab = empty_tables\<lparr>
       tb_status := [\<lparr>sr_id = ''a'', sr_status_json = StatusBlob (zero_status\<lparr>sd_JobID := ''a'', sd_State := JobStateRunning\<rparr>),
                      sr_active_runs = 0, sr_terminal = 0, sr_last_sequence = 3\<rparr>],
       tb_history := [aged_row 2 60, aged_row 1 10, aged_row 3 70]\<rparr>, cn_saved = None\<rparr>,
     q_MaxAge = 0, q_MaxRowsPerJob = 0\<rparr>"

lemma aged_ok: "sqlite_invar plain_codec (\<lambda>_. True) (\<lambda>_. True) cn_tab cn_saved aged_sqlite"
  by (simp add: aged_sqlite_def sqlite_invar_def tables_ok_def base_ok_def row_ok_def status_repr_def history_within_def
      status_row_of_def plain_codec_def empty_tables_def aged_row_def zero_status_def)

theorem sqlite_prune_spec_witness:
  "\<exists>s'. PruneHistoryWithRetention table_engine None (\<lambda>_. 100) 50 1 aged_sqlite = (Inr 2, s') \<and>
     job_rows (cn_tab (q_db s')) ''a'' = [aged_row 3 70]"
proof -
  obtain r s' where r: "PruneHistoryWithRetention table_engine None (\<lambda>_. 100) 50 1 aged_sqlite = (r, s')" by fastforce
  have rows: "job_rows (cn_tab (q_db aged_sqlite)) ''a'' = [aged_row 1 10, aged_row 2 60, aged_row 3 70]"
    by (simp add: job_rows_def aged_sqlite_def aged_row_def)
  note p = sqlite_prune_spec [OF table.sqlite_store_axioms aged_ok r refl refl]
  obtain n where n: "r = Inr n" using p by (cases r) auto
  have "job_rows (cn_tab (q_db s')) ''a'' = [aged_row 3 70]"
    using p n rows by (simp add: retained_def too_old_def aged_row_def last_n_def)
  moreover have "n = 2"
    using r n by (simp add: PruneHistoryWithRetention_def run_tx_def withWriteTx_def prune_tx_def table_engine_def
        pruneHistoryOlderThanTx_def pruneHistoryMaxRowsPerJobTx_def tx_bind_def tx_exec_def tx_lift_def rowsAffected_def
        tx_return_def aged_sqlite_def empty_tables_def delete_history_def too_old_def aged_row_def row_number_def)
  ultimately show ?thesis using r n by blast
qed

section \<open>Well-formed tables\<close>

text \<open>Writes through the interface and prunings, in any order and with any contexts.\<close>

datatype sqlite_op = SWrite store_op | SPrune ctx clock duration int

fun sqlite_run :: "runtime \<Rightarrow> 'b codec \<Rightarrow> ('d, 'b) database \<Rightarrow> sqlite_op list \<Rightarrow> 'd sqlite \<Rightarrow> 'd sqlite" where
  "sqlite_run rt js db [] s = s"
| "sqlite_run rt js db (SWrite x # xs) s = sqlite_run rt js db xs (apply_op (SQLiteJobsStorage rt js db) x s)"
| "sqlite_run rt js db (SPrune c now maxAge maxRows # xs) s =
     sqlite_run rt js db xs (snd (PruneHistoryWithRetention db c now maxAge maxRows s))"

fun sqlite_op_ok :: "(string \<Rightarrow> bool) \<Rightarrow> (CallbackPayload \<Rightarrow> bool) \<Rightarrow> sqlite_op \<Rightarrow> bool" where
  "sqlite_op_ok okid okpay (SWrite x) = op_ok okid okpay x"
| "sqlite_op_ok okid okpay (SPrune c now maxAge maxRows) = True"

lemma retained_subseq: "subseq (retained now maxAge maxRows rows) rows"
proof -
  have last: "subseq (last_n n xs) xs" for n and xs :: "'b history_row list"
    using last_n_suffix [of xs n] by (metis list_emb_append2 subseq_order.order_refl)
  show ?thesis
    unfolding retained_def Let_def
    using last subseq_filter_left [of "\<lambda>r. \<not> too_old (now - maxAge) r" rows]
    by (auto intro: subseq_order.order_trans [OF last])
qed

lemma history_of_rows: "history_of js (tb_history t) jid = map (run_of js) (job_rows t jid)"
  by (simp add: history_of_def job_rows_def)

text \<open>Pruning keeps the statuses well formed.\<close>

lemma pruned_entries:
  assumes "pruned now maxAge maxRows t t' n" and "entries_ok (table_abs js t)"
  shows "entries_ok (table_abs js t')"
  unfolding entries_ok_def
proof (intro allI impI)
  fix jid e'
  assume e': "as_status (table_abs js t') jid = Some e'"
  have rows: "status_row_of t' = status_row_of t" "job_rows t' jid = retained now maxAge maxRows (job_rows t jid)"
    using assms(1) by (simp_all add: pruned_def same_rest_def status_row_of_def fun_eq_iff)
  then obtain e where e: "as_status (table_abs js t) jid = Some e" "e' = e\<lparr>e_history := e_history e'\<rparr>"
    using e' by (auto simp: table_abs_def record_entry_def)
  have "e_history e = map (run_of js) (job_rows t jid)" "e_history e' = map (run_of js) (job_rows t' jid)"
    using e(1) e' by (auto simp: table_abs_def record_entry_def history_of_rows)
  then have sub: "subseq (e_history e') (e_history e)" using rows(2) by (simp add: retained_subseq subseq_map)
  have ok: "entry_ok jid e" using assms(2) e(1) by (simp add: entries_ok_def)
  have "sorted_wrt (<) (map jr_Sequence (e_history e'))"
    using sorted_wrt_subseq [OF subseq_map_mono [OF sub]] ok by (auto simp: entry_ok_def)
  moreover have "list_all (\<lambda>run. 0 < jr_Sequence run \<and> jr_Sequence run \<le> e_lastSequence e) (e_history e')"
    using subseq_set [OF sub] ok by (auto simp: entry_ok_def list_all_iff)
  ultimately show "entry_ok jid e'" using ok by (subst e(2)) (simp add: entry_ok_def)
qed

text \<open>
  (C20) Well-formedness. Whatever sequence of writes and prunings runs on the storage, with live or
  cancelled contexts and an engine that may fail at any point, no transaction stays open and the
  tables stay well formed: all tables are there, keys are unique, every encoded column decodes to
  the value of its row, and no run has a sequence number outside the range of its job's status;
  statuses agree with their counters and histories are strictly increasing.
\<close>

theorem sqlite_well_formed:
  assumes "sqlite_store rt db tab saved healthy js okid okpay" and "sqlite_invar js okid okpay tab saved s"
    and "entries_ok (sqlite_abs js tab s)" and "list_all (sqlite_op_ok okid okpay) xs"
  shows "sqlite_invar js okid okpay tab saved (sqlite_run rt js db xs s) \<and>
    entries_ok (sqlite_abs js tab (sqlite_run rt js db xs s))"
  using assms(2-4)
proof (induction xs arbitrary: s)
  case (Cons x xs)
  show ?case
  proof (cases x)
    case (SWrite y)
    with Cons.prems(3) have "op_ok okid okpay y" by simp
    with sqlite_store.sqlite_op_entries [OF assms(1) Cons.prems(1), of "[y]"] Cons SWrite show ?thesis by simp
  next
    case (SPrune c now maxAge maxRows)
    obtain r s' where r: "PruneHistoryWithRetention db c now maxAge maxRows s = (r, s')" by fastforce
    note p = sqlite_store.PruneHistoryWithRetention_ok [OF assms(1) Cons.prems(1) r]
    have "entries_ok (sqlite_abs js tab s')"
      using p Cons.prems(2) pruned_entries [of "now 0" maxAge maxRows "tab (q_db s)" "tab (q_db s')" _ js]
      by (cases r) (auto simp: sqlite_abs_def)
    with Cons SPrune p r show ?thesis by simp
  qed
qed simp

theorem sqlite_well_formed_witness:
  "sqlite_invar plain_codec (\<lambda>_. True) (\<lambda>_. True) cn_tab cn_saved
    (sqlite_run chain_runtime plain_codec table_engine (map SWrite demo_ops @ [SPrune None (\<lambda>_. 9) 1 1]) fresh_sqlite)"
proof -
  have "entries_ok (sqlite_abs plain_codec cn_tab fresh_sqlite)" using fresh_ok(3) mem_new(2) by simp
  moreover have "list_all (sqlite_op_ok (\<lambda>_. True) (\<lambda>_. True)) (map SWrite demo_ops @ [SPrune None (\<lambda>_. 9) 1 1])"
    using demo_ops_ok by (simp add: list_all_iff)
  ultimately show ?thesis using sqlite_well_formed [OF table.sqlite_store_axioms fresh_ok(1)] by blast
qed

section \<open>Opening\<close>

definition retention_option :: "'d sqlite_option \<Rightarrow> bool" where
  "retention_option f \<longleftrightarrow> (\<exists>a n. f = WithSQLiteHistoryRetention a n) \<or> (\<exists>a. f = WithSQLiteHistoryMaxAge a) \<or>
     (\<exists>n. f = WithSQLiteHistoryMaxRowsPerJob n)"

lemma retention_options:
  assumes "list_all (pred_option retention_option) opts" and "0 \<le> q_MaxAge s" and "0 \<le> q_MaxRowsPerJob s"
    and "s' = fold (\<lambda>opt s. case opt of None \<Rightarrow> s | Some f \<Rightarrow> f s) opts s"
  shows "q_db s' = q_db s \<and> 0 \<le> q_MaxAge s' \<and> 0 \<le> q_MaxRowsPerJob s'"
  using assms
proof (induction opts arbitrary: s)
  case (Cons opt opts)
  have "q_db (f s) = q_db s \<and> 0 \<le> q_MaxAge (f s) \<and> 0 \<le> q_MaxRowsPerJob (f s)" if "retention_option f" for f
    using that Cons.prems(2,3)
    by (auto simp: retention_option_def WithSQLiteHistoryRetention_def WithSQLiteHistoryMaxAge_def
        WithSQLiteHistoryMaxRowsPerJob_def Let_def)
  with Cons.prems Cons.IH [of "case opt of None \<Rightarrow> s | Some f \<Rightarrow> f s"] show ?case by (cases opt) auto
qed simp

text \<open>
  (C23) Opening. Once \<open>sql.Open\<close> has given a handle, the constructor either reports a storage error,
  which a healthy engine with a live context does not cause, or returns a storage over a database
  that has every table: the rows of the tables that were there are kept, runs recorded before the
  column for their end existed have it zero, and the retention bounds are not negative. If
  the rows were written by this storage, the storage is ready for every operation.
\<close>

theorem sqlite_open_spec:
  assumes "sqlite_store rt db tab saved healthy js okid okpay"
    and "sql_Open (normalizeSQLitePath path) = Inr d" and "saved d = None"
    and "list_all (pred_option retention_option) opts"
  shows "case NewSQLiteJobsStorageWithOptions rt db sql_Open c path opts of
      Inl e \<Rightarrow> \<not> (c = None \<and> healthy d) \<and>
        (\<exists>e1. storage_error e1 \<and> (e = e1 \<or> (\<exists>e2. storage_error e2 \<and> e = Joined [e1, e2])))
    | Inr s \<Rightarrow> saved (q_db s) = None \<and> tab (q_db s) = upgraded (tab d) \<and> 0 \<le> q_MaxAge s \<and> 0 \<le> q_MaxRowsPerJob s \<and>
        (tables_ok js okid okpay (upgraded (tab d)) \<longrightarrow> sqlite_invar js okid okpay tab saved s)"
proof -
  define s1 where "s1 = fold (\<lambda>opt s. case opt of None \<Rightarrow> s | Some f \<Rightarrow> f s) opts
      \<lparr>q_db = d, q_MaxAge = 0, q_MaxRowsPerJob = 0\<rparr>"
  have s1: "q_db s1 = d" "0 \<le> q_MaxAge s1" "0 \<le> q_MaxRowsPerJob s1"
    using retention_options [OF assms(4), of "\<lparr>q_db = d, q_MaxAge = 0, q_MaxRowsPerJob = 0\<rparr>" s1]
    by (simp_all add: s1_def)
  obtain err s2 where b: "bootstrap rt db c s1 = (err, s2)" by fastforce
  have eng: "sql_engine rt db tab saved healthy" using assms(1) by (simp add: sqlite_store_def)
  note ok = sql_engine.bootstrap_ok [OF eng _ b]
  show ?thesis
  proof (cases err)
    case None
    then have "NewSQLiteJobsStorageWithOptions rt db sql_Open c path opts = Inr s2"
      using assms(2) b by (simp add: NewSQLiteJobsStorageWithOptions_def s1_def [symmetric])
    with None ok s1 assms(3) show ?thesis by (simp add: sqlite_invar_def)
  next
    case (Some e)
    have "storage_error (storage_failed f e')" for f e' by (auto simp: storage_error_def storage_failed_def)
    with Some ok s1 assms(2,3) b show ?thesis
      by (auto simp: NewSQLiteJobsStorageWithOptions_def s1_def [symmetric] split: option.split)
  qed
qed

text \<open>A database of a version whose history had no column for the end of a run.\<close>

definition old_connection :: connection where
  "old_connection = (q_db aged_sqlite)\<lparr>cn_tab := (cn_tab (q_db aged_sqlite))\<lparr>tb_has_finished := False\<rparr>\<rparr>"

theorem sqlite_open_spec_witness:
  "\<exists>s. NewSQLiteJobsStorageWithOptions chain_runtime table_engine (\<lambda>_. Inr old_connection) None ''jobs.db''
       [Some (WithSQLiteHistoryMaxAge 50)] = Inr s \<and>
     map hr_finished_at (tb_history (cn_tab (q_db s))) = [0, 0, 0] \<and>
     sqlite_invar plain_codec (\<lambda>_. True) (\<lambda>_. True) cn_tab cn_saved s"
proof -
  let ?r = "NewSQLiteJobsStorageWithOptions chain_runtime table_engine (\<lambda>_. Inr old_connection) None ''jobs.db''
       [Some (WithSQLiteHistoryMaxAge 50)]"
  have "cn_saved old_connection = None" by (simp add: old_connection_def aged_sqlite_def)
  moreover have "list_all (pred_option retention_option) [Some (WithSQLiteHistoryMaxAge 50 :: connection sqlite_option)]"
    by (auto simp: retention_option_def)
  ultimately have o: "case ?r of Inl e \<Rightarrow> False
    | Inr s \<Rightarrow> cn_tab (q_db s) = upgraded (cn_tab old_connection) \<and>
        (tables_ok plain_codec (\<lambda>_. True) (\<lambda>_. True) (upgraded (cn_tab old_connection)) \<longrightarrow>
           sqlite_invar plain_codec (\<lambda>_. True) (\<lambda>_. True) cn_tab cn_saved s)"
    using sqlite_open_spec [OF table.sqlite_store_axioms, of "\<lambda>_. Inr old_connection" "''jobs.db''" old_connection
        "[Some (WithSQLiteHistoryMaxAge 50)]" None]
    by (auto split: sum.splits)
  moreover have "tables_ok plain_codec (\<lambda>_. True) (\<lambda>_. True) (upgraded (cn_tab old_connection))"
    by (simp add: upgraded_def old_connection_def aged_sqlite_def tables_ok_def base_ok_def row_ok_def status_repr_def
        history_within_def status_row_of_def plain_codec_def empty_tables_def aged_row_def zero_status_def)
  moreover have "map hr_finished_at (tb_history (upgraded (cn_tab old_connection))) = [0, 0, 0]"
    by (simp add: upgraded_def old_connection_def aged_sqlite_def empty_tables_def)
  ultimately show ?thesis by (cases ?r) auto
qed

section \<open>Cancelled jobs\<close>

context sqlite_store
begin

text \<open>With a context that is done, no write has an effect.\<close>

lemma done_delete:
  assumes "invar s"
  shows "invar (snd (sqlite_Delete db (Some err) jid s)) \<and> sabs (snd (sqlite_Delete db (Some err) jid s)) = sabs s"
proof -
  obtain x d' where x: "db_Exec db (Some err) (DeleteJob jid) (q_db s) = (x, d')" by fastforce
  then obtain e where e: "x = Inl e" using exec_ok [of "Some err" "DeleteJob jid" "q_db s" _ d'] by (cases x) auto
  with x exec_err [of "Some err" "DeleteJob jid" "q_db s" e d'] assms show ?thesis
    by (auto simp: sqlite_Delete_def sqlite_invar_def sqlite_abs_def)
qed

lemma done_write: "write_outcome R (Some err) s r s' \<Longrightarrow> invar s' \<and> sabs s' = sabs s"
  by (cases r) (auto simp: write_outcome_def)

lemma done_terminal:
  assumes "invar s" and "named_state st"
  shows "invar (snd (sqlite_MarkTerminal rt js db (Some err) now jid st s)) \<and>
    sabs (snd (sqlite_MarkTerminal rt js db (Some err) now jid st s)) = sabs s"
  using done_write [OF sqlite_MarkTerminal_ok [OF assms prod.collapse [symmetric]]] by blast

lemma done_result:
  assumes "invar s" and "okpay p"
  shows "invar (snd (sqlite_RecordExecutionResult rt js db (Some err) now jid p limit s)) \<and>
    sabs (snd (sqlite_RecordExecutionResult rt js db (Some err) now jid p limit s)) = sabs s"
  using done_write [OF sqlite_RecordExecutionResult_ok [OF assms prod.collapse [symmetric]]] by blast

end

lemma job_ctx_pc [simp]: "job_ctx s (p\<lparr>p_pc := pc\<rparr>) = job_ctx s p"
  by (simp add: job_ctx_def)

text \<open>
  (C21) A job whose context is cancelled while it runs on a SQLite storage leaves no trace of its end.
  Its last steps, which record the final state and remove the job, pass the cancelled context to
  the storage; the database refuses it, so the status and the registration of the job stay as
  they were although the scheduler has dropped the job, and a result that an execution reports
  after the cancellation is lost. A later \<open>Schedule\<close> under the same identifier is refused as a
  duplicate.
\<close>

theorem sqlite_canceled_job:
  assumes "sqlite_store rt db tab saved healthy js okid okpay" and "error_matching rt"
    and "ops = SQLiteJobsStorage rt js db" and "sqlite_invar js okid okpay tab saved (s_jobsStorage s)"
    and "p_pc p = JFinalize st" and "named_state st" and "job_ctx s p = Some err" and "jid = j_ID (je_job (p_entry p))"
    and "map_of (s_jobs s) jid = Some (p_entry p)" and "jid \<in> as_jobs (sqlite_abs js tab (s_jobsStorage s))"
    and "job_step rt ops p s p1 s1" and "job_step rt ops p1 s1 p2 s2" and "healthy (q_db (s_jobsStorage s2))"
    and "okpay payload" and "j_ID job = jid"
  shows "p_pc p2 = JDone \<and> map_of (s_jobs s2) jid = None \<and>
    sqlite_abs js tab (s_jobsStorage s2) = sqlite_abs js tab (s_jobsStorage s) \<and>
    sqlite_abs js tab (s_jobsStorage (recordExecutionResult rt ops (Some err) now jid payload s)) =
      sqlite_abs js tab (s_jobsStorage s) \<and>
    fst (Schedule_register rt ops None now job s2) =
      Inl (Wrapf ErrInvalidJob ''job id already exists: %s'' [FStr jid])"
proof -
  note dn = sqlite_store.done_terminal [OF assms(1)] sqlite_store.done_delete [OF assms(1)]
    sqlite_store.done_result [OF assms(1)]
  let ?abs = "sqlite_abs js tab" and ?inv = "sqlite_invar js okid okpay tab saved"
  obtain now1 where s1: "p1 = p\<lparr>p_pc := JCleanup\<rparr>" "s1 = finalizeJobState rt ops (Some err) now1 jid st s"
    using assms(5,7,8,11) by (auto elim!: job_stepE)
  then have st1: "?inv (s_jobsStorage s1)" "?abs (s_jobsStorage s1) = ?abs (s_jobsStorage s)" "s_jobs s1 = s_jobs s"
    "s_canceled s1 = s_canceled s"
    using dn(1) [OF assms(4,6)] assms(3)
    by (simp_all add: finalizeJobState_def logged_write_eq SQLiteJobsStorage_def)
  have "job_ctx s1 p1 = job_ctx s p" by (simp add: s1(1) job_ctx_def st1(4))
  then have c1: "job_ctx s1 p1 = Some err" using assms(7) by simp
  have "p2 = p1\<lparr>p_pc := JDone\<rparr>" "s2 = (cleanupJob ops (Some err) (p_entry p) s1)\<lparr>s_wg := s_wg (cleanupJob ops (Some err) (p_entry p) s1) - 1\<rparr>"
    using assms(12) c1 s1(1) by (auto elim!: job_stepE)
  then have st2: "p_pc p2 = JDone" "?inv (s_jobsStorage s2)" "?abs (s_jobsStorage s2) = ?abs (s_jobsStorage s1)"
    "map_of (s_jobs s2) jid = None"
    using dn(2) [OF st1(1)] st1(3) assms(3,8,9)
    by (simp_all add: cleanupJob_def dropped_delete_def SQLiteJobsStorage_def Let_def)
  obtain r s3 where sv: "Save ops None job (s_jobsStorage s2) = (r, s3)" by fastforce
  have "sqlite_reliable healthy None (s_jobsStorage s2)" using assms(13) by (simp add: sqlite_reliable_def)
  from reliable_jobs_store.rel_save [OF sqlite_store.sqlite_contract [OF assms(1)] st2(2) this sv [unfolded assms(3)]]
  have "r = Some (Wrapf errJobAlreadyExists ''job ID: %s'' [FStr jid])"
    using st1(2) st2(3) assms(10,15) by simp
  moreover have "errors_Is rt (Wrapf errJobAlreadyExists ''job ID: %s'' [FStr jid]) errJobAlreadyExists"
    by (rule error_matching.Is_Wrapf_self [OF assms(2)])
  ultimately have "fst (Schedule_register rt ops None now job s2) =
      Inl (Wrapf ErrInvalidJob ''job id already exists: %s'' [FStr jid])"
    using sv assms(15) by (simp add: Schedule_register_def)
  moreover have "?abs (s_jobsStorage (recordExecutionResult rt ops (Some err) now jid payload s)) = ?abs (s_jobsStorage s)"
    using dn(3) [OF assms(4,14)] assms(3)
    by (simp add: recordExecutionResult_def logged_write_eq SQLiteJobsStorage_def)
  ultimately show ?thesis using st2 st1(2) by simp
qed

text \<open>A scheduler on a SQLite storage with one registered job whose context was cancelled.\<close>

definition kept_sqlite :: "connection sqlite" where
  "kept_sqlite = \<lparr>q_db = \<lparr>cn_tab = empty_tables\<lparr>tb_jobs := [(''a'', JobBlob ''a'')]\<rparr>, cn_saved = None\<rparr>,
     q_MaxAge = 0, q_MaxRowsPerJob = 0\<rparr>"

definition kept_proc :: proc where
  "kept_proc = idle_proc\<lparr>p_pc := JFinalize JobStateCanceled\<rparr>"

definition kept_sched :: "connection sqlite Scheduler" where
  "kept_sched = \<lparr>s_jobs = [(''a'', p_entry kept_proc)], s_jobsStorage = kept_sqlite, s_historyLimit = defaultHistoryLimit,
    s_client = 0, s_logger = True, s_sem = None, s_ctx = None, s_urlValidator = None, s_urlValidatorConfigured = False,
    s_wg = 1, s_counter = 0, s_stopped = False, s_canceled = {}, s_spawned = [p_entry kept_proc], s_nextPtr = 1, s_log = []\<rparr>"

theorem sqlite_canceled_job_witness:
  "\<exists>p1 s1 p2 s2. job_step chain_runtime (SQLiteJobsStorage chain_runtime plain_codec table_engine) kept_proc kept_sched p1 s1 \<and>
     job_step chain_runtime (SQLiteJobsStorage chain_runtime plain_codec table_engine) p1 s1 p2 s2 \<and>
     map_of (s_jobs s2) ''a'' = None \<and>
     sqlite_abs plain_codec cn_tab (s_jobsStorage s2) = sqlite_abs plain_codec cn_tab kept_sqlite \<and>
     fst (Schedule_register chain_runtime (SQLiteJobsStorage chain_runtime plain_codec table_engine) None (\<lambda>_. 1) demo_job s2) =
       Inl (Wrapf ErrInvalidJob ''job id already exists: %s'' [FStr ''a''])"
proof -
  let ?ops = "SQLiteJobsStorage chain_runtime plain_codec table_engine"
  have pc: "p_pc kept_proc = JFinalize JobStateCanceled" "j_ID (je_job (p_entry kept_proc)) = ''a''"
    by (simp_all add: kept_proc_def idle_proc_def demo_job_def)
  have c: "job_ctx s (kept_proc\<lparr>p_pc := x\<rparr>) = Some ctx_Canceled" "job_ctx s kept_proc = Some ctx_Canceled" for x and s :: "connection sqlite Scheduler"
    by (simp_all add: job_ctx_def kept_proc_def idle_proc_def)
  obtain s1 where 1: "job_step chain_runtime ?ops kept_proc kept_sched (kept_proc\<lparr>p_pc := JCleanup\<rparr>) s1"
    using finalize [OF pc(1)] by blast
  obtain s2 where 2: "job_step chain_runtime ?ops (kept_proc\<lparr>p_pc := JCleanup\<rparr>) s1 (kept_proc\<lparr>p_pc := JCleanup, p_pc := JDone\<rparr>) s2"
    using cleanup [of "kept_proc\<lparr>p_pc := JCleanup\<rparr>"] by fastforce
  have inv: "sqlite_invar plain_codec (\<lambda>_. True) (\<lambda>_. True) cn_tab cn_saved (s_jobsStorage kept_sched)"
    by (simp add: kept_sched_def kept_sqlite_def sqlite_invar_def tables_ok_def base_ok_def empty_tables_def)
  have reg: "map_of (s_jobs kept_sched) ''a'' = Some (p_entry kept_proc)"
    "''a'' \<in> as_jobs (sqlite_abs plain_codec cn_tab (s_jobsStorage kept_sched))"
    by (simp_all add: kept_sched_def kept_sqlite_def sqlite_abs_def table_abs_def)
  have st: "s_jobsStorage kept_sched = kept_sqlite" and id: "j_ID demo_job = ''a''" by (simp_all add: kept_sched_def demo_job_def)
  note lost = sqlite_canceled_job [OF table.sqlite_store_axioms chain.error_matching_axioms refl inv pc(1) named_states(4) c(2) pc(2) [symmetric]
      reg 1 2 TrueI TrueI id, of "\<lambda>_. 1" demo_payload, unfolded st]
  from 1 2 lost show ?thesis by blast
qed

end
