(* ===== verification/Scheduler_Deadlock.thy ===== *)
theory Scheduler_Deadlock
  imports Scheduler_Liveness
begin

text \<open>
  The other side of \<open>stop_drains\<close>. When more executions of one job may run at a time than its retrier
  retries, they can take all timers of its pool and wait for another one each; \<open>Stop\<close> then waits for
  them forever, because \<open>Get\<close> does not look at the context that \<open>Stop\<close> cancels.
\<close>

section \<open>Blocked executions\<close>

text \<open>An execution whose call has made its first attempt and needs a timer for its wait.\<close>

fun waiting_timer :: "nat \<times> exec_pc \<Rightarrow> bool" where
  "waiting_timer (i, EAttempts t env (NeedTimer k g)) = (i = 0)"
| "waiting_timer x = False"

lemma waiting_held:
  assumes "list_all waiting_timer es" and "p_pool (ps ! 0) = k"
  shows "sum_list (map held (callers ps es k)) = length es"
  using assms by (induction es) (auto simp: callers_def exec_caller_def elim!: waiting_timer.elims)

lemma waiting_slots: "list_all waiting_timer es \<Longrightarrow> length (filter (\<lambda>x. holds_slot (snd x)) es) = length es"
  by (induction es) (auto elim!: waiting_timer.elims)

lemma waiting_nth: "list_all waiting_timer es \<Longrightarrow> k < length es \<Longrightarrow> \<exists>t env n g. es ! k = (0, EAttempts t env (NeedTimer n g))"
  by (auto simp: list_all_length elim!: waiting_timer.elims)

section \<open>No way out\<close>

text \<open>The job waits for its executions, and they all wait for a timer of the empty pool.\<close>

definition hung :: "'s system \<Rightarrow> bool" where
  "hung y \<longleftrightarrow> (\<exists>p st. y_procs y = [p] \<and> p_pc p = JDrain st \<and> 0 < p_active p \<and>
     pool_open (y_pools y (p_pool p)) \<and> pool_idle (y_pools y (p_pool p)) = 0 \<and>
     list_all waiting_timer (y_execs y) \<and> s_stopped (y_sched y))"

lemma needs_timer:
  assumes "share_step m (pool, [NeedTimer n g]) (pool', [c'])" and "pool_open pool"
  shows "0 < pool_idle pool"
  using assms pool.get_idle [OF assms(2)] by (cases rule: share_step.cases) auto

lemma hung_inner:
  assumes "hung y"
  shows "\<not> inner_step rt ops y y'"
proof
  assume "inner_step rt ops y y'"
  from assms obtain p st where h: "y_procs y = [p]" "p_pc p = JDrain st" "0 < p_active p"
    "pool_open (y_pools y (p_pool p))" "pool_idle (y_pools y (p_pool p)) = 0" "list_all waiting_timer (y_execs y)"
    unfolding hung_def by blast
  note w = waiting_nth [OF h(6)]
  from \<open>inner_step rt ops y y'\<close> show False
  proof (cases rule: inner_step.cases)
    case (in_job i p' s')
    from in_job(3) in_job(2) h show False by (cases rule: job_step.cases) auto
  next
    case (in_exec k i pc pc' s')
    from in_exec(5) w [OF in_exec(2)] in_exec(3) show False by (cases rule: exec_step.cases) auto
  next
    case (in_call k i t env c q tr pool' c')
    from w [OF in_call(2)] in_call(3,5) h(1) obtain n g where "c = NeedTimer n g" "q = p" by auto
    with needs_timer in_call(7) h(4,5) show False by fastforce
  qed (use w h in fastforce)+
qed

lemma hung_client:
  assumes "hung y" and "client_step rt ops y y'"
  shows "hung y' \<and> y_execs y' = y_execs y \<and> s_wg (y_sched y') = s_wg (y_sched y)"
  using assms(2)
proof (cases rule: client_step.cases)
  case (cl_schedule c t now job jid s' entry k)
  with assms(1) Schedule_core [OF cl_schedule(2)] show ?thesis by (simp add: hung_def)
next
  case (cl_refused c t now job e s')
  from Schedule_fresh [OF cl_refused(2)] assms(1) cl_refused(1) show ?thesis by (auto simp: hung_def same_core_def)
next
  case (cl_remove c now jid b s')
  with assms(1) Remove_core [OF cl_remove(2)] show ?thesis by (simp add: hung_def)
next
  case (cl_stop c now)
  with assms(1) show ?thesis by (auto simp: hung_def Stop_core)
next
  case (cl_cancel i e)
  with assms(1) show ?thesis by (auto simp: hung_def)
qed

lemma hung_forever:
  assumes "(sys_step rt ops)\<^sup>*\<^sup>* y z" and "hung y"
  shows "hung z \<and> y_execs z = y_execs y \<and> s_wg (y_sched z) = s_wg (y_sched y)"
  using assms
proof (induction rule: rtranclp_induct)
  case (step z z')
  then have "hung z" "client_step rt ops z z'" using hung_inner unfolding sys_step_def by blast+
  with hung_client step show ?case by metis
qed simp

section \<open>The way there\<close>

text \<open>The job's loop after \<open>j\<close> runs, each of which waits for a timer.\<close>

definition loop_proc :: "jobEntry \<Rightarrow> job_pc \<Rightarrow> nat \<Rightarrow> proc" where
  "loop_proc e pc j = \<lparr>p_entry = e, p_parent = None, p_pc = pc, p_active = j, p_enqueued = int j, p_pool = 0\<rparr>"

lemma loop_proc_simps [simp]:
  "p_entry (loop_proc e pc j) = e" "p_parent (loop_proc e pc j) = None" "p_pc (loop_proc e pc j) = pc"
  "p_active (loop_proc e pc j) = j" "p_enqueued (loop_proc e pc j) = int j" "p_pool (loop_proc e pc j) = 0"
  "(loop_proc e pc j)\<lparr>p_pc := pc'\<rparr> = loop_proc e pc' j"
  by (simp_all add: loop_proc_def)

definition hanging :: "jobEntry \<Rightarrow> nat \<Rightarrow> 's system \<Rightarrow> bool" where
  "hanging e j y \<longleftrightarrow> y_procs y = [loop_proc e (JLoop (int j)) j] \<and> length (y_execs y) = j \<and>
     list_all waiting_timer (y_execs y) \<and> je_ptr e \<notin> s_canceled (y_sched y)"

text \<open>The calls that wait have left a timer in the pool for another one, if they are few enough.\<close>

lemma hanging_idle:
  assumes "hanging e j y" and "pools_ok y" and "runnable (loop_proc e (JLoop (int j)) j)"
    and "m = call_limit (loop_proc e (JLoop (int j)) j)"
  shows "pool_open (y_pools y 0) \<and> pool_idle (y_pools y 0) + j = Suc m"
proof -
  have "pool_full y (loop_proc e (JLoop (int j)) j)" using assms(1-3) by (simp add: hanging_def pools_ok_def)
  moreover have "sum_list (map held (callers (y_procs y) (y_execs y) 0)) = j"
    using waiting_held [of "y_execs y" "y_procs y" 0] assms(1) by (simp add: hanging_def)
  ultimately show ?thesis using assms(4) by (simp add: pool_full_def share_inv_def)
qed

text \<open>The system of that job, and how the job, its last execution and that execution's call move.\<close>

definition loop_sys ::
  "jobEntry \<Rightarrow> 's Scheduler \<Rightarrow> job_pc \<Rightarrow> nat \<Rightarrow> (nat \<times> exec_pc) list \<Rightarrow> (nat \<Rightarrow> timer_pool) \<Rightarrow> 's system" where
  "loop_sys e s pc k es f = \<lparr>y_sched = s, y_procs = [loop_proc e pc k], y_execs = es, y_pools = f\<rparr>"

lemma loop_sys_job:
  assumes "job_step rt ops (loop_proc e pc k) s (loop_proc e pc' k) s'"
  shows "inner_step rt ops (loop_sys e s pc k es f) (loop_sys e s' pc' k es f)"
  using in_job [of 0 "loop_sys e s pc k es f" rt ops "loop_proc e pc' k" s'] assms by (simp add: loop_sys_def)

lemma loop_sys_enqueue:
  assumes "slot_free (loop_sys e s (JEnqueue n t) k es f)"
  shows "inner_step rt ops (loop_sys e s (JEnqueue n t) k es f)
    (loop_sys e (s\<lparr>s_wg := s_wg s + 1\<rparr>) (JTick n) (Suc k) (es @ [(0, EQueued t)]) f)"
  using in_enqueue [of 0 "loop_sys e s (JEnqueue n t) k es f" "loop_proc e (JEnqueue n t) k" n t rt ops] assms
  by (simp add: loop_sys_def loop_proc_def add.commute)

lemma loop_sys_exec:
  assumes "exec_step rt ops (loop_proc e pc k) x s x' s'"
  shows "inner_step rt ops (loop_sys e s pc k (es @ [(0, x)]) f) (loop_sys e s' pc k (es @ [(0, x')]) f)"
  using in_exec [of "length es" "loop_sys e s pc k (es @ [(0, x)]) f" 0 x rt ops x' s'] assms
  by (simp add: loop_sys_def)

lemma loop_sys_call:
  assumes "call_trace rt env (je_job e) = Some tr"
    and "share_step (call_limit (loop_proc e JStart 0)) (f 0, [x]) (pool', [x'])" and "follows_plan (length (calls tr)) x x'"
  shows "inner_step rt ops (loop_sys e s pc k (es @ [(0, EAttempts t env x)]) f)
    (loop_sys e s pc k (es @ [(0, EAttempts t env x')]) (f(0 := pool')))"
  using in_call [of "length es" "loop_sys e s pc k (es @ [(0, EAttempts t env x)]) f" 0 t env x "loop_proc e pc k"
      rt tr pool' x' ops] assms by (simp add: loop_sys_def call_limit_def)

text \<open>One more run: the loop starts it, its call begins, and its first attempt is to be retried.\<close>

lemma hang_round:
  assumes "hanging e j y" and "pool_open (y_pools y 0)" and "0 < pool_idle (y_pools y 0)" and "slot_free y"
    and "call_trace rt env (je_job e) = Some tr" and "calls tr \<noteq> []" and "0 < call_limit (loop_proc e JStart 0)"
    and "sc_EndAt (j_Schedule (je_job e)) = None" and "\<not> max_runs_reached (j_Schedule (je_job e)) (int j)"
  shows "\<exists>y'. (inner_step rt ops)\<^sup>*\<^sup>* y y' \<and> hanging e (Suc j) y'"
proof -
  define s es f where "s = y_sched y" "es = y_execs y" "f = y_pools y"
  let ?sy = "loop_sys e"
  let ?n = "int (Suc j)"
  have es: "length es = j" "list_all waiting_timer es" and nc: "je_ptr e \<notin> s_canceled s"
    using assms(1) by (simp_all add: hanging_def s_es_f_def)
  have y: "y = ?sy s (JLoop (int j)) j es f" using assms(1) by (simp add: hanging_def loop_sys_def s_es_f_def)
  note job = loop_sys_job and ex = loop_sys_exec and call = loop_sys_call [OF assms(5)]
  define s1 where "s1 = s\<lparr>s_wg := s_wg s + 1\<rparr>"
  define s2 where "s2 = markExecutionStart rt ops (job_ctx s1 (loop_proc e (JTick ?n) (Suc j))) (\<lambda>_. 0) (j_ID (je_job e)) s1"
  obtain g q where g: "pool_Get 0 (f 0) = Ret (Some g, q)" using pool.get_ready [of "f 0" 0] assms(2,3) by (auto simp: s_es_f_def)
  have 1: "inner_step rt ops y (?sy s (JEnqueue ?n 0) j es f)"
    unfolding y using loop_run [of "loop_proc e (JLoop (int j)) j" "int j" s 0 0 rt ops] nc assms(8,9)
    by (intro job) (simp add: job_ctx_def end_passed_def add.commute)
  have 2: "inner_step rt ops (?sy s (JEnqueue ?n 0) j es f) (?sy s1 (JTick ?n) (Suc j) (es @ [(0, EQueued 0)]) f)"
    unfolding s1_def using assms(4) by (intro loop_sys_enqueue) (simp add: slot_free_def y loop_sys_def split: option.splits)
  have 3: "inner_step rt ops (?sy s1 (JTick ?n) (Suc j) (es @ [(0, EQueued 0)]) f) (?sy s2 (JTick ?n) (Suc j) (es @ [(0, ECall 0)]) f)"
    using ex_begin [of rt ops "loop_proc e (JTick ?n) (Suc j)" 0 s1 "\<lambda>_. 0"] by (intro ex) (simp add: s2_def)
  have 4: "inner_step rt ops (?sy s2 (JTick ?n) (Suc j) (es @ [(0, ECall 0)]) f)
      (?sy s2 (JTick ?n) (Suc j) (es @ [(0, EAttempts 0 env Start)]) f)"
    using ex_call [of rt env "loop_proc e (JTick ?n) (Suc j)" tr ops 0 s2] assms(5,6) by (intro ex) simp
  have 5: "inner_step rt ops (?sy s2 (JTick ?n) (Suc j) (es @ [(0, EAttempts 0 env Start)]) f)
      (?sy s2 (JTick ?n) (Suc j) (es @ [(0, EAttempts 0 env (Running 0 g))]) (f(0 := q)))"
    using enter [of 0 "[Start]" 0 "f 0" g q] g by (intro call) simp_all
  have 6: "inner_step rt ops (?sy s2 (JTick ?n) (Suc j) (es @ [(0, EAttempts 0 env (Running 0 g))]) (f(0 := q)))
      (?sy s2 (JTick ?n) (Suc j) (es @ [(0, EAttempts 0 env (NeedTimer 0 g))]) (f(0 := q, 0 := q)))"
    using retry [of 0 "[Running 0 g]" 0 g _ q] assms(7) by (intro call) simp_all
  have 7: "inner_step rt ops (?sy s2 (JTick ?n) (Suc j) (es @ [(0, EAttempts 0 env (NeedTimer 0 g))]) (f(0 := q, 0 := q)))
      (?sy s2 (JLoop ?n) (Suc j) (es @ [(0, EAttempts 0 env (NeedTimer 0 g))]) (f(0 := q, 0 := q)))"
    using tick [of "loop_proc e (JTick ?n) (Suc j)" ?n rt ops s2] by (intro job) simp
  have "(inner_step rt ops)\<^sup>*\<^sup>* y (?sy s2 (JLoop ?n) (Suc j) (es @ [(0, EAttempts 0 env (NeedTimer 0 g))]) (f(0 := q, 0 := q)))"
    using 1 2 3 4 5 6 7 by (meson converse_rtranclp_into_rtranclp rtranclp.rtrancl_refl)
  moreover have "same_core s1 s2" by (simp add: s2_def markExecutionStart_def)
  then have "s_canceled s2 = s_canceled s" by (simp add: same_core_def s1_def)
  then have "hanging e (Suc j) (?sy s2 (JLoop ?n) (Suc j) (es @ [(0, EAttempts 0 env (NeedTimer 0 g))]) (f(0 := q, 0 := q)))"
    using es nc by (simp add: hanging_def loop_sys_def)
  ultimately show ?thesis by blast
qed

lemma hang_start:
  assumes "sched_Schedule rt ops None t now job s = Ret (Inr jid, s')" and "last (s_spawned s') = e"
    and "s_canceled s = {}" and "sc_StartAt (j_Schedule (je_job e)) = None"
  shows "\<exists>y. (sys_step rt ops)\<^sup>*\<^sup>* (boot s) y \<and> hanging e 0 y"
proof -
  let ?f = "assign_pool rt t (boot s) e 0"
  have "client_step rt ops (boot s) (loop_sys e s' JStart 0 [] ?f)"
    using cl_schedule [OF _ assms(2), of rt ops None t now job "boot s" jid 0] assms(1)
    by (simp add: boot_def loop_sys_def loop_proc_def new_proc_def retrier_choice_def)
  moreover have "inner_step rt ops (loop_sys e s' JStart 0 [] ?f) (loop_sys e s' (JLoop 0) 0 [] ?f)"
    using start_now [of "loop_proc e JStart 0" 0 rt ops s'] assms(4) by (intro loop_sys_job) simp
  ultimately have "(sys_step rt ops)\<^sup>*\<^sup>* (boot s) (loop_sys e s' (JLoop 0) 0 [] ?f)"
    using client_first inner_first rtranclp.rtrancl_refl by metis
  moreover have "hanging e 0 (loop_sys e s' (JLoop 0) 0 [] ?f)"
    using Schedule_core [OF assms(1)] assms(2,3) by (simp add: hanging_def loop_sys_def)
  ultimately show ?thesis by blast
qed

lemma hang_reach:
  assumes "NewSchedulerWithError ops st0 dv now0 c opts = (s, err)" and "list_all plain_option opts"
    and "(sys_step rt ops)\<^sup>*\<^sup>* (boot s) y0" and "hanging e 0 y0" and "runnable (loop_proc e JStart 0)"
    and "call_limit (loop_proc e JStart 0) = m" and "0 < m"
    and "call_trace rt env (je_job e) = Some tr" and "calls tr \<noteq> []" and "sc_EndAt (j_Schedule (je_job e)) = None"
    and "\<forall>j \<le> m. \<not> max_runs_reached (j_Schedule (je_job e)) (int j)" and "\<forall>n. s_sem s = Some n \<longrightarrow> int m < n"
  shows "j \<le> Suc m \<Longrightarrow> \<exists>y. (sys_step rt ops)\<^sup>*\<^sup>* (boot s) y \<and> hanging e j y"
proof (induction j)
  case 0
  show ?case using assms(3,4) by blast
next
  case (Suc j)
  then obtain y where y: "(sys_step rt ops)\<^sup>*\<^sup>* (boot s) y" "hanging e j y" by auto
  have "pool_open (y_pools y 0) \<and> pool_idle (y_pools y 0) + j = Suc m"
    using hanging_idle [OF y(2)] reachable_pools [OF assms(1,2) y(1)] assms(5,6) by (simp add: runnable_def call_limit_def)
  then have pool: "pool_open (y_pools y 0)" "0 < pool_idle (y_pools y 0)" using Suc.prems by auto
  have "s_sem (y_sched y) = s_sem s" using reachable_sem [OF y(1)] by (simp add: boot_def)
  then have "slot_free y"
    using y(2) assms(12) Suc.prems by (auto simp: slot_free_def hanging_def waiting_slots split: option.split)
  with hang_round [OF y(2) pool _ assms(8,9) _ assms(10), of ops] assms(6,7,11) Suc.prems obtain y' where
    "(inner_step rt ops)\<^sup>*\<^sup>* y y'" "hanging e (Suc j) y'" by auto
  with y(1) inner_steps show ?case by (meson rtranclp_trans)
qed

lemma hanging_hung:
  assumes "hanging e (Suc m) y" and "pools_ok y" and "runnable (loop_proc e JStart 0)"
    and "call_limit (loop_proc e JStart 0) = m" and "y1 = y\<lparr>y_sched := s1\<rparr>" and "stopping rt y1"
  shows "\<exists>z. inner_step rt ops y1 z \<and> hung z \<and> length (y_execs z) = Suc m"
proof -
  let ?p = "loop_proc e (JLoop (int (Suc m))) (Suc m)"
  obtain st s' where ct: "contextTerminalState ops (job_ctx s1 ?p) (j_ID (je_job e)) s1 = (st, s')"
    by fastforce
  have y: "y_procs y1 = [?p]" "length (y_execs y1) = Suc m" "list_all waiting_timer (y_execs y1)"
    using assms(1,5) by (simp_all add: hanging_def)
  have "job_ctx s1 ?p \<noteq> None" using stopping_ctx [OF assms(6), of ?p] y(1) assms(5) by simp
  with loop_canceled [of ?p "int (Suc m)"] ct have "job_step rt ops ?p s1 (loop_proc e (JDrain st) (Suc m)) s'"
    by simp
  with in_job [of 0 y1 rt ops] y(1) assms(5) have
    "inner_step rt ops y1 (y1\<lparr>y_sched := s', y_procs := [loop_proc e (JDrain st) (Suc m)]\<rparr>)" by simp
  moreover have "pool_open (y_pools y 0) \<and> pool_idle (y_pools y 0) + Suc m = Suc m"
    using hanging_idle [OF assms(1,2)] assms(3,4) by (simp add: runnable_def call_limit_def)
  moreover have "s_stopped s'" using contextTerminalState_core [OF ct] assms(5,6) by (simp add: same_core_def stopping_def)
  ultimately show ?thesis
    using y assms(5)
    by (intro exI [of _ "y1\<lparr>y_sched := s', y_procs := [loop_proc e (JDrain st) (Suc m)]\<rparr>"]) (simp add: hung_def)
qed

lemma hung_wg:
  assumes "sys_inv z" and "hung z"
  shows "s_wg (y_sched z) = int (length (y_execs z)) + 1"
  using assms by (auto simp: sys_inv_def wg_ok_def running_def cnt_def hung_def)

section \<open>Property\<close>

text \<open>
  (C18) \<open>Stop\<close> can hang. Take a new scheduler that runs more executions at a time than a retrier retries:
  without \<open>WithConcurrency\<close>, or with a larger number than \<open>MaxRetries\<close>. A job with that retrier is
  scheduled to start at once, without an end and with more runs than \<open>MaxRetries\<close>, and its
  request fails so that its first attempt is retried. Then a state can be reached from which, after \<open>Stop\<close>
  has cancelled the job, \<open>MaxRetries + 1\<close> executions hold one timer of the retrier's pool each and wait
  for another one. None of them ever moves again, whatever clients call, and the wait group that \<open>Stop\<close>
  waits for stays positive, so that \<open>Stop\<close> does not return.
\<close>

theorem stop_hangs:
  assumes "NewSchedulerWithError ops st0 dv now0 c opts = (s, err)" and "list_all plain_option opts"
    and "\<forall>n. s_sem s = Some n \<longrightarrow> MaxRetries r < n"
    and "sched_Schedule rt ops None t now job s = Ret (Inr jid, s')" and "last (s_spawned s') = e"
    and "rp_Retrier (j_RetryPolicy (je_job e)) = Some r" and "usable r" and "full_pool r" and "0 < MaxRetries r"
    and "sc_StartAt (j_Schedule (je_job e)) = None" and "sc_EndAt (j_Schedule (je_job e)) = None"
    and "sc_MaxRuns (j_Schedule (je_job e)) = 0 \<or> MaxRetries r < sc_MaxRuns (j_Schedule (je_job e))"
    and "call_trace rt env (je_job e) = Some tr" and "1 < length (calls tr)"
  shows "\<exists>y z. (sys_step rt ops)\<^sup>*\<^sup>* (boot s) y \<and>
    (inner_step rt ops)\<^sup>*\<^sup>* (y\<lparr>y_sched := sched_Stop rt ops c1 now1 (y_sched y)\<rparr>) z \<and>
    int (length (y_execs z)) = MaxRetries r + 1 \<and>
    (\<forall>z'. (sys_step rt ops)\<^sup>*\<^sup>* z z' \<longrightarrow> y_execs z' = y_execs z \<and> s_wg (y_sched z') = MaxRetries r + 2)"
proof -
  let ?m = "nat (MaxRetries r)"
  have lim: "call_limit (loop_proc e JStart 0) = ?m" "0 < ?m" using assms(6,9) by (simp_all add: call_limit_def)
  have run: "runnable (loop_proc e JStart 0)" using assms(6-8) by (simp add: runnable_def)
  have fresh: "s_canceled s = {}" using new_fresh [OF assms(1,2)] by (simp add: fresh_def)
  obtain y0 where y0: "(sys_step rt ops)\<^sup>*\<^sup>* (boot s) y0" "hanging e 0 y0"
    using hang_start [OF assms(4,5) fresh assms(10)] by blast
  have "calls tr \<noteq> []" using assms(14) by auto
  moreover have "\<forall>j \<le> ?m. \<not> max_runs_reached (j_Schedule (je_job e)) (int j)"
    using assms(9,12) by (auto simp: max_runs_reached_def)
  moreover have "\<forall>n. s_sem s = Some n \<longrightarrow> int ?m < n" using assms(3,9) by auto
  moreover have "Suc ?m \<le> Suc ?m" by simp
  ultimately obtain y where y: "(sys_step rt ops)\<^sup>*\<^sup>* (boot s) y" "hanging e (Suc ?m) y"
    using hang_reach [OF assms(1,2) y0 run lim assms(13) _ assms(11)] by metis
  define y1 where "y1 = y\<lparr>y_sched := sched_Stop rt ops c1 now1 (y_sched y)\<rparr>"
  have st: "stopping rt y1" using stop_stopping [OF assms(1,2) y(1) y1_def] .
  have "pools_ok y" using reachable_pools [OF assms(1,2) y(1)] by blast
  from hanging_hung [OF y(2) this run lim(1) y1_def st] obtain z where
    z: "inner_step rt ops y1 z" "hung z" "length (y_execs z) = Suc ?m" by blast
  have "sys_inv z" using stopping_step [OF z(1) st] by (simp add: stopping_def)
  from hung_wg [OF this z(2)] z(3) assms(9) have wg: "s_wg (y_sched z) = MaxRetries r + 2" by simp
  have "\<forall>z'. (sys_step rt ops)\<^sup>*\<^sup>* z z' \<longrightarrow> y_execs z' = y_execs z \<and> s_wg (y_sched z') = MaxRetries r + 2"
    using hung_forever [OF _ z(2)] wg by metis
  moreover have "int (length (y_execs z)) = MaxRetries r + 1" using z(3) assms(9) by simp
  moreover have "(inner_step rt ops)\<^sup>*\<^sup>* y1 z" using z(1) by (rule r_into_rtranclp)
  ultimately show ?thesis using y(1) unfolding y1_def by blast
qed

text \<open>A scheduler without options, and a job without a limit on its runs whose request is retried once.\<close>

definition busy_job :: Job where
  "busy_job = demo_exec_job\<lparr>j_Schedule := (j_Schedule demo_exec_job)\<lparr>sc_MaxRuns := 0\<rparr>\<rparr>"

lemma busy_trace:
  assumes "j_RetryPolicy job = j_RetryPolicy demo_exec_job"
  shows "\<exists>tr. call_trace chain_runtime demo_exec job = Some tr \<and> 1 < length (calls tr)"
proof -
  have "exec_attempts demo_exec job = exec_attempts demo_exec demo_exec_job"
    using assms by (auto simp: exec_attempts_def demo_exec_def attempt_error_def)
  then have "call_trace chain_runtime demo_exec job = call_trace chain_runtime demo_exec demo_exec_job"
    by (simp only: call_trace_def assms)
  moreover have "case call_trace chain_runtime demo_exec demo_exec_job of Some tr \<Rightarrow> 1 < length (calls tr) | None \<Rightarrow> False"
    by code_simp
  ultimately show ?thesis by (auto split: option.splits)
qed

lemma busy_schedule:
  "\<exists>s' e. sched_Schedule chain_runtime InMemoryJobsStorage None 0 (\<lambda>_. 1) busy_job demo_sched = Ret (Inr ''a'', s') \<and>
     last (s_spawned s') = e \<and> j_Schedule (je_job e) = j_Schedule busy_job \<and>
     j_RetryPolicy (je_job e) = j_RetryPolicy demo_exec_job"
proof -
  have "job_acceptable demo_sched busy_job"
    by (simp add: job_acceptable_def busy_job_def demo_exec_job_def demo_job_def schedule_valid_def request_valid_def
        callback_valid_def url_accepted_def supported_def effective_method_def upper_get demo_sched_eq del: str_ToUpper.simps)
  moreover obtain nj where nj: "normalizeJob chain_runtime 0 demo_sched busy_job = Ret nj"
    "case nj of
       Inr job' \<Rightarrow> job_acceptable demo_sched busy_job \<and> job_normalized chain_runtime 0 demo_sched busy_job job' \<and>
         j_ID job' = j_ID busy_job
     | Inl e \<Rightarrow> \<not> job_acceptable demo_sched busy_job \<and>
         (if method_unsupported demo_sched busy_job then \<exists>m. e = Wrap ErrUnsupportedMethod m
          else \<exists>f as. e = Wrapf ErrInvalidJob f as)"
    using normalizeJob_spec [of chain_runtime 0 demo_sched busy_job] by blast
  ultimately obtain job' where
    j: "normalizeJob chain_runtime 0 demo_sched busy_job = Ret (Inr job')" "job_normalized chain_runtime 0 demo_sched busy_job job'"
      "j_ID job' = j_ID busy_job" by (cases nj) simp_all
  have jid: "j_ID job' = ''a''" using j(3) by (simp add: busy_job_def demo_exec_job_def demo_job_def)
  have "map_of (s_jobs demo_sched) (j_ID job') = None" by (simp add: demo_sched_eq)
  from mem.Schedule_register_ok [OF demo_sched_ok TrueI chain.error_matching_axioms TrueI this demo_sched_eq(3),
      of None "\<lambda>_. 1"] jid
  obtain s' where s': "Schedule_register chain_runtime InMemoryJobsStorage None (\<lambda>_. 1) job' demo_sched = (Inr ''a'', s')"
    by auto
  have "j_Schedule job' = j_Schedule busy_job" "j_RetryPolicy job' = j_RetryPolicy demo_exec_job"
    using j(2) by (simp_all add: job_normalized_def policy_completed_def busy_job_def demo_exec_job_def)
  with Schedule_register_core [OF s'] s' jid show ?thesis
    using Schedule_cases [OF j(1) demo_sched_eq(3), of InMemoryJobsStorage None "\<lambda>_. 1"]
    by (auto simp: demo_sched_eq)
qed

theorem stop_hangs_witness:
  "\<exists>y z. (sys_step chain_runtime InMemoryJobsStorage)\<^sup>*\<^sup>* (boot demo_sched) y \<and>
    (inner_step chain_runtime InMemoryJobsStorage)\<^sup>*\<^sup>*
      (y\<lparr>y_sched := sched_Stop chain_runtime InMemoryJobsStorage None (\<lambda>_. 5) (y_sched y)\<rparr>) z \<and>
    length (y_execs z) = 3 \<and> s_wg (y_sched z) = 4"
proof -
  have new: "NewSchedulerWithError InMemoryJobsStorage NewInMemoryJobsStorage (Inr (\<lambda>_ url. Inr url)) (\<lambda>_. 0) None [] =
      (demo_sched, None)" and sem: "s_sem demo_sched = None"
    by (simp_all add: demo_sched_def NewSchedulerWithError_def reconcileRecoveredState_def InMemoryJobsStorage_def
        mem_IDs_def NewInMemoryJobsStorage_def)
  obtain s' e where e: "sched_Schedule chain_runtime InMemoryJobsStorage None 0 (\<lambda>_. 1) busy_job demo_sched = Ret (Inr ''a'', s')"
    "last (s_spawned s') = e" "j_Schedule (je_job e) = j_Schedule busy_job" "j_RetryPolicy (je_job e) = j_RetryPolicy demo_exec_job"
    using busy_schedule by blast
  obtain tr where tr: "call_trace chain_runtime demo_exec (je_job e) = Some tr" "1 < length (calls tr)"
    using busy_trace [OF e(4)] by blast
  have r: "rp_Retrier (j_RetryPolicy (je_job e)) = Some demo_retrier" "MaxRetries demo_retrier = 2"
    using e(4) by (simp_all add: demo_exec_job_def demo_retrier_def)
  have sc: "sc_StartAt (j_Schedule (je_job e)) = None" "sc_EndAt (j_Schedule (je_job e)) = None"
    "sc_MaxRuns (j_Schedule (je_job e)) = 0"
    using e(3) by (simp_all add: busy_job_def demo_exec_job_def demo_job_def)
  have hyps: "list_all plain_option ([] :: mem_store sched_option list)"
    "\<forall>n. s_sem demo_sched = Some n \<longrightarrow> MaxRetries demo_retrier < n" "0 < MaxRetries demo_retrier"
    "sc_MaxRuns (j_Schedule (je_job e)) = 0 \<or> MaxRetries demo_retrier < sc_MaxRuns (j_Schedule (je_job e))"
    using sem r(2) sc(3) by simp_all
  from stop_hangs [OF new hyps(1,2) e(1,2) r(1) demo_usable demo_full hyps(3) sc(1,2) hyps(4) tr, of None "\<lambda>_. 5"]
  obtain y z where yz: "(sys_step chain_runtime InMemoryJobsStorage)\<^sup>*\<^sup>* (boot demo_sched) y"
    "(inner_step chain_runtime InMemoryJobsStorage)\<^sup>*\<^sup>*
      (y\<lparr>y_sched := sched_Stop chain_runtime InMemoryJobsStorage None (\<lambda>_. 5) (y_sched y)\<rparr>) z"
    "int (length (y_execs z)) = 3" "s_wg (y_sched z) = 4"
    using r(2) by auto
  then show ?thesis by (intro exI [of _ y] exI [of _ z]) simp
qed

end
