(* ===== verification/Spec2Isabelle.thy ===== *)
theory Spec2Isabelle
  imports Pool_Sharing Sqlite_Properties Scheduler_Deadlock
begin

text \<open>
  A verification development of \<open>go-again\<close>: a retry library (package \<open>again\<close> at the root of the
  repository) and a job scheduler built on it (package \<open>scheduler\<close> in \<open>pkg/scheduler\<close>).

  \<^bold>\<open>The program.\<close> A \<open>Retrier\<close> calls a function until it succeeds, its error is not temporary, the
  retries are used up, the timeout passes or it is cancelled; between two attempts it waits on a
  timer from its \<open>TimerPool\<close>, and a \<open>Registry\<close> says which errors are temporary. A \<open>Scheduler\<close>
  keeps jobs: \<open>Schedule\<close> starts a goroutine \<open>runJob\<close> per job, which enqueues executions at every
  tick; an execution sends an HTTP request through the job's retrier, stores the outcome and sends a
  callback. What must survive is kept in a \<open>JobsStorage\<close>, in memory or in SQLite: the registered
  identifiers, a status per identifier and a history of runs. \<open>Remove\<close> and \<open>Stop\<close> cancel jobs, and
  a new scheduler reconciles what an earlier one left in its storage.

  \<^bold>\<open>The theories\<close>, in the order in which they build on each other:

  \<^item> \<open>Go_Prelude\<close>: 64-bit integers with their wrap-around written out, floats as far as they are
    compared, the outcomes of a call (a value, a panic, blocked for ever), slices, \<open>select\<close>.
  \<^item> \<open>Go_Errors\<close>: error values and sentinels (\<open>errors.go\<close>, \<open>retrier.go\<close>,
    \<open>pkg/scheduler/errors.go\<close>), and the contract \<open>error_matching\<close> of \<open>errors.Is\<close>.
  \<^item> \<open>Timer_Pool\<close> (\<open>timer.go\<close>) and \<open>Error_Registry\<close> (\<open>registry.go\<close>): their operations, the
    interfaces \<open>timer_source\<close> and \<open>temporary_errors\<close> the retrier uses, and their interpretations.
  \<^item> \<open>Retrier\<close> (\<open>retrier.go\<close>, \<open>options.go\<close>): construction, validation, \<open>Do\<close>, \<open>DoWithContext\<close>,
    \<open>DoWithResult\<close>, cancellation, the options. \<open>Retrier_Facts\<close>, \<open>Retrier_Properties\<close> and
    \<open>Retrier_Context\<close>: what a call returns on every path, how often and how far apart it invokes
    the function, when it rejects, panics, times out or stops, and that the two loops agree.
  \<^item> \<open>Pool_Sharing\<close>: several goroutines on one retrier, as a step relation on its timer pool; when
    they deadlock and when they cannot.
  \<^item> \<open>Scheduler_Types\<close> (\<open>types.go\<close>, the interface of \<open>storage.go\<close>); \<open>Store_Contract\<close>: the
    abstract store and the locales \<open>jobs_store\<close> and \<open>reliable_jobs_store\<close>, what a storage promises
    and when it cannot fail; \<open>Store_Histories\<close>: what follows from the promise for sequences of
    writes, proved once for every storage.
  \<^item> \<open>Jobs_Storage\<close> (\<open>storage.go\<close>): the in-memory storage and its refinement of the contract.
  \<^item> \<open>Sql_Database\<close>: the tables and statements of \<open>storage_sqlite.go\<close> and the contracts
    \<open>sql_engine\<close> and \<open>json_codec\<close> of what it calls; \<open>Sqlite_Storage\<close>: its functions, one by one;
    \<open>Sqlite_Tables\<close>, \<open>Sqlite_Contract\<close>, \<open>Sqlite_Refinement\<close>: the abstract store of the tables,
    rules for computations in a transaction, and the refinement of the contract for every such
    engine and encoder; \<open>Sqlite_Engine\<close>: an engine and an encoder that meet the contracts;
    \<open>Sqlite_Retention\<close>: pruning and opening.
  \<^item> \<open>Storage_Agreement\<close>: a reference storage on the abstract store, and that both storages follow
    it; \<open>Sqlite_Properties\<close>: the properties of the SQLite storage and of the scheduler on top of it.
  \<^item> \<open>Scheduler_Core\<close> (\<open>scheduler.go\<close>, \<open>options.go\<close> of the scheduler): what runs under the mutex
    or without goroutines; \<open>Scheduler_Facts\<close>: a description, independent of the code, of the jobs that
    \<open>Schedule\<close> accepts and of what it makes of them; \<open>Scheduler_Properties\<close>: what \<open>Schedule\<close>,
    \<open>Remove\<close>, \<open>Stop\<close>, recovery and the queries do, for every storage that keeps the contract.
  \<^item> \<open>Scheduler_Execute\<close>: one execution with its attempts, their requests, the payload, the
    bookkeeping and the callback.
  \<^item> \<open>Scheduler_Run\<close>: the goroutines as a step relation, interleaved with the client calls. The
    executions that use one retrier share its timer pool, with the positions and steps of
    \<open>Pool_Sharing\<close>. \<open>Scheduler_Invariants\<close>: the invariant of the reachable states;
    \<open>Scheduler_Pools\<close>: the timers of every pool are accounted for; \<open>Scheduler_Liveness\<close>: bounds,
    ordering at the end of a job, and that after \<open>Stop\<close> everything ends when the executions are too
    few to drain a pool; \<open>Scheduler_Deadlock\<close>: that otherwise \<open>Stop\<close> can hang.

  \<^bold>\<open>State and operations.\<close> A struct is a record whose fields are named as in the source, with a
  prefix where two structs share a name; a method takes and returns the records it changes. A method
  of the scheduler is \<open>sched_\<close> and its name where the name is taken, one of the in-memory storage
  \<open>mem_\<close>, one of the SQLite storage \<open>sqlite_\<close>. A Go map is an association list with distinct keys,
  so that the order of iteration is explicit; pointers to job entries are numbers, because the
  source compares them. Time enters as a clock that gives the values of successive \<open>time.Now\<close>
  calls, a context as the error it ends with, and the choices of \<open>select\<close> as an argument.

  \<^bold>\<open>Parameters.\<close> Code outside the repository is an argument: \<open>errors.Is\<close> and \<open>Error\<close> on wrapped
  errors (from \<open>ewrap\<close>), the rounding of the backoff, the URL validator, the HTTP transport, the
  JSON encoder and the database engine. What is assumed of them is a locale each
  (\<open>error_matching\<close>, \<open>json_codec\<close>, \<open>sql_engine\<close>), with an instance on which the witnesses are
  evaluated. The engine may fail at any statement; it is assumed that a statement that reports
  success had the effect of its SQL text, that a rollback or a failed commit restores the tables of
  the start of the transaction, that a context that is done makes every call fail, and that the two
  messages the source looks for are given for the errors they describe.

  \<^bold>\<open>What the theorems show.\<close> For the retrier: the outcome of every call, bounds on invocations and
  on their spacing, release of every context and timer, and progress. For the storages: each
  implements the same abstract store, operation by operation; statuses and histories stay
  consistent; terminal states stay; the two give the same answers; a SQLite write happens as a whole
  or not at all, whatever the engine does. For the scheduler: registration, removal, stopping,
  recovery and queries on every path; the payload of an execution; at most the configured number of
  concurrent executions and of runs; termination after \<open>Stop\<close> in every interleaving when the
  concurrency is limited, and a state in which \<open>Stop\<close> hangs when it is not. Where the
  code does something it does not mean to do, a theorem says exactly what it does.

  \<^bold>\<open>Loops and bounds.\<close> No definition uses fuel. The retry loops recurse on the number of attempts
  left, the trimming of a path on its length; the goroutines are relations, and the theorems that
  they end give an explicit bound on the number of steps. Integers wrap around where the source
  computes with them (intervals, capacities, pages, body limits). Run and sequence counters, row
  counts and timestamps are unbounded: none can reach \<open>2 ^ 63\<close> by single increments.

  \<^bold>\<open>Not modelled.\<close> The text of log records beyond their message, the transport of HTTP and TLS, the
  memory model below the granularity of a mutex or channel operation, limits of memory, a panic
  inside a client's function or validator, a second process on the same database file, and calls by
  clients on a retrier that they also gave to the scheduler (callers of one retrier in general are
  the subject of \<open>Pool_Sharing\<close>). The step relations assume that an attempt returns or is
  abandoned, and that timers and tickers fire: these steps are always possible. The examples under
  \<open>__examples\<close>, the tests and the build files are not part of the library.
\<close>

end
